(* ===== verification/Go_Prelude.thy ===== *)
theory Go_Prelude
  imports Main "HOL-Library.Word" "HOL-Library.Signed_Division" "HOL-Library.Sublist" "HOL-Library.Char_ord"
begin

text \<open>
  The shared prelude: the part of the Go language and of its standard library that the
  program uses, and the generic facts the component theories rest on.
  \<^item> Integers. Go's \<^verbatim>\<open>int\<close>, \<^verbatim>\<open>int64\<close> and \<^verbatim>\<open>time.Duration\<close> are 64 bit two's complement values:
    they are \<open>int\<close> here, with the wrap-around (\<open>wrap64\<close>) or the saturation of
    \<^verbatim>\<open>Time.Sub\<close> (\<open>sat64\<close>) written out wherever the code can leave the range. Division
    truncates towards zero (\<open>sdiv\<close>). A \<^verbatim>\<open>time.Time\<close> is a number of nanoseconds since the Unix epoch.
  \<^item> Strings are byte strings. \<^verbatim>\<open>strings.TrimSpace\<close>, \<^verbatim>\<open>ToUpper\<close> and \<^verbatim>\<open>ToLower\<close> are modelled
    on their ASCII path; bytes outside ASCII are left alone.
  \<^item> Maps. A \<^verbatim>\<open>map[string]string\<close> is \<open>None\<close> when nil, else \<open>Some\<close> of a partial function.
\<close>

named_theorems go_simps \<open>unfolding of the small library functions of Go\<close>
named_theorems io_simps \<open>equations that run the effect monad\<close>
named_theorems io_intro \<open>structural rules for trace predicates of the effect monad\<close>

section \<open>Integers and durations\<close>

type_synonym duration = int
type_synonym time = int
type_synonym bytes = "8 word list"

definition int64_max :: int where
  "int64_max = 2 ^ 63 - 1"

definition int64_min :: int where
  "int64_min = - (2 ^ 63)"

definition in_int64 :: "int \<Rightarrow> bool" where
  "in_int64 x \<longleftrightarrow> int64_min \<le> x \<and> x \<le> int64_max"

definition wrap64 :: "int \<Rightarrow> int" where
  "wrap64 x = (x + 2 ^ 63) mod 2 ^ 64 - 2 ^ 63"

definition sat64 :: "int \<Rightarrow> int" where
  "sat64 x = max int64_min (min int64_max x)"

lemma wrap64_range: "in_int64 (wrap64 x)"
  using pos_mod_bound [of "2 ^ 64 :: int" "x + 2 ^ 63"] pos_mod_sign [of "2 ^ 64 :: int" "x + 2 ^ 63"]
  by (simp add: in_int64_def wrap64_def int64_min_def int64_max_def)

lemma wrap64_id: "in_int64 x \<Longrightarrow> wrap64 x = x"
  by (simp add: in_int64_def wrap64_def int64_min_def int64_max_def)

lemma wrap64_between: "0 \<le> x \<Longrightarrow> x \<le> y \<Longrightarrow> in_int64 y \<Longrightarrow> wrap64 x = x"
  by (rule wrap64_id) (simp add: in_int64_def int64_min_def)

lemma wrap64_0 [simp]: "wrap64 0 = 0"
  by (simp add: wrap64_def)

lemma sat64_range: "in_int64 (sat64 x)"
  by (simp add: in_int64_def sat64_def int64_min_def int64_max_def)

lemma sat64_id: "in_int64 x \<Longrightarrow> sat64 x = x"
  by (simp add: in_int64_def sat64_def)

lemma sat64_mono: "x \<le> y \<Longrightarrow> sat64 x \<le> sat64 y"
  by (simp add: sat64_def min_def max_def)

lemma sat64_nonneg: "0 \<le> x \<Longrightarrow> 0 \<le> sat64 x"
  by (simp add: sat64_def int64_max_def)

lemma sdiv_nonneg: "0 \<le> (a :: int) \<Longrightarrow> 0 < b \<Longrightarrow> a sdiv b = a div b"
  by (cases "a = 0") (simp_all add: signed_divide_int_def)

section \<open>Byte strings\<close>

definition is_space :: "char \<Rightarrow> bool" where
  "is_space c \<longleftrightarrow> c \<in> {CHR 0x09, CHR 0x0A, CHR 0x0B, CHR 0x0C, CHR 0x0D, CHR '' ''}"

definition TrimSpace :: "string \<Rightarrow> string" where
  "TrimSpace s = rev (dropWhile is_space (rev (dropWhile is_space s)))"

text \<open>\<^verbatim>\<open>strings.Split\<close> and \<^verbatim>\<open>strings.SplitN\<close> for a separator of one character; \<open>n\<close> is positive.\<close>

fun Split :: "char \<Rightarrow> string \<Rightarrow> string list" where
  "Split c [] = [[]]"
| "Split c (x # xs) =
     (if x = c then [] # Split c xs
      else case Split c xs of [] \<Rightarrow> [[x]] | p # ps \<Rightarrow> (x # p) # ps)"

fun SplitN :: "char \<Rightarrow> nat \<Rightarrow> string \<Rightarrow> string list" where
  "SplitN c 0 s = []"
| "SplitN c (Suc 0) s = [s]"
| "SplitN c (Suc (Suc n)) s =
     (if c \<in> set s
      then takeWhile (\<lambda>x. x \<noteq> c) s # SplitN c (Suc n) (tl (dropWhile (\<lambda>x. x \<noteq> c) s))
      else [s])"

fun Join :: "string list \<Rightarrow> string \<Rightarrow> string" where
  "Join [] sep = []"
| "Join [p] sep = p"
| "Join (p # q # ps) sep = p @ sep @ Join (q # ps) sep"

text \<open>\<^verbatim>\<open>strings.Cut\<close> at one character: what is before and after it, and whether it was found.\<close>

definition Cut :: "char \<Rightarrow> string \<Rightarrow> string \<times> string \<times> bool" where
  "Cut c s =
     (if c \<in> set s
      then (takeWhile (\<lambda>x. x \<noteq> c) s, tl (dropWhile (\<lambda>x. x \<noteq> c) s), True)
      else (s, [], False))"

definition HasPrefix :: "string \<Rightarrow> string \<Rightarrow> bool" where
  "HasPrefix s p \<longleftrightarrow> prefix p s"

definition TrimPrefix :: "string \<Rightarrow> string \<Rightarrow> string" where
  "TrimPrefix s p = (if HasPrefix s p then drop (length p) s else s)"

definition upper_char :: "char \<Rightarrow> char" where
  "upper_char c = (if CHR ''a'' \<le> c \<and> c \<le> CHR ''z'' then char_of (of_char c - 32 :: nat) else c)"

definition lower_char :: "char \<Rightarrow> char" where
  "lower_char c = (if CHR ''A'' \<le> c \<and> c \<le> CHR ''Z'' then char_of (of_char c + 32 :: nat) else c)"

definition ToUpper :: "string \<Rightarrow> string" where
  "ToUpper s = map upper_char s"

definition ToLower :: "string \<Rightarrow> string" where
  "ToLower s = map lower_char s"

definition ReplaceChar :: "string \<Rightarrow> char \<Rightarrow> char \<Rightarrow> string" where
  "ReplaceChar s a b = map (\<lambda>c. if c = a then b else c) s"

text \<open>\<^verbatim>\<open>%d\<close> of a value that is not negative.\<close>

fun decimal :: "nat \<Rightarrow> string" where
  "decimal n = (if n < 10 then [char_of (48 + n)] else decimal (n div 10) @ [char_of (48 + n mod 10)])"

declare decimal.simps [simp del]

lemmas [go_simps] = is_space_def TrimSpace_def Cut_def HasPrefix_def TrimPrefix_def
  upper_char_def lower_char_def ToUpper_def ToLower_def ReplaceChar_def

lemma Split_nonempty [simp]: "Split c s \<noteq> []"
  by (induction s) (auto split: list.splits)

lemma Split_no_sep: "c \<notin> set s \<Longrightarrow> Split c s = [s]"
  by (induction s) auto

lemma Split_append_sep: "c \<notin> set p \<Longrightarrow> Split c (p @ c # s) = p # Split c s"
  by (induction p) auto

lemma Split_parts_no_sep: "p \<in> set (Split c s) \<Longrightarrow> c \<notin> set p"
proof (induction s arbitrary: p)
  case Nil
  then show ?case by simp
next
  case (Cons x xs)
  then show ?case
    by (cases "Split c xs") (auto split: if_splits)
qed

lemma Join_Cons: "ps \<noteq> [] \<Longrightarrow> Join (p # ps) sep = p @ sep @ Join ps sep"
  by (cases ps) simp_all

lemma takeWhile_dropWhile_sep:
  assumes "c \<in> set s"
  shows "takeWhile (\<lambda>x. x \<noteq> c) s @ [c] @ tl (dropWhile (\<lambda>x. x \<noteq> c) s) = s"
proof -
  from assms have ne: "dropWhile (\<lambda>x. x \<noteq> c) s \<noteq> []"
    by (simp add: dropWhile_eq_Nil_conv)
  then have "hd (dropWhile (\<lambda>x. x \<noteq> c) s) = c"
    using hd_dropWhile [OF ne] by simp
  with ne have "[c] @ tl (dropWhile (\<lambda>x. x \<noteq> c) s) = dropWhile (\<lambda>x. x \<noteq> c) s"
    by (cases "dropWhile (\<lambda>x. x \<noteq> c) s") simp_all
  then show ?thesis by simp
qed

lemma SplitN_nonempty: "0 < n \<Longrightarrow> SplitN c n s \<noteq> []"
  by (induction c n s rule: SplitN.induct) auto

lemma length_SplitN: "length (SplitN c n s) \<le> n"
  by (induction c n s rule: SplitN.induct) auto

lemma SplitN_butlast_no_sep: "p \<in> set (butlast (SplitN c n s)) \<Longrightarrow> c \<notin> set p"
  by (induction c n s rule: SplitN.induct) (auto split: if_splits dest: set_takeWhileD)

lemma Join_SplitN: "0 < n \<Longrightarrow> Join (SplitN c n s) [c] = s"
proof (induction c n s rule: SplitN.induct)
  case (3 c n s)
  then show ?case
    by (cases "c \<in> set s")
      (simp_all add: Join_Cons SplitN_nonempty takeWhile_dropWhile_sep [simplified])
qed simp_all

lemma SplitN_2:
  "SplitN c 2 s =
     (if c \<in> set s then [takeWhile (\<lambda>x. x \<noteq> c) s, tl (dropWhile (\<lambda>x. x \<noteq> c) s)] else [s])"
  by (simp add: numeral_2_eq_2)

lemma SplitN_2_append: "c \<notin> set p \<Longrightarrow> SplitN c 2 (p @ c # s) = [p, s]"
proof -
  assume "c \<notin> set p"
  then have "takeWhile (\<lambda>x. x \<noteq> c) p = p" and all: "\<forall>x \<in> set p. x \<noteq> c"
    by (auto simp: takeWhile_eq_all_conv)
  then show ?thesis
    by (simp add: SplitN_2 takeWhile_append dropWhile_append)
qed

lemma Join_take_prefix: "prefix (Join (take k ps) sep) (Join ps sep)"
proof (induction ps arbitrary: k)
  case Nil
  then show ?case by simp
next
  case (Cons p ps)
  show ?case
  proof (cases k)
    case 0
    then show ?thesis by simp
  next
    case (Suc j)
    then show ?thesis
      using Cons [of j] by (cases ps; cases j) (auto simp: Join_Cons)
  qed
qed

lemma count_Join:
  assumes "\<forall>p \<in> set ps. c \<notin> set p"
  shows "count_list (Join ps [c]) c = length ps - 1"
  using assms
proof (induction ps)
  case (Cons p ps)
  then show ?case by (cases ps) (auto simp: count_notin)
qed simp

section \<open>Maps\<close>

type_synonym gomap = "(string \<rightharpoonup> string) option"

definition mget :: "gomap \<Rightarrow> string \<Rightarrow> string option" where
  "mget m k = (case m of None \<Rightarrow> None | Some f \<Rightarrow> f k)"

text \<open>An index expression without the presence flag: the zero value when the key is missing.\<close>

definition mget0 :: "gomap \<Rightarrow> string \<Rightarrow> string" where
  "mget0 m k = (case mget m k of None \<Rightarrow> [] | Some v \<Rightarrow> v)"

text \<open>\<open>mput\<close> is the assignment \<^verbatim>\<open>m[k] = v\<close> after the guard \<^verbatim>\<open>if m == nil { m = map[string]string{} }\<close>.\<close>

definition mput :: "gomap \<Rightarrow> string \<Rightarrow> string \<Rightarrow> gomap" where
  "mput m k v = Some ((case m of None \<Rightarrow> Map.empty | Some f \<Rightarrow> f)(k \<mapsto> v))"

lemma mget_None [simp]: "mget None k = None"
  by (simp add: mget_def)

lemma mget_Some [simp]: "mget (Some f) k = f k"
  by (simp add: mget_def)

lemma mget_mput: "mget (mput m k v) k' = (if k' = k then Some v else mget m k')"
  by (cases m) (simp_all add: mput_def)

lemma mput_idem_iff: "mput m k v = m \<longleftrightarrow> mget m k = Some v"
  by (cases m) (auto simp: mput_def fun_upd_idem_iff)

end
