(* ===== verification/Api_Types.thy ===== *)
theory Api_Types
  imports Go_Prelude
begin

text \<open>
  The data the program works on.
  \<^item> \<^verbatim>\<open>pkg/api/types.go\<close> and \<^verbatim>\<open>pkg/api/internal.go\<close>: the annotation and label names and the
    types of the status annotation and of the issuer documents, with every field.
  \<^item> The Kubernetes, OpenShift and ACME client types, with the fields this program reads or
    writes. A field the program never touches is only ever carried along by a deep copy, so
    leaving it out changes no comparison and no branch.
  \<^item> Errors are values: a library error (of the Kubernetes or the ACME client), an error the code
    formats itself (tagged with the text of its format string), one formatted around its cause, an aggregate, or
    a panic (a nil pointer used, a failed type assertion).
\<close>

section \<open>Constants of package api\<close>

definition DefaultTLSAcmeAnnotation :: string where
  "DefaultTLSAcmeAnnotation = ''kubernetes.io/tls-acme''"

definition AcmeStatusAnnotation :: string where
  "AcmeStatusAnnotation = ''acme.openshift.io/status''"

definition AcmePriorityAnnotation :: string where
  "AcmePriorityAnnotation = ''acme.openshift.io/priority''"

definition AcmeExposerHTTPFilterOutAnnotationsAnnotation :: string where
  "AcmeExposerHTTPFilterOutAnnotationsAnnotation = ''http.exposer.acme.openshift.io/filter-out-annotations''"

definition AcmeExposerHTTPFilterOutLabelsAnnotation :: string where
  "AcmeExposerHTTPFilterOutLabelsAnnotation = ''http.exposer.acme.openshift.io/filter-out-labels''"

definition AcmeTemporaryLabel :: string where
  "AcmeTemporaryLabel = ''acme.openshift.io/temporary''"

definition AcmeExposerID :: string where
  "AcmeExposerID = ''acme.openshift.io/exposer-id''"

definition AcmeExposerKey :: string where
  "AcmeExposerKey = ''acme.openshift.io/exposer-key''"

definition AcmeExposerUID :: string where
  "AcmeExposerUID = ''acme.openshift.io/exposer-uid''"

definition AcmeCertIssuerName :: string where
  "AcmeCertIssuerName = ''acme.openshift.io/cert-issuer-name''"

definition AcmeCertProfile :: string where
  "AcmeCertProfile = ''acme.openshift.io/cert-profile''"

definition AcmeSecretName :: string where
  "AcmeSecretName = ''acme.openshift.io/secret-name''"

definition CertIssuerDataKey :: string where
  "CertIssuerDataKey = ''cert-issuer.types.acme.openshift.io''"

definition CertIssuerTypeAcme :: string where
  "CertIssuerTypeAcme = ''ACME''"

text \<open>Names of \<^verbatim>\<open>internal.go\<close> that the program itself does not use; one of them is in the end-to-end tests.\<close>

definition ForwardingRouteSuffix :: string where
  "ForwardingRouteSuffix = ''acme''"

definition ExposerLabelName :: string where
  "ExposerLabelName = ''acme.openshift.io/exposer''"

definition ExposerForLabelName :: string where
  "ExposerForLabelName = ''acme.openshift.io/exposer-for''"

type_synonym AcmeState = string

definition AcmeStateNeedsCert :: string where
  "AcmeStateNeedsCert = ''NeedsCertificate''"

definition AcmeStateWaitingForAuthz :: string where
  "AcmeStateWaitingForAuthz = ''WaitingForAuthz''"

definition AcmeStateOk :: string where
  "AcmeStateOk = ''OK''"

text \<open>\<^verbatim>\<open>AccountLabelSet\<close>: the labels an issuer ConfigMap carries.\<close>

definition AccountLabelSet :: "(string \<times> string) list" where
  "AccountLabelSet = [(''managed-by'', ''openshift-acme''), (''type'', ''CertIssuer'')]"

lemmas api_names = DefaultTLSAcmeAnnotation_def AcmeStatusAnnotation_def AcmePriorityAnnotation_def
  AcmeExposerHTTPFilterOutAnnotationsAnnotation_def AcmeExposerHTTPFilterOutLabelsAnnotation_def
  AcmeTemporaryLabel_def AcmeExposerID_def AcmeExposerKey_def AcmeExposerUID_def
  AcmeCertIssuerName_def AcmeCertProfile_def AcmeSecretName_def CertIssuerDataKey_def
  CertIssuerTypeAcme_def

section \<open>Types of package api\<close>

record AcmeAccountStatus =
  as_Hash :: string
  as_URI :: string
  as_AccountStatus :: string
  as_OrdersURL :: string

record AcmeAccount =
  aa_Contacts :: "string list"
  aa_Status :: AcmeAccountStatus

record AcmeCertIssuer =
  ac_DirectoryURL :: string
  ac_Account :: AcmeAccount

record CertIssuer =
  ci_SecretName :: string
  ci_Type :: string
  ci_AcmeCertIssuer :: "AcmeCertIssuer option"

record CertificateMeta =
  cm_NotBefore :: time
  cm_NotAfter :: time
  cm_Domains :: "string list"

record OrderError =
  oe_StatusCode :: int
  oe_ProblemType :: string
  oe_Detail :: string

record CertProvisioningStatus =
  ps_StartedAt :: time
  ps_EarliestAttemptAt :: time
  ps_Failures :: int
  ps_OrderURI :: string
  ps_OrderStatus :: string
  ps_OrderError :: "OrderError option"
  ps_AccountHash :: string

record Status =
  st_ObservedGeneration :: int
  st_CertificateMeta :: "CertificateMeta option"
  st_ProvisioningStatus :: CertProvisioningStatus
  st_Signature :: string

text \<open>The zero \<^verbatim>\<open>time.Time\<close> (January 1, year 1 UTC) and the zero \<^verbatim>\<open>api.Status\<close>.\<close>

definition zero_time :: time where
  "zero_time = - 62135596800 * 10 ^ 9"

definition zero_Status :: Status where
  "zero_Status =
     \<lparr>st_ObservedGeneration = 0, st_CertificateMeta = None,
      st_ProvisioningStatus =
        \<lparr>ps_StartedAt = zero_time, ps_EarliestAttemptAt = zero_time, ps_Failures = 0,
         ps_OrderURI = [], ps_OrderStatus = [], ps_OrderError = None, ps_AccountHash = []\<rparr>,
      st_Signature = []\<rparr>"

section \<open>Cluster objects\<close>

record OwnerReference =
  or_APIVersion :: string
  or_Kind :: string
  or_Name :: string
  or_UID :: string
  or_Controller :: "bool option"

record ObjectMeta =
  om_Name :: string
  om_Namespace :: string
  om_UID :: string
  om_ResourceVersion :: string
  om_Generation :: int
  om_CreationTimestamp :: time
  om_DeletionTimestamp :: "time option"
  om_Annotations :: gomap
  om_Labels :: gomap
  om_OwnerReferences :: "OwnerReference list"

record TLSConfig =
  tls_Termination :: string
  tls_Certificate :: string
  tls_Key :: string
  tls_CACertificate :: string
  tls_DestinationCACertificate :: string
  tls_InsecureEdgeTerminationPolicy :: string

record RouteTargetReference =
  to_Kind :: string
  to_Name :: string
  to_Weight :: "int option"

record RouteSpec =
  spec_Host :: string
  spec_Path :: string
  spec_To :: RouteTargetReference
  spec_Port :: "string option"
  spec_TLS :: "TLSConfig option"

record RouteIngressCondition =
  cond_Type :: string
  cond_Status :: string

record RouteIngress =
  ing_Conditions :: "RouteIngressCondition list"

record Route =
  rt_Meta :: ObjectMeta
  rt_Spec :: RouteSpec
  rt_Ingress :: "RouteIngress list"

record Secret =
  sec_Meta :: ObjectMeta
  sec_Type :: string
  sec_Data :: gomap
  sec_StringData :: gomap

record ConfigMap =
  cfg_Meta :: ObjectMeta
  cfg_Data :: gomap

text \<open>
  A resource quantity is identified by its value in units of \<open>10 ^ (- 9)\<close>, the finest precision
  the Kubernetes API admits. The operations on it are parameters.
\<close>

datatype quantity = Quantity (q_nano: int)

type_synonym resourceList = "string \<rightharpoonup> quantity"

definition ResourceCPU :: string where
  "ResourceCPU = ''cpu''"

definition ResourceMemory :: string where
  "ResourceMemory = ''memory''"

record LimitRangeItem =
  lri_Type :: string
  lri_Max :: resourceList
  lri_Min :: resourceList
  lri_MaxLimitRequestRatio :: resourceList

record LimitRange =
  lr_Meta :: ObjectMeta
  lr_Limits :: "LimitRangeItem list"

record ResourceRequirements =
  rr_Limits :: resourceList
  rr_Requests :: resourceList

record ContainerPort =
  cp_Name :: string
  cp_Protocol :: string
  cp_ContainerPort :: int

record VolumeMount =
  vm_Name :: string
  vm_ReadOnly :: bool
  vm_MountPath :: string

record PodSecurityContext =
  psc_RunAsNonRoot :: "bool option"
  psc_SeccompProfileType :: "string option"

record SecurityContext =
  sc_AllowPrivilegeEscalation :: "bool option"
  sc_ReadOnlyRootFilesystem :: "bool option"
  sc_CapabilitiesDrop :: "string list option"

record Container =
  ctr_Name :: string
  ctr_Image :: string
  ctr_Command :: "string list"
  ctr_Args :: "string list"
  ctr_Ports :: "ContainerPort list"
  ctr_VolumeMounts :: "VolumeMount list"
  ctr_Resources :: ResourceRequirements
  ctr_SecurityContext :: SecurityContext

record Volume =
  vol_Name :: string
  vol_SecretName :: string

record PodSpec =
  pod_SecurityContext :: PodSecurityContext
  pod_Containers :: "Container list"
  pod_Volumes :: "Volume list"

record ReplicaSet =
  rps_Meta :: ObjectMeta
  rps_Replicas :: int
  rps_SelectorMatchLabels :: gomap
  rps_TemplateLabels :: gomap
  rps_TemplateSpec :: PodSpec
  rps_ObservedGeneration :: int
  rps_StatusReplicas :: int
  rps_AvailableReplicas :: int

record ServicePort =
  sp_Name :: string
  sp_Protocol :: string
  sp_Port :: int
  sp_TargetPort :: int

record Service =
  svc_Meta :: ObjectMeta
  svc_Selector :: gomap
  svc_Type :: string
  svc_Ports :: "ServicePort list"

section \<open>ACME objects\<close>

text \<open>The order, authorization and challenge states of RFC 8555, as the client library spells them.\<close>

definition StatusPending :: string where "StatusPending = ''pending''"
definition StatusProcessing :: string where "StatusProcessing = ''processing''"
definition StatusReady :: string where "StatusReady = ''ready''"
definition StatusValid :: string where "StatusValid = ''valid''"
definition StatusInvalid :: string where "StatusInvalid = ''invalid''"
definition StatusExpired :: string where "StatusExpired = ''expired''"
definition StatusRevoked :: string where "StatusRevoked = ''revoked''"
definition StatusDeactivated :: string where "StatusDeactivated = ''deactivated''"

lemmas acme_status_names = StatusPending_def StatusProcessing_def StatusReady_def StatusValid_def
  StatusInvalid_def StatusExpired_def StatusRevoked_def StatusDeactivated_def

record Order =
  ord_URI :: string
  ord_Status :: string
  ord_AuthzURLs :: "string list"
  ord_FinalizeURL :: string

record Challenge =
  ch_Type :: string
  ch_URI :: string
  ch_Token :: string
  ch_Status :: string

record Authorization =
  az_URI :: string
  az_Status :: string
  az_Challenges :: "Challenge list"

record Account =
  acct_URI :: string
  acct_Contact :: "string list"
  acct_Status :: string
  acct_OrdersURL :: string

text \<open>A private key is an opaque handle; a certificate is what the program reads of it.\<close>

type_synonym PrivateKey = string

record Certificate =
  crt_Raw :: string
  crt_NotBefore :: time
  crt_NotAfter :: time

record AcmeClient =
  cl_DirectoryURL :: string
  cl_Key :: PrivateKey
  cl_Profile :: "string option"

record HttpResponse =
  hr_StatusCode :: int
  hr_FirstRead :: string
  hr_ReadError :: bool

section \<open>Errors\<close>

datatype k8s_error = NotFound | AlreadyExists | Conflict | K8sOther string

datatype acme_error = AcmeProblem int | AcmeTransport string

datatype gerror =
    K8sErr k8s_error
  | AcmeErr acme_error
  | LibErr string
  | Errorf string
  | Wrapf string gerror
  | Aggregate "gerror list"
  | Panic string

fun is_panic :: "gerror \<Rightarrow> bool" where
  "is_panic (Panic _) = True"
| "is_panic (Wrapf _ e) = is_panic e"
| "is_panic _ = False"

end
