(* ===== verification/Effects.thy ===== *)
theory Effects
  imports Api_Types
begin

text \<open>
  How the program meets its surroundings.
  \<^item> \<open>lib\<close> collects the pure functions of packages that are not part of the repository
    (apimachinery, client-go, sigs.k8s.io/yaml, x/crypto/acme) and of the cryptographic and
    regular-expression packages of Go. They are parameters of every definition that calls them.
  \<^item> \<open>env\<close> collects the calls whose answer depends on the outside world: the clock, the informer
    caches, the API server, the ACME server, the exposed HTTP endpoint, the work queues. Each is a function of the
    whole history of the interaction, so any behaviour of the outside (other writers,
    stale caches, failures, time passing) is some \<open>env\<close>.
  \<^item> A handler is a value of \<open>'a io\<close>: it extends the history with the calls it makes, in order,
    and ends in a result or an error. Every read and every write of the outside is an event.
\<close>

section \<open>Parameters\<close>

record lib =
  l_SplitMetaNamespaceKey :: "string \<Rightarrow> (string \<times> string) option"
  l_KeyFunc :: "ObjectMeta \<Rightarrow> string option"
  l_GetControllerOf :: "ObjectMeta \<Rightarrow> OwnerReference option"
  l_IsControlledBy :: "ObjectMeta \<Rightarrow> ObjectMeta \<Rightarrow> bool"
  l_RouteGroupVersion :: string
  l_yamlMarshalStatus :: "Status \<Rightarrow> string option"
  l_yamlUnmarshalStatus :: "string \<Rightarrow> Status option"
  l_jsonMarshalStatus :: "Status \<Rightarrow> string option"
  l_yamlMarshalCertIssuer :: "CertIssuer \<Rightarrow> string option"
  l_yamlUnmarshalCertIssuer :: "string \<Rightarrow> CertIssuer option"
  l_sha256 :: "string \<Rightarrow> 8 word list"
  l_sha512 :: "string \<Rightarrow> 8 word list"
  l_pemDecode :: "string \<Rightarrow> string option"
  l_pemEncode :: "string \<Rightarrow> string \<Rightarrow> string"
  l_ParseCertificate :: "string \<Rightarrow> Certificate option"
  l_VerifyHostname :: "Certificate \<Rightarrow> string \<Rightarrow> bool"
  l_ParsePKCS1PrivateKey :: "string \<Rightarrow> PrivateKey option"
  l_MarshalPKCS1PrivateKey :: "PrivateKey \<Rightarrow> string"
  l_regexpCompile :: "string \<Rightarrow> (string \<Rightarrow> bool) option"
  l_HTTP01ChallengePath :: "string \<Rightarrow> string"
  l_HTTP01ChallengeResponse :: "PrivateKey \<Rightarrow> string \<Rightarrow> string option"
  l_qCmp :: "quantity \<Rightarrow> quantity \<Rightarrow> int"
  l_qMilliValue :: "quantity \<Rightarrow> int"
  l_NewMilliQuantity :: "int \<Rightarrow> quantity"
  l_NewQuantity :: "int \<Rightarrow> quantity"
  l_NewScaledQuantityMilli :: "int \<Rightarrow> quantity"
  l_pdqsort :: "(ConfigMap \<Rightarrow> ConfigMap \<Rightarrow> bool) \<Rightarrow> ConfigMap list \<Rightarrow> ConfigMap list"

section \<open>Events\<close>

text \<open>The two queues of the route controller and the one of the account controller.\<close>

datatype queue_name = RouteQueue | RouteToSecretQueue | AccountQueue

datatype ev =
    Clock time
  | CacheRead string string string
  | CacheList string string
  | QueueGet queue_name "string option"
  | QueueAdd queue_name string
  | QueueAddAfter queue_name string duration
  | QueueAddRateLimited queue_name string
  | QueueForget queue_name string
  | QueueDone queue_name string
  | RoutePatch string string "(string \<times> string)" "k8s_error + Route"
  | RouteGet string string "k8s_error + Route"
  | RouteCreate string Route "k8s_error + Route"
  | RouteUpdate string Route "k8s_error + Route"
  | RouteDeleteCollection string "(string \<times> string)" "k8s_error + unit"
  | SecretCreate string Secret "k8s_error + Secret"
  | SecretUpdate string Secret "k8s_error + Secret"
  | ReplicaSetCreate string ReplicaSet "k8s_error + ReplicaSet"
  | ServiceCreate string Service "k8s_error + Service"
  | ConfigMapUpdate string ConfigMap "k8s_error + ConfigMap"
  | AuthorizeOrder AcmeClient string "acme_error + Order"
  | GetOrder AcmeClient string "acme_error + Order"
  | GetAuthorization AcmeClient string "acme_error + Authorization"
  | Accept AcmeClient Challenge "acme_error + Challenge"
  | CreateOrderCert AcmeClient string "string \<times> PrivateKey" "acme_error + string list"
  | Register AcmeClient "string list" "acme_error + Account"
  | UpdateReg AcmeClient Account "acme_error + Account"
  | GetReg AcmeClient "acme_error + Account"
  | HttpGet string "gerror + HttpResponse"
  | GenerateKey int "PrivateKey option"
  | CreateCertificateRequest string PrivateKey bool
  | RecordEvent string string string string

type_synonym trace = "ev list"

text \<open>
  A handler turns the history into its result and a longer history.
\<close>

type_synonym 'a io = "trace \<Rightarrow> (gerror + 'a) \<times> trace"

text \<open>\<open>e_RetryOnConflict\<close> is \<^verbatim>\<open>retry.RetryOnConflict(retry.DefaultRetry, fn)\<close> of client-go.\<close>

record env =
  e_Now :: "trace \<Rightarrow> time"
  e_routeByKey :: "trace \<Rightarrow> string \<Rightarrow> string \<Rightarrow> gerror + Route option"
  e_routeGet :: "trace \<Rightarrow> string \<Rightarrow> string \<Rightarrow> string \<Rightarrow> k8s_error + Route"
  e_secretByKey :: "trace \<Rightarrow> string \<Rightarrow> string \<Rightarrow> gerror + Secret option"
  e_secretGet :: "trace \<Rightarrow> string \<Rightarrow> string \<Rightarrow> string \<Rightarrow> k8s_error + Secret"
  e_replicaSetGet :: "trace \<Rightarrow> string \<Rightarrow> string \<Rightarrow> string \<Rightarrow> k8s_error + ReplicaSet"
  e_serviceGet :: "trace \<Rightarrow> string \<Rightarrow> string \<Rightarrow> string \<Rightarrow> k8s_error + Service"
  e_configMapByKey :: "trace \<Rightarrow> string \<Rightarrow> string \<Rightarrow> gerror + ConfigMap option"
  e_configMapGet :: "trace \<Rightarrow> string \<Rightarrow> string \<Rightarrow> string \<Rightarrow> k8s_error + ConfigMap"
  e_configMapList :: "trace \<Rightarrow> string \<Rightarrow> string \<Rightarrow> gerror + ConfigMap list"
  e_limitRangeList :: "trace \<Rightarrow> string \<Rightarrow> string \<Rightarrow> gerror + LimitRange list"
  e_queueGet :: "trace \<Rightarrow> queue_name \<Rightarrow> string option"
  e_apiRoutePatch :: "trace \<Rightarrow> string \<Rightarrow> string \<Rightarrow> string \<times> string \<Rightarrow> k8s_error + Route"
  e_apiRouteGet :: "trace \<Rightarrow> string \<Rightarrow> string \<Rightarrow> k8s_error + Route"
  e_apiRouteCreate :: "trace \<Rightarrow> string \<Rightarrow> Route \<Rightarrow> k8s_error + Route"
  e_apiRouteUpdate :: "trace \<Rightarrow> string \<Rightarrow> Route \<Rightarrow> k8s_error + Route"
  e_apiRouteDeleteCollection :: "trace \<Rightarrow> string \<Rightarrow> string \<times> string \<Rightarrow> k8s_error + unit"
  e_apiSecretCreate :: "trace \<Rightarrow> string \<Rightarrow> Secret \<Rightarrow> k8s_error + Secret"
  e_apiSecretUpdate :: "trace \<Rightarrow> string \<Rightarrow> Secret \<Rightarrow> k8s_error + Secret"
  e_apiReplicaSetCreate :: "trace \<Rightarrow> string \<Rightarrow> ReplicaSet \<Rightarrow> k8s_error + ReplicaSet"
  e_apiServiceCreate :: "trace \<Rightarrow> string \<Rightarrow> Service \<Rightarrow> k8s_error + Service"
  e_apiConfigMapUpdate :: "trace \<Rightarrow> string \<Rightarrow> ConfigMap \<Rightarrow> k8s_error + ConfigMap"
  e_AuthorizeOrder :: "trace \<Rightarrow> AcmeClient \<Rightarrow> string \<Rightarrow> acme_error + Order"
  e_GetOrder :: "trace \<Rightarrow> AcmeClient \<Rightarrow> string \<Rightarrow> acme_error + Order"
  e_GetAuthorization :: "trace \<Rightarrow> AcmeClient \<Rightarrow> string \<Rightarrow> acme_error + Authorization"
  e_Accept :: "trace \<Rightarrow> AcmeClient \<Rightarrow> Challenge \<Rightarrow> acme_error + Challenge"
  e_CreateOrderCert :: "trace \<Rightarrow> AcmeClient \<Rightarrow> string \<Rightarrow> string \<times> PrivateKey \<Rightarrow> acme_error + string list"
  e_Register :: "trace \<Rightarrow> AcmeClient \<Rightarrow> string list \<Rightarrow> acme_error + Account"
  e_UpdateReg :: "trace \<Rightarrow> AcmeClient \<Rightarrow> Account \<Rightarrow> acme_error + Account"
  e_GetReg :: "trace \<Rightarrow> AcmeClient \<Rightarrow> acme_error + Account"
  e_httpGet :: "trace \<Rightarrow> string \<Rightarrow> gerror + HttpResponse"
  e_generateKey :: "trace \<Rightarrow> int \<Rightarrow> PrivateKey option"
  e_createCSR :: "trace \<Rightarrow> string \<Rightarrow> PrivateKey \<Rightarrow> bool"
  e_RetryOnConflict :: "unit io \<Rightarrow> unit io"

section \<open>The effect monad\<close>

definition ret :: "'a \<Rightarrow> 'a io" where
  "ret a h = (Inr a, h)"

definition throw :: "gerror \<Rightarrow> 'a io" where
  "throw e h = (Inl e, h)"

definition bind_io :: "'a io \<Rightarrow> ('a \<Rightarrow> 'b io) \<Rightarrow> 'b io" where
  "bind_io m f h = (case m h of (Inl e, h') \<Rightarrow> (Inl e, h') | (Inr a, h') \<Rightarrow> f a h')"

text \<open>\<open>seq_io\<close> is a statement whose value is not used.\<close>

definition seq_io :: "'a io \<Rightarrow> 'b io \<Rightarrow> 'b io" where
  "seq_io m n = bind_io m (\<lambda>_. n)"

text \<open>\<open>call f e\<close> asks the outside (\<open>f\<close>, given the history) and records the event \<open>e\<close> of the answer.\<close>

definition call :: "(trace \<Rightarrow> 'a) \<Rightarrow> ('a \<Rightarrow> ev) \<Rightarrow> 'a io" where
  "call f e h = (Inr (f h), h @ [e (f h)])"

definition log_ev :: "ev \<Rightarrow> unit io" where
  "log_ev e h = (Inr (), h @ [e])"

definition of_sum :: "('e \<Rightarrow> gerror) \<Rightarrow> 'e + 'a \<Rightarrow> 'a io" where
  "of_sum w r = (case r of Inl e \<Rightarrow> throw (w e) | Inr a \<Rightarrow> ret a)"

definition of_option :: "gerror \<Rightarrow> 'a option \<Rightarrow> 'a io" where
  "of_option e r = (case r of None \<Rightarrow> throw e | Some a \<Rightarrow> ret a)"

text \<open>\<open>attempt m\<close> hands the error to the caller (\<^verbatim>\<open>err := m()\<close>); a panic goes on.\<close>

definition attempt :: "'a io \<Rightarrow> (gerror + 'a) io" where
  "attempt m h = (case m h of
       (Inl e, h') \<Rightarrow> (if is_panic e then (Inl e, h') else (Inr (Inl e), h'))
     | (Inr a, h') \<Rightarrow> (Inr (Inr a), h'))"

text \<open>\<open>wrap_err\<close> is \<^verbatim>\<open>if err != nil { return fmt.Errorf("...: %w", err) }\<close>.\<close>

definition wrap_err :: "string \<Rightarrow> 'a io \<Rightarrow> 'a io" where
  "wrap_err t m h = (case m h of (Inl e, h') \<Rightarrow> (Inl (Wrapf t e), h') | (Inr a, h') \<Rightarrow> (Inr a, h'))"

fun for_each :: "('a \<Rightarrow> unit io) \<Rightarrow> 'a list \<Rightarrow> unit io" where
  "for_each f [] = ret ()"
| "for_each f (x # xs) = seq_io (f x) (for_each f xs)"

lemmas io_defs = ret_def throw_def bind_io_def seq_io_def call_def log_ev_def of_sum_def
  of_option_def attempt_def wrap_err_def

declare io_defs [io_simps]

lemma bind_ret [simp]: "bind_io (ret a) f = f a"
  by (simp add: fun_eq_iff io_defs)

lemma bind_throw [simp]: "bind_io (throw e) f = throw e"
  by (simp add: fun_eq_iff io_defs)

lemma ret_bind [simp]: "bind_io m ret = m"
  by (auto simp: fun_eq_iff io_defs split: prod.splits sum.splits)

lemma bind_assoc: "bind_io (bind_io m f) g = bind_io m (\<lambda>a. bind_io (f a) g)"
  by (auto simp: fun_eq_iff io_defs split: prod.splits sum.splits)

section \<open>Trace predicates\<close>

text \<open>
  \<open>emits Q m\<close>: whatever the history, \<open>m\<close> only appends events that satisfy \<open>Q\<close>.
  \<open>keeps P m\<close>: \<open>m\<close> preserves the property \<open>P\<close> of the whole history.
  \<open>hoare P m R E\<close>: from a history in \<open>P\<close>, a normal end satisfies \<open>R\<close> and an error end \<open>E\<close>.
\<close>

definition emits :: "(ev \<Rightarrow> bool) \<Rightarrow> 'a io \<Rightarrow> bool" where
  "emits Q m \<longleftrightarrow> (\<forall>h. \<exists>t. snd (m h) = h @ t \<and> list_all Q t)"

definition hoare :: "(trace \<Rightarrow> bool) \<Rightarrow> 'a io \<Rightarrow> ('a \<Rightarrow> trace \<Rightarrow> bool) \<Rightarrow> (gerror \<Rightarrow> trace \<Rightarrow> bool) \<Rightarrow> bool" where
  "hoare P m R E \<longleftrightarrow>
     (\<forall>h. P h \<longrightarrow> (case m h of (Inl e, h') \<Rightarrow> E e h' | (Inr a, h') \<Rightarrow> R a h'))"

abbreviation keeps :: "(trace \<Rightarrow> bool) \<Rightarrow> 'a io \<Rightarrow> bool" where
  "keeps P m \<equiv> hoare P m (\<lambda>_. P) (\<lambda>_. P)"

lemma emits_ret [io_intro]: "emits Q (ret a)"
  by (simp add: emits_def io_defs)

lemma emits_throw [io_intro]: "emits Q (throw e)"
  by (simp add: emits_def io_defs)

lemma emits_bind [io_intro]:
  assumes "emits Q m" and "\<And>a. emits Q (f a)"
  shows "emits Q (bind_io m f)"
  unfolding emits_def
proof
  fix h
  obtain t where t: "snd (m h) = h @ t" "list_all Q t"
    using assms(1) by (auto simp: emits_def)
  show "\<exists>u. snd (bind_io m f h) = h @ u \<and> list_all Q u"
  proof (cases "fst (m h)")
    case (Inl e)
    with t show ?thesis by (cases "m h") (simp add: bind_io_def)
  next
    case (Inr a)
    obtain u where "snd (f a (h @ t)) = (h @ t) @ u" "list_all Q u"
      using assms(2) [of a] unfolding emits_def by blast
    with t Inr show ?thesis
      by (cases "m h") (auto simp: bind_io_def intro: exI [of _ "t @ u"])
  qed
qed

lemma emits_seq [io_intro]: "emits Q m \<Longrightarrow> emits Q n \<Longrightarrow> emits Q (seq_io m n)"
  by (simp add: seq_io_def emits_bind)

text \<open>\<open>yields R m\<close>: what \<open>m\<close> returns satisfies \<open>R\<close>; it carries what a part knows of its result over a sequence.\<close>

definition yields :: "('a \<Rightarrow> bool) \<Rightarrow> 'a io \<Rightarrow> bool" where
  "yields R m \<longleftrightarrow> (\<forall>h a h'. m h = (Inr a, h') \<longrightarrow> R a)"

lemma emits_bind_yields:
  assumes "emits Q m" and "yields R m" and "\<And>a. R a \<Longrightarrow> emits Q (f a)"
  shows "emits Q (bind_io m f)"
  unfolding emits_def
proof
  fix h
  obtain r t where t: "m h = (r, h @ t)" "list_all Q t"
    using assms(1) unfolding emits_def by (metis prod.collapse)
  show "\<exists>t. snd (bind_io m f h) = h @ t \<and> list_all Q t"
  proof (cases r)
    case (Inl e)
    with t show ?thesis by (simp add: bind_io_def)
  next
    case (Inr a)
    then have "R a" using t assms(2) unfolding yields_def by blast
    then obtain u where "snd (f a (h @ t)) = (h @ t) @ u" "list_all Q u"
      using assms(3) unfolding emits_def by blast
    with t Inr show ?thesis
      by (intro exI [of _ "t @ u"]) (simp add: bind_io_def)
  qed
qed

lemma emits_call [io_intro]: "(\<And>h. Q (e (f h))) \<Longrightarrow> emits Q (call f e)"
  by (simp add: emits_def call_def)

lemma emits_log_ev [io_intro]: "Q e \<Longrightarrow> emits Q (log_ev e)"
  by (simp add: emits_def log_ev_def)

lemma emits_of_sum [io_intro]: "emits Q (of_sum w r)"
  by (cases r) (simp_all add: of_sum_def emits_ret emits_throw)

lemma emits_of_option [io_intro]: "emits Q (of_option e r)"
  by (cases r) (simp_all add: of_option_def emits_ret emits_throw)

lemma snd_attempt [simp]: "snd (attempt m h) = snd (m h)"
  by (simp add: attempt_def split: prod.splits sum.splits)

lemma snd_wrap_err [simp]: "snd (wrap_err t m h) = snd (m h)"
  by (simp add: wrap_err_def split: prod.splits sum.splits)

lemma emits_attempt [io_intro]: "emits Q m \<Longrightarrow> emits Q (attempt m)"
  by (simp add: emits_def)

lemma emits_wrap_err [io_intro]: "emits Q m \<Longrightarrow> emits Q (wrap_err t m)"
  by (simp add: emits_def)

lemma emits_for_each [io_intro]: "(\<And>x. emits Q (f x)) \<Longrightarrow> emits Q (for_each f xs)"
  by (induction xs) (simp_all add: emits_ret emits_seq)

lemma emits_if [io_intro]: "(b \<Longrightarrow> emits Q m) \<Longrightarrow> (\<not> b \<Longrightarrow> emits Q n) \<Longrightarrow> emits Q (if b then m else n)"
  by simp

lemma emits_case_option [io_intro]:
  "(x = None \<Longrightarrow> emits Q m) \<Longrightarrow> (\<And>a. x = Some a \<Longrightarrow> emits Q (f a)) \<Longrightarrow>
    emits Q (case x of None \<Rightarrow> m | Some a \<Rightarrow> f a)"
  by (cases x) simp_all

lemma emits_case_sum [io_intro]:
  "(\<And>e. x = Inl e \<Longrightarrow> emits Q (g e)) \<Longrightarrow> (\<And>a. x = Inr a \<Longrightarrow> emits Q (f a)) \<Longrightarrow>
    emits Q (case x of Inl e \<Rightarrow> g e | Inr a \<Rightarrow> f a)"
  by (cases x) simp_all

lemma emits_case_prod [io_intro]:
  "(\<And>a b. x = (a, b) \<Longrightarrow> emits Q (f a b)) \<Longrightarrow> emits Q (case x of (a, b) \<Rightarrow> f a b)"
  by (cases x) simp

lemma emits_Let [io_intro]: "emits Q (f a) \<Longrightarrow> emits Q (Let a f)"
  by simp

lemma emits_mono: "emits Q m \<Longrightarrow> (\<And>e. Q e \<Longrightarrow> R e) \<Longrightarrow> emits R m"
  by (fastforce simp: emits_def list_all_iff)

lemma emitsD: "emits Q m \<Longrightarrow> m h = (r, h') \<Longrightarrow> \<exists>t. h' = h @ t \<and> list_all Q t"
  by (metis emits_def snd_conv)

text \<open>
  \<open>produces Q m\<close>: the events \<open>m\<close> appends form a segment in \<open>Q\<close>. For a \<open>Q\<close> closed under
  concatenation it goes through sequencing, so an ordering of events (a check right before
  an action) is established where the two are issued.
\<close>

definition produces :: "(trace \<Rightarrow> bool) \<Rightarrow> 'a io \<Rightarrow> bool" where
  "produces Q m \<longleftrightarrow> (\<forall>h. \<exists>t. snd (m h) = h @ t \<and> Q t)"

definition closed_append :: "(trace \<Rightarrow> bool) \<Rightarrow> bool" where
  "closed_append Q \<longleftrightarrow> Q [] \<and> (\<forall>s t. Q s \<longrightarrow> Q t \<longrightarrow> Q (s @ t))"

lemma produces_emits: "emits R m \<Longrightarrow> (\<And>t. list_all R t \<Longrightarrow> Q t) \<Longrightarrow> produces Q m"
  unfolding produces_def emits_def by blast

lemma producesD: "produces Q m \<Longrightarrow> m h = (r, h') \<Longrightarrow> \<exists>t. h' = h @ t \<and> Q t"
  by (metis produces_def snd_conv)

lemma produces_bind:
  assumes "closed_append Q" and "produces Q m" and "\<And>a. produces Q (f a)"
  shows "produces Q (bind_io m f)"
  unfolding produces_def
proof
  fix h
  obtain t where t: "snd (m h) = h @ t" "Q t"
    using assms(2) by (auto simp: produces_def)
  show "\<exists>u. snd (bind_io m f h) = h @ u \<and> Q u"
  proof (cases "fst (m h)")
    case (Inl e)
    with t show ?thesis by (cases "m h") (simp add: bind_io_def)
  next
    case (Inr a)
    obtain u where "snd (f a (h @ t)) = (h @ t) @ u" "Q u"
      using assms(3) [of a] unfolding produces_def by blast
    with t Inr assms(1) show ?thesis
      by (cases "m h") (auto simp: bind_io_def closed_append_def intro: exI [of _ "t @ u"])
  qed
qed

lemma produces_wrap_err: "produces Q m \<Longrightarrow> produces Q (wrap_err t m)"
  by (simp add: produces_def)

lemma produces_attempt: "produces Q m \<Longrightarrow> produces Q (attempt m)"
  by (simp add: produces_def)

text \<open>\<open>preceded A B\<close>: each event in \<open>A\<close> comes right after one that \<open>B\<close> relates to it.\<close>

definition preceded :: "(ev \<Rightarrow> bool) \<Rightarrow> (ev \<Rightarrow> ev \<Rightarrow> bool) \<Rightarrow> trace \<Rightarrow> bool" where
  "preceded A B t \<longleftrightarrow> (\<forall>i < length t. A (t ! i) \<longrightarrow> 0 < i \<and> B (t ! i) (t ! (i - 1)))"

lemma preceded_append: "closed_append (preceded A B)"
  unfolding closed_append_def
proof (intro conjI allI impI)
  fix s t
  assume s: "preceded A B s" and t: "preceded A B t"
  show "preceded A B (s @ t)"
    unfolding preceded_def
  proof (intro allI impI)
    fix i
    assume i: "i < length (s @ t)" and acc: "A ((s @ t) ! i)"
    show "0 < i \<and> B ((s @ t) ! i) ((s @ t) ! (i - 1))"
    proof (cases "i < length s")
      case True
      with s acc show ?thesis by (auto simp: preceded_def nth_append)
    next
      case False
      then have "i - length s < length t" and "A (t ! (i - length s))"
        using i acc by (auto simp: nth_append)
      then have "0 < i - length s \<and> B (t ! (i - length s)) (t ! (i - length s - 1))"
        using t unfolding preceded_def by blast
      then show ?thesis
        by (auto simp: nth_append)
    qed
  qed
qed (simp add: preceded_def)

lemma preceded_none: "list_all (\<lambda>e. \<not> A e) t \<Longrightarrow> preceded A B t"
  by (auto simp: preceded_def list_all_length)

lemma preceded_pair: "B e p \<Longrightarrow> list_all (\<lambda>e. \<not> A e) (p # t) \<Longrightarrow> preceded A B (p # e # t)"
proof -
  assume be: "B e p" and none: "list_all (\<lambda>e. \<not> A e) (p # t)"
  have "preceded A B [p, e]"
    using be none by (auto simp: preceded_def less_Suc_eq)
  moreover have "preceded A B t"
    using none by (simp add: preceded_none)
  ultimately show ?thesis
    using preceded_append [of A B] unfolding closed_append_def by (metis append_Cons append_Nil)
qed

lemma produces_none: "emits (\<lambda>e. \<not> A e) m \<Longrightarrow> produces (preceded A B) m"
  by (erule produces_emits) (rule preceded_none)

lemma hoareI:
  "(\<And>h e h'. P h \<Longrightarrow> m h = (Inl e, h') \<Longrightarrow> E e h') \<Longrightarrow>
   (\<And>h a h'. P h \<Longrightarrow> m h = (Inr a, h') \<Longrightarrow> R a h') \<Longrightarrow> hoare P m R E"
  by (auto simp: hoare_def split: prod.splits sum.splits)

lemma hoare_ret: "(\<And>h. P h \<Longrightarrow> R a h) \<Longrightarrow> hoare P (ret a) R E"
  by (simp add: hoare_def ret_def)

lemma hoare_throw: "(\<And>h. P h \<Longrightarrow> E e h) \<Longrightarrow> hoare P (throw e) R E"
  by (simp add: hoare_def throw_def)

lemma hoareD_Inl: "hoare P m R E \<Longrightarrow> P h \<Longrightarrow> m h = (Inl e, h') \<Longrightarrow> E e h'"
  by (fastforce simp: hoare_def)

lemma hoareD_Inr: "hoare P m R E \<Longrightarrow> P h \<Longrightarrow> m h = (Inr a, h') \<Longrightarrow> R a h'"
  by (fastforce simp: hoare_def)

lemma bind_io_Inl:
  "bind_io m f h = (Inl e, h') \<longleftrightarrow>
     m h = (Inl e, h') \<or> (\<exists>a h1. m h = (Inr a, h1) \<and> f a h1 = (Inl e, h'))"
  by (auto simp: bind_io_def split: prod.splits sum.splits)

lemma bind_io_Inr:
  "bind_io m f h = (Inr b, h') \<longleftrightarrow> (\<exists>a h1. m h = (Inr a, h1) \<and> f a h1 = (Inr b, h'))"
  by (auto simp: bind_io_def split: prod.splits sum.splits)

lemma hoare_bind:
  assumes "hoare P m R E" and "\<And>a. hoare (R a) (f a) S E"
  shows "hoare P (bind_io m f) S E"
proof (rule hoareI)
  fix h e h'
  assume "P h" and "bind_io m f h = (Inl e, h')"
  then show "E e h'"
    using assms by (auto simp: bind_io_Inl dest: hoareD_Inl hoareD_Inr)
next
  fix h b h'
  assume "P h" and "bind_io m f h = (Inr b, h')"
  then show "S b h'"
    using assms by (auto simp: bind_io_Inr dest: hoareD_Inr)
qed

lemma hoare_seq: "hoare P m (\<lambda>_. R) E \<Longrightarrow> hoare R n S E \<Longrightarrow> hoare P (seq_io m n) S E"
  unfolding seq_io_def by (rule hoare_bind)

lemma hoare_call: "(\<And>h. P h \<Longrightarrow> R (f h) (h @ [e (f h)])) \<Longrightarrow> hoare P (call f e) R E"
  by (simp add: hoare_def call_def)

lemma hoare_weaken:
  "hoare P' m R' E' \<Longrightarrow> (\<And>h. P h \<Longrightarrow> P' h) \<Longrightarrow> (\<And>a h. R' a h \<Longrightarrow> R a h) \<Longrightarrow>
    (\<And>e h. E' e h \<Longrightarrow> E e h) \<Longrightarrow> hoare P m R E"
  by (rule hoareI) (blast dest: hoareD_Inl hoareD_Inr)+

section \<open>Retrying on conflicts\<close>

text \<open>
  What client-go documents of \<^verbatim>\<open>RetryOnConflict\<close>: the function is executed, and executed again
  while it fails with a conflict, a bounded number of times; the last outcome is returned.
\<close>

fun is_conflict :: "gerror \<Rightarrow> bool" where
  "is_conflict (K8sErr Conflict) = True"
| "is_conflict (Wrapf _ e) = is_conflict e"
| "is_conflict _ = False"

fun run_conflicts :: "nat \<Rightarrow> unit io \<Rightarrow> unit io" where
  "run_conflicts 0 fn = fn"
| "run_conflicts (Suc n) fn =
     (\<lambda>h. case fn h of
        (Inl e, h') \<Rightarrow> (if is_conflict e then run_conflicts n fn h' else (Inl e, h'))
      | (Inr u, h') \<Rightarrow> (Inr u, h'))"

definition retry_contract :: "(unit io \<Rightarrow> unit io) \<Rightarrow> bool" where
  "retry_contract R \<longleftrightarrow> (\<forall>fn h. \<exists>n. R fn h = run_conflicts n fn h)"

lemma retry_contract_run: "retry_contract (run_conflicts n)"
  by (auto simp: retry_contract_def)

lemma emits_run_conflicts:
  assumes "emits Q fn"
  shows "emits Q (run_conflicts n fn)"
proof (induction n)
  case (Suc n)
  show ?case
    unfolding emits_def
  proof
    fix h
    obtain r t where t: "fn h = (r, h @ t)" "list_all Q t"
      using assms unfolding emits_def by (metis prod.collapse)
    obtain u where "snd (run_conflicts n fn (h @ t)) = (h @ t) @ u" "list_all Q u"
      using Suc unfolding emits_def by blast
    with t show "\<exists>t. snd (run_conflicts (Suc n) fn h) = h @ t \<and> list_all Q t"
      by (cases r) (auto intro: exI [of _ "t @ u"])
  qed
qed (simp add: assms)

lemma produces_run_conflicts:
  assumes "closed_append Q" and "produces Q fn"
  shows "produces Q (run_conflicts n fn)"
proof (induction n)
  case (Suc n)
  show ?case
    unfolding produces_def
  proof
    fix h
    obtain r t where t: "fn h = (r, h @ t)" "Q t"
      using assms(2) unfolding produces_def by (metis prod.collapse)
    obtain u where "snd (run_conflicts n fn (h @ t)) = (h @ t) @ u" "Q u"
      using Suc unfolding produces_def by blast
    with t assms(1) show "\<exists>t. snd (run_conflicts (Suc n) fn h) = h @ t \<and> Q t"
      by (cases r) (auto simp: closed_append_def intro: exI [of _ "t @ u"])
  qed
qed (simp add: assms)

lemma emits_retry:
  "retry_contract (e_RetryOnConflict E) \<Longrightarrow> emits Q fn \<Longrightarrow> emits Q (e_RetryOnConflict E fn)"
  using emits_run_conflicts [of Q fn] unfolding emits_def retry_contract_def by metis

lemma produces_retry:
  "retry_contract (e_RetryOnConflict E) \<Longrightarrow> closed_append Q \<Longrightarrow> produces Q fn \<Longrightarrow>
    produces Q (e_RetryOnConflict E fn)"
  using produces_run_conflicts [of Q fn] unfolding produces_def retry_contract_def by metis

text \<open>A retried function that succeeds ended with a successful run of the function itself.\<close>

lemma run_conflicts_success:
  "run_conflicts n fn h = (Inr u, h') \<Longrightarrow> emits (\<lambda>_. True) fn \<Longrightarrow> \<exists>t. fn (h @ t) = (Inr u, h')"
proof (induction n arbitrary: h)
  case 0
  then show ?case by (intro exI [of _ "[]"]) simp
next
  case (Suc n)
  obtain r t where t: "fn h = (r, h @ t)"
    using Suc.prems(2) unfolding emits_def by (metis prod.collapse)
  show ?case
  proof (cases r)
    case (Inr u')
    with t Suc.prems(1) show ?thesis by (intro exI [of _ "[]"]) simp
  next
    case (Inl e)
    with t Suc.prems(1) have "run_conflicts n fn (h @ t) = (Inr u, h')"
      by (simp split: if_splits)
    then show ?thesis
      using Suc.IH Suc.prems(2) append.assoc by metis
  qed
qed

lemma retry_success:
  "retry_contract (e_RetryOnConflict E) \<Longrightarrow> emits (\<lambda>_. True) fn \<Longrightarrow>
    e_RetryOnConflict E fn h = (Inr u, h') \<Longrightarrow> \<exists>t. fn (h @ t) = (Inr u, h')"
  using run_conflicts_success unfolding retry_contract_def by metis

text \<open>A first part that stays within \<open>P\<close>: either it failed or the rest ran after it.\<close>

lemma bind_io_emitsE:
  assumes "bind_io m f h = (r, h')" and "emits P m"
  obtains (failed) e t where "r = Inl e" "m h = (Inl e, h')" "h' = h @ t" "list_all P t"
    | (went_on) a t where "m h = (Inr a, h @ t)" "list_all P t" "f a (h @ t) = (r, h')"
proof -
  obtain x t where "m h = (x, h @ t)" "list_all P t"
    using assms(2) unfolding emits_def by (metis prod.collapse)
  with assms(1) that show ?thesis
    by (cases x) (auto simp: bind_io_def)
qed

end
