(* ===== verification/Pkg_Util.thy ===== *)
theory Pkg_Util
  imports Effects
begin

text \<open>
  The small shared packages: \<^verbatim>\<open>pkg/util\<close> (which objects are managed or temporary, the watch
  conditions, the text helpers), \<^verbatim>\<open>pkg/route\<close> (admission of a Route), \<^verbatim>\<open>pkg/cert\<close> (PEM data
  of certificates and their validity) and \<^verbatim>\<open>pkg/helpers\<close> (the account key in a Secret).
\<close>

section \<open>Definitions\<close>

subsection \<open>pkg/util: managed and temporary objects\<close>

definition IsTemporary :: "ObjectMeta \<Rightarrow> bool" where
  "IsTemporary obj =
     (case mget (om_Labels obj) AcmeTemporaryLabel of
        Some v \<Rightarrow> (if v = ''true'' then True else False)
      | None \<Rightarrow> False)"

definition IsManaged :: "ObjectMeta \<Rightarrow> string \<Rightarrow> bool" where
  "IsManaged obj key =
     (case mget (om_Annotations obj) key of
        None \<Rightarrow> False
      | Some v \<Rightarrow>
          if v \<noteq> ''true'' then False
          else if IsTemporary obj then False
          else True)"

subsection \<open>pkg/util: certificates and watch conditions\<close>

definition CertificateFromPEM :: "lib \<Rightarrow> string \<Rightarrow> gerror + Certificate" where
  "CertificateFromPEM L crt =
     (case l_pemDecode L crt of
        None \<Rightarrow> Inl (Errorf ''no data found in Crt'')
      | Some block \<Rightarrow>
          (case l_ParseCertificate L block of
             None \<Rightarrow> Inl (LibErr ''x509.ParseCertificate'')
           | Some certificate \<Rightarrow> Inr certificate))"

text \<open>What an informer or a watch hands over: an object, a tombstone around one, or something else.\<close>

datatype obj =
    ObjRoute Route
  | ObjSecret Secret
  | ObjReplicaSet ReplicaSet
  | ObjConfigMap ConfigMap
  | Tombstone obj
  | ObjOther

datatype event_type = Added | Modified | Deleted | Bookmark | ErrorEvent

subsection \<open>pkg/route\<close>

definition admitted_step :: "bool \<times> bool \<Rightarrow> RouteIngressCondition \<Rightarrow> bool \<times> bool" where
  "admitted_step s condition =
     (case s of (admittedSet, admittedValue) \<Rightarrow>
        if cond_Type condition = ''Admitted''
        then (True, if cond_Status condition \<noteq> ''True'' then False else admittedValue)
        else (admittedSet, admittedValue))"

definition IsAdmitted :: "Route \<Rightarrow> bool" where
  "IsAdmitted route =
     (case foldl (\<lambda>s ingress. foldl admitted_step s (ing_Conditions ingress))
             (False, True) (rt_Ingress route)
      of (admittedSet, admittedValue) \<Rightarrow> admittedSet \<and> admittedValue)"

text \<open>A watch condition returns a flag and an error; the failed type assertion of a wrong object panics.\<close>

definition RouteAdmittedFunc :: "event_type \<times> obj \<Rightarrow> gerror + (bool \<times> gerror option)" where
  "RouteAdmittedFunc event =
     (if fst event = Added \<or> fst event = Modified
      then (case snd event of
              ObjRoute r \<Rightarrow> (if IsAdmitted r then Inr (True, None) else Inr (False, None))
            | _ \<Rightarrow> Inl (Panic ''event.Object is not a Route''))
      else Inr (True, Some (Errorf ''unexpected event'')))"

definition RouteTLSChangedFunc :: "TLSConfig option \<Rightarrow> event_type \<times> obj \<Rightarrow> gerror + (bool \<times> gerror option)" where
  "RouteTLSChangedFunc tls event =
     (if fst event = Added \<or> fst event = Modified
      then (case snd event of
              ObjRoute r \<Rightarrow> (if spec_TLS (rt_Spec r) \<noteq> tls then Inr (True, None) else Inr (False, None))
            | _ \<Rightarrow> Inl (Panic ''event.Object is not a Route''))
      else Inr (True, Some (Errorf ''unexpected event'')))"

definition SecretDataChangedFunc :: "gomap \<Rightarrow> event_type \<times> obj \<Rightarrow> gerror + (bool \<times> gerror option)" where
  "SecretDataChangedFunc data event =
     (if fst event = Added \<or> fst event = Modified
      then (case snd event of
              ObjSecret secret \<Rightarrow> (if sec_Data secret \<noteq> data then Inr (True, None) else Inr (False, None))
            | _ \<Rightarrow> Inl (Panic ''event.Object is not a Secret''))
      else Inr (True, Some (Errorf ''unexpected event'')))"

subsection \<open>pkg/util: text\<close>

definition FirstNLines :: "string \<Rightarrow> int \<Rightarrow> string" where
  "FirstNLines s n =
     (if n < 1 then []
      else let lines = SplitN (CHR 0x0A) (nat (n + 1)) s;
               c = (if int (length lines) > n then nat n else length lines)
           in Join (take c lines) [CHR 0x0A])"

definition MaxNCharacters :: "string \<Rightarrow> int \<Rightarrow> string" where
  "MaxNCharacters s n =
     (if n < 1 then []
      else if int (length s) \<le> n then s
      else take (nat n) s)"

subsection \<open>pkg/cert\<close>

record CertPemData =
  pem_Crt :: string
  pem_Key :: string

text \<open>The loop of \<^verbatim>\<open>NewCertificateFromDER\<close>: it stops at the first element that is no certificate.\<close>

fun encode_chain :: "lib \<Rightarrow> string \<Rightarrow> string list \<Rightarrow> gerror + string" where
  "encode_chain L certBuffer [] = Inr certBuffer"
| "encode_chain L certBuffer (cert # der) =
     (case l_ParseCertificate L cert of
        None \<Rightarrow> Inl (LibErr ''x509.ParseCertificate'')
      | Some _ \<Rightarrow> encode_chain L (certBuffer @ l_pemEncode L ''CERTIFICATE'' cert) der)"

definition NewCertificateFromDER :: "lib \<Rightarrow> string list \<Rightarrow> PrivateKey \<Rightarrow> gerror + CertPemData" where
  "NewCertificateFromDER L der privateKey =
     (if length der < 1 then Inl (Errorf ''can't create certificate from empty DER array'')
      else case encode_chain L [] der of
             Inl e \<Rightarrow> Inl e
           | Inr certBuffer \<Rightarrow>
               Inr \<lparr>pem_Crt = certBuffer,
                    pem_Key = l_pemEncode L ''RSA PRIVATE KEY'' (l_MarshalPKCS1PrivateKey L privateKey)\<rparr>)"

definition CertPemData_Certificate :: "lib \<Rightarrow> CertPemData \<Rightarrow> gerror + Certificate" where
  "CertPemData_Certificate L c =
     (case l_pemDecode L (pem_Crt c) of
        None \<Rightarrow> Inl (Errorf ''no data found in Crt'')
      | Some block \<Rightarrow>
          (case l_ParseCertificate L block of
             None \<Rightarrow> Inl (LibErr ''x509.ParseCertificate'')
           | Some certificate \<Rightarrow> Inr certificate))"

definition IsValid :: "Certificate \<Rightarrow> time \<Rightarrow> bool" where
  "IsValid c t = (\<not> t < crt_NotBefore c \<and> \<not> t > crt_NotAfter c)"

subsection \<open>pkg/helpers\<close>

definition TLSPrivateKeyKey :: string where
  "TLSPrivateKeyKey = ''tls.key''"

definition TLSCertKey :: string where
  "TLSCertKey = ''tls.crt''"

definition PrivateKeyFromSecret :: "lib \<Rightarrow> Secret \<Rightarrow> gerror + PrivateKey" where
  "PrivateKeyFromSecret L secret =
     (case mget (sec_Data secret) TLSPrivateKeyKey of
        None \<Rightarrow> Inl (Errorf ''secret is missing key'')
      | Some keyPem \<Rightarrow>
          (case l_pemDecode L keyPem of
             None \<Rightarrow> Inl (Errorf ''secret has invalid PEM encoded private key'')
           | Some block \<Rightarrow>
               (case l_ParsePKCS1PrivateKey L block of
                  None \<Rightarrow> Inl (LibErr ''x509.ParsePKCS1PrivateKey'')
                | Some privateKey \<Rightarrow> Inr privateKey)))"

section \<open>Lemmas\<close>

subsection \<open>Managed objects and admission\<close>

lemma IsTemporary_iff: "IsTemporary m \<longleftrightarrow> mget (om_Labels m) AcmeTemporaryLabel = Some ''true''"
  by (simp add: IsTemporary_def split: option.splits)

lemma IsManaged_iff:
  "IsManaged m key \<longleftrightarrow>
     mget (om_Annotations m) key = Some ''true'' \<and> mget (om_Labels m) AcmeTemporaryLabel \<noteq> Some ''true''"
  by (simp add: IsManaged_def IsTemporary_iff split: option.splits)

definition admitted_conditions :: "Route \<Rightarrow> RouteIngressCondition list" where
  "admitted_conditions r =
     filter (\<lambda>c. cond_Type c = ''Admitted'') (concat (map ing_Conditions (rt_Ingress r)))"

lemma foldl_admitted_step:
  "foldl admitted_step (a, v) cs =
     (a \<or> (\<exists>c \<in> set cs. cond_Type c = ''Admitted''),
      v \<and> (\<forall>c \<in> set cs. cond_Type c = ''Admitted'' \<longrightarrow> cond_Status c = ''True''))"
  by (induction cs arbitrary: a v) (auto simp: admitted_step_def)

lemma foldl_concat: "foldl (\<lambda>s x. foldl f s (g x)) s xs = foldl f s (concat (map g xs))"
  by (induction xs arbitrary: s) auto

lemma IsAdmitted_iff:
  "IsAdmitted r \<longleftrightarrow>
     admitted_conditions r \<noteq> [] \<and> (\<forall>c \<in> set (admitted_conditions r). cond_Status c = ''True'')"
  by (auto simp: IsAdmitted_def foldl_concat foldl_admitted_step admitted_conditions_def
      filter_empty_conv)

subsection \<open>Text\<close>

lemma FirstNLines_prefix: "prefix (FirstNLines s n) s"
proof (cases "n < 1")
  case True
  then show ?thesis by (simp add: FirstNLines_def)
next
  case False
  then have "Join (SplitN (CHR 0x0A) (nat (n + 1)) s) [CHR 0x0A] = s"
    by (simp add: Join_SplitN)
  with False show ?thesis
    using Join_take_prefix [of _ "SplitN (CHR 0x0A) (nat (n + 1)) s" "[CHR 0x0A]"]
    by (simp add: FirstNLines_def Let_def)
qed

lemma take_SplitN_no_sep:
  assumes "k < n" and "p \<in> set (take k (SplitN c n s))"
  shows "c \<notin> set p \<or> length (SplitN c n s) \<le> k"
proof (cases "length (SplitN c n s) \<le> k")
  case False
  then have "take k (SplitN c n s) = take k (butlast (SplitN c n s))"
    by (simp add: take_butlast)
  with assms(2) have "p \<in> set (butlast (SplitN c n s))"
    by (metis in_set_takeD)
  then show ?thesis by (simp add: SplitN_butlast_no_sep)
qed simp

lemma SplitN_short_no_sep: "length (SplitN c n s) < n \<Longrightarrow> p \<in> set (SplitN c n s) \<Longrightarrow> c \<notin> set p"
  by (induction c n s rule: SplitN.induct) (auto split: if_splits dest: set_takeWhileD)

lemma FirstNLines_lines:
  assumes "1 \<le> n"
  shows "int (count_list (FirstNLines s n) (CHR 0x0A)) < n"
proof -
  define lines where "lines = SplitN (CHR 0x0A) (nat (n + 1)) s"
  define c where "c = (if int (length lines) > n then nat n else length lines)"
  have len: "length lines \<le> nat (n + 1)"
    unfolding lines_def by (rule length_SplitN)
  have "\<forall>p \<in> set (take c lines). CHR 0x0A \<notin> set p"
  proof (cases "int (length lines) > n")
    case True
    with assms show ?thesis
      using take_SplitN_no_sep [of "nat n" "nat (n + 1)" _ "CHR 0x0A" s]
      unfolding c_def lines_def by fastforce
  next
    case False
    with assms show ?thesis
      using SplitN_short_no_sep [of "CHR 0x0A" "nat (n + 1)" s]
      unfolding c_def lines_def by fastforce
  qed
  then have "count_list (Join (take c lines) [CHR 0x0A]) (CHR 0x0A) = length (take c lines) - 1"
    by (rule count_Join)
  moreover have "length (take c lines) \<le> nat n"
    by (simp add: c_def) linarith
  moreover have "FirstNLines s n = Join (take c lines) [CHR 0x0A]"
    using assms by (simp add: FirstNLines_def Let_def lines_def [symmetric] c_def [symmetric])
  ultimately show ?thesis
    using assms by simp
qed

lemma MaxNCharacters_prefix: "prefix (MaxNCharacters s n) s"
  by (simp add: MaxNCharacters_def take_is_prefix)

lemma MaxNCharacters_length: "int (length (MaxNCharacters s n)) \<le> max 0 n"
  by (simp add: MaxNCharacters_def)

subsection \<open>Certificates and keys\<close>

text \<open>
  The documented behaviour of \<^verbatim>\<open>encoding/pem\<close>, \<^verbatim>\<open>crypto/x509\<close>: decoding finds the first block
  of an encoded text and returns its bytes, and PKCS 1 parsing inverts marshalling.
\<close>

definition pem_roundtrip :: "lib \<Rightarrow> bool" where
  "pem_roundtrip L \<longleftrightarrow> (\<forall>t b rest. l_pemDecode L (l_pemEncode L t b @ rest) = Some b)"

definition pkcs1_roundtrip :: "lib \<Rightarrow> bool" where
  "pkcs1_roundtrip L \<longleftrightarrow> (\<forall>k. l_ParsePKCS1PrivateKey L (l_MarshalPKCS1PrivateKey L k) = Some k)"

lemma encode_chain_Inr:
  "encode_chain L buf der = Inr out \<Longrightarrow>
     out = buf @ concat (map (l_pemEncode L ''CERTIFICATE'') der) \<and>
     (\<forall>c \<in> set der. l_ParseCertificate L c \<noteq> None)"
  by (induction L buf der rule: encode_chain.induct) (auto split: option.splits)

lemma encode_chain_Inl:
  "encode_chain L buf der = Inl e \<Longrightarrow> \<exists>c \<in> set der. l_ParseCertificate L c = None"
  by (induction L buf der rule: encode_chain.induct) (auto split: option.splits)

lemma NewCertificateFromDER_Certificate:
  assumes "pem_roundtrip L" and "NewCertificateFromDER L (leaf # chain) key = Inr data"
  shows "\<exists>c. l_ParseCertificate L leaf = Some c \<and> CertPemData_Certificate L data = Inr c"
proof -
  from assms(2) obtain buf where "encode_chain L [] (leaf # chain) = Inr buf"
    and data: "pem_Crt data = buf"
    by (auto simp: NewCertificateFromDER_def split: sum.splits)
  then have "buf = l_pemEncode L ''CERTIFICATE'' leaf @ concat (map (l_pemEncode L ''CERTIFICATE'') chain)"
    and "l_ParseCertificate L leaf \<noteq> None"
    by (auto dest: encode_chain_Inr split: option.splits)
  with assms(1) data show ?thesis
    by (auto simp: CertPemData_Certificate_def pem_roundtrip_def)
qed

lemma PrivateKeyFromSecret_roundtrip:
  assumes "pem_roundtrip L" and "pkcs1_roundtrip L"
    and "mget (sec_Data s) TLSPrivateKeyKey = Some (l_pemEncode L t (l_MarshalPKCS1PrivateKey L key))"
  shows "PrivateKeyFromSecret L s = Inr key"
proof -
  have "l_pemDecode L (l_pemEncode L t (l_MarshalPKCS1PrivateKey L key) @ []) =
      Some (l_MarshalPKCS1PrivateKey L key)"
    using assms(1) unfolding pem_roundtrip_def by blast
  with assms(2,3) show ?thesis
    by (simp add: PrivateKeyFromSecret_def pkcs1_roundtrip_def)
qed

end
