(* ===== verification/Fixture.thy ===== *)
theory Fixture
  imports Pkg_Util
begin

text \<open>
  Concrete surroundings for the witnesses: a \<open>lib\<close> whose functions are small executable ones with
  the documented behaviour of the originals (a self-delimiting text encoding in place of PEM, one
  shared key space, comparison of quantities by value), and an \<open>env\<close> in which no object exists
  and no server answers; a witness updates the fields it needs.
\<close>

definition fx_pemEncode :: "string \<Rightarrow> string \<Rightarrow> string" where
  "fx_pemEncode t b = replicate (length b) CHR ''1'' @ CHR ''0'' # b"

definition fx_pemDecode :: "string \<Rightarrow> string option" where
  "fx_pemDecode s =
     (if CHR ''0'' \<in> set s
      then Some (take (length (takeWhile (\<lambda>c. c \<noteq> CHR ''0'') s)) (tl (dropWhile (\<lambda>c. c \<noteq> CHR ''0'') s)))
      else None)"

definition fx_GetControllerOf :: "ObjectMeta \<Rightarrow> OwnerReference option" where
  "fx_GetControllerOf m = find (\<lambda>r. or_Controller r = Some True) (om_OwnerReferences m)"

definition fx_lib :: lib where
  "fx_lib =
     \<lparr>l_SplitMetaNamespaceKey =
        (\<lambda>k. let (ns, name, found) = Cut CHR ''/'' k in if found then Some (ns, name) else Some ([], k)),
      l_KeyFunc = (\<lambda>m. Some (om_Namespace m @ ''/'' @ om_Name m)),
      l_GetControllerOf = fx_GetControllerOf,
      l_IsControlledBy = (\<lambda>m owner. case fx_GetControllerOf m of
          None \<Rightarrow> False | Some r \<Rightarrow> or_UID r = om_UID owner),
      l_RouteGroupVersion = ''route.openshift.io/v1'',
      l_yamlMarshalStatus = (\<lambda>s. Some (ps_OrderStatus (st_ProvisioningStatus s))),
      l_yamlUnmarshalStatus = (\<lambda>s. Some (zero_Status\<lparr>st_ProvisioningStatus :=
          (st_ProvisioningStatus zero_Status)\<lparr>ps_OrderStatus := s, ps_OrderURI := s\<rparr>\<rparr>)),
      l_jsonMarshalStatus = (\<lambda>s. Some (''{'' @ ps_OrderStatus (st_ProvisioningStatus s) @ ''}'')),
      l_yamlMarshalCertIssuer = (\<lambda>c. Some (ci_SecretName c)),
      l_yamlUnmarshalCertIssuer = (\<lambda>s. Some \<lparr>ci_SecretName = s, ci_Type = ''ACME'',
          ci_AcmeCertIssuer = Some \<lparr>ac_DirectoryURL = ''https://acme/directory'',
            ac_Account = \<lparr>aa_Contacts = [], aa_Status = \<lparr>as_Hash = [], as_URI = [],
              as_AccountStatus = [], as_OrdersURL = []\<rparr>\<rparr>\<rparr>\<rparr>),
      l_sha256 = (\<lambda>s. replicate 32 (of_nat (length s))),
      l_sha512 = (\<lambda>s. replicate 64 (of_nat (length s))),
      l_pemDecode = fx_pemDecode,
      l_pemEncode = fx_pemEncode,
      l_ParseCertificate = (\<lambda>s. if s = [] then None
          else Some \<lparr>crt_Raw = s, crt_NotBefore = 0, crt_NotAfter = 90\<rparr>),
      l_VerifyHostname = (\<lambda>c host. host \<noteq> []),
      l_ParsePKCS1PrivateKey = Some,
      l_MarshalPKCS1PrivateKey = (\<lambda>k. k),
      l_regexpCompile = (\<lambda>re. Some (\<lambda>s. s = re)),
      l_HTTP01ChallengePath = (\<lambda>t. ''/.well-known/acme-challenge/'' @ t),
      l_HTTP01ChallengeResponse = (\<lambda>k t. Some (t @ ''.'' @ k)),
      l_qCmp = (\<lambda>a b. sgn (q_nano a - q_nano b)),
      l_qMilliValue = (\<lambda>q. - (- q_nano q div 10 ^ 6)),
      l_NewMilliQuantity = (\<lambda>v. Quantity (v * 10 ^ 6)),
      l_NewQuantity = (\<lambda>v. Quantity (v * 10 ^ 9)),
      l_NewScaledQuantityMilli = (\<lambda>v. Quantity (v * 10 ^ 6)),
      l_pdqsort = (\<lambda>lt xs. xs)\<rparr>"

lemma fx_lib_sel [simp]:
  "l_SplitMetaNamespaceKey fx_lib = (\<lambda>k. let (ns, name, found) = Cut CHR ''/'' k in if found then Some (ns, name) else Some ([], k))"
  "l_KeyFunc fx_lib = (\<lambda>m. Some (om_Namespace m @ ''/'' @ om_Name m))"
  "l_GetControllerOf fx_lib = fx_GetControllerOf"
  "l_IsControlledBy fx_lib = (\<lambda>m owner. case fx_GetControllerOf m of None \<Rightarrow> False | Some r \<Rightarrow> or_UID r = om_UID owner)"
  "l_RouteGroupVersion fx_lib = ''route.openshift.io/v1''"
  "l_yamlMarshalStatus fx_lib = (\<lambda>s. Some (ps_OrderStatus (st_ProvisioningStatus s)))"
  "l_yamlUnmarshalStatus fx_lib = (\<lambda>s. Some (zero_Status\<lparr>st_ProvisioningStatus := (st_ProvisioningStatus zero_Status)\<lparr>ps_OrderStatus := s, ps_OrderURI := s\<rparr>\<rparr>))"
  "l_jsonMarshalStatus fx_lib = (\<lambda>s. Some (''{'' @ ps_OrderStatus (st_ProvisioningStatus s) @ ''}''))"
  "l_yamlMarshalCertIssuer fx_lib = (\<lambda>c. Some (ci_SecretName c))"
  "l_yamlUnmarshalCertIssuer fx_lib = (\<lambda>s. Some \<lparr>ci_SecretName = s, ci_Type = ''ACME'', ci_AcmeCertIssuer = Some \<lparr>ac_DirectoryURL = ''https://acme/directory'', ac_Account = \<lparr>aa_Contacts = [], aa_Status = \<lparr>as_Hash = [], as_URI = [], as_AccountStatus = [], as_OrdersURL = []\<rparr>\<rparr>\<rparr>\<rparr>)"
  "l_sha256 fx_lib = (\<lambda>s. replicate 32 (of_nat (length s)))"
  "l_sha512 fx_lib = (\<lambda>s. replicate 64 (of_nat (length s)))"
  "l_pemDecode fx_lib = fx_pemDecode"
  "l_pemEncode fx_lib = fx_pemEncode"
  "l_ParseCertificate fx_lib = (\<lambda>s. if s = [] then None else Some \<lparr>crt_Raw = s, crt_NotBefore = 0, crt_NotAfter = 90\<rparr>)"
  "l_VerifyHostname fx_lib = (\<lambda>c host. host \<noteq> [])"
  "l_ParsePKCS1PrivateKey fx_lib = Some"
  "l_MarshalPKCS1PrivateKey fx_lib = (\<lambda>k. k)"
  "l_regexpCompile fx_lib = (\<lambda>re. Some (\<lambda>s. s = re))"
  "l_HTTP01ChallengePath fx_lib = (\<lambda>t. ''/.well-known/acme-challenge/'' @ t)"
  "l_HTTP01ChallengeResponse fx_lib = (\<lambda>k t. Some (t @ ''.'' @ k))"
  "l_qCmp fx_lib = (\<lambda>a b. sgn (q_nano a - q_nano b))"
  "l_qMilliValue fx_lib = (\<lambda>q. - (- q_nano q div 10 ^ 6))"
  "l_NewMilliQuantity fx_lib = (\<lambda>v. Quantity (v * 10 ^ 6))"
  "l_NewQuantity fx_lib = (\<lambda>v. Quantity (v * 10 ^ 9))"
  "l_NewScaledQuantityMilli fx_lib = (\<lambda>v. Quantity (v * 10 ^ 6))"
  "l_pdqsort fx_lib = (\<lambda>lt xs. xs)"
  by (simp_all add: fx_lib_def)

lemma fx_pem_roundtrip: "pem_roundtrip fx_lib"
  by (simp add: pem_roundtrip_def fx_pemDecode_def fx_pemEncode_def takeWhile_append
      dropWhile_append)

lemma fx_pkcs1_roundtrip: "pkcs1_roundtrip fx_lib"
  by (simp add: pkcs1_roundtrip_def)

definition fx_env :: env where
  "fx_env =
     \<lparr>e_Now = (\<lambda>h. 60),
      e_routeByKey = (\<lambda>h f k. Inr None),
      e_routeGet = (\<lambda>h f ns n. Inl NotFound),
      e_secretByKey = (\<lambda>h f k. Inr None),
      e_secretGet = (\<lambda>h f ns n. Inl NotFound),
      e_replicaSetGet = (\<lambda>h f ns n. Inl NotFound),
      e_serviceGet = (\<lambda>h f ns n. Inl NotFound),
      e_configMapByKey = (\<lambda>h f k. Inr None),
      e_configMapGet = (\<lambda>h f ns n. Inl NotFound),
      e_configMapList = (\<lambda>h f ns. Inr []),
      e_limitRangeList = (\<lambda>h f ns. Inr []),
      e_queueGet = (\<lambda>h q. None),
      e_apiRoutePatch = (\<lambda>h ns n kv. Inl NotFound),
      e_apiRouteGet = (\<lambda>h ns n. Inl NotFound),
      e_apiRouteCreate = (\<lambda>h ns r. Inr r),
      e_apiRouteUpdate = (\<lambda>h ns r. Inr r),
      e_apiRouteDeleteCollection = (\<lambda>h ns l. Inr ()),
      e_apiSecretCreate = (\<lambda>h ns s. Inr s),
      e_apiSecretUpdate = (\<lambda>h ns s. Inr s),
      e_apiReplicaSetCreate = (\<lambda>h ns r. Inr r),
      e_apiServiceCreate = (\<lambda>h ns s. Inr s),
      e_apiConfigMapUpdate = (\<lambda>h ns c. Inr c),
      e_AuthorizeOrder = (\<lambda>h c d. Inl (AcmeTransport [])),
      e_GetOrder = (\<lambda>h c u. Inl (AcmeTransport [])),
      e_GetAuthorization = (\<lambda>h c u. Inl (AcmeTransport [])),
      e_Accept = (\<lambda>h c ch. Inl (AcmeTransport [])),
      e_CreateOrderCert = (\<lambda>h c u k. Inl (AcmeTransport [])),
      e_Register = (\<lambda>h c cs. Inl (AcmeTransport [])),
      e_UpdateReg = (\<lambda>h c a. Inl (AcmeTransport [])),
      e_GetReg = (\<lambda>h c. Inl (AcmeTransport [])),
      e_httpGet = (\<lambda>h u. Inl (LibErr [])),
      e_generateKey = (\<lambda>h n. Some ''key''),
      e_createCSR = (\<lambda>h host k. True),
      e_RetryOnConflict = run_conflicts 4\<rparr>"

lemma fx_env_sel [simp]:
  "e_Now fx_env = (\<lambda>h. 60)"
  "e_routeByKey fx_env = (\<lambda>h f k. Inr None)"
  "e_routeGet fx_env = (\<lambda>h f ns n. Inl NotFound)"
  "e_secretByKey fx_env = (\<lambda>h f k. Inr None)"
  "e_secretGet fx_env = (\<lambda>h f ns n. Inl NotFound)"
  "e_replicaSetGet fx_env = (\<lambda>h f ns n. Inl NotFound)"
  "e_serviceGet fx_env = (\<lambda>h f ns n. Inl NotFound)"
  "e_configMapByKey fx_env = (\<lambda>h f k. Inr None)"
  "e_configMapGet fx_env = (\<lambda>h f ns n. Inl NotFound)"
  "e_configMapList fx_env = (\<lambda>h f ns. Inr [])"
  "e_limitRangeList fx_env = (\<lambda>h f ns. Inr [])"
  "e_queueGet fx_env = (\<lambda>h q. None)"
  "e_apiRoutePatch fx_env = (\<lambda>h ns n kv. Inl NotFound)"
  "e_apiRouteGet fx_env = (\<lambda>h ns n. Inl NotFound)"
  "e_apiRouteCreate fx_env = (\<lambda>h ns r. Inr r)"
  "e_apiRouteUpdate fx_env = (\<lambda>h ns r. Inr r)"
  "e_apiRouteDeleteCollection fx_env = (\<lambda>h ns l. Inr ())"
  "e_apiSecretCreate fx_env = (\<lambda>h ns s. Inr s)"
  "e_apiSecretUpdate fx_env = (\<lambda>h ns s. Inr s)"
  "e_apiReplicaSetCreate fx_env = (\<lambda>h ns r. Inr r)"
  "e_apiServiceCreate fx_env = (\<lambda>h ns s. Inr s)"
  "e_apiConfigMapUpdate fx_env = (\<lambda>h ns c. Inr c)"
  "e_AuthorizeOrder fx_env = (\<lambda>h c d. Inl (AcmeTransport []))"
  "e_GetOrder fx_env = (\<lambda>h c u. Inl (AcmeTransport []))"
  "e_GetAuthorization fx_env = (\<lambda>h c u. Inl (AcmeTransport []))"
  "e_Accept fx_env = (\<lambda>h c ch. Inl (AcmeTransport []))"
  "e_CreateOrderCert fx_env = (\<lambda>h c u k. Inl (AcmeTransport []))"
  "e_Register fx_env = (\<lambda>h c cs. Inl (AcmeTransport []))"
  "e_UpdateReg fx_env = (\<lambda>h c a. Inl (AcmeTransport []))"
  "e_GetReg fx_env = (\<lambda>h c. Inl (AcmeTransport []))"
  "e_httpGet fx_env = (\<lambda>h u. Inl (LibErr []))"
  "e_generateKey fx_env = (\<lambda>h n. Some ''key'')"
  "e_createCSR fx_env = (\<lambda>h host k. True)"
  "e_RetryOnConflict fx_env = run_conflicts 4"
  by (simp_all add: fx_env_def)

definition fx_meta :: "string \<Rightarrow> ObjectMeta" where
  "fx_meta name =
     \<lparr>om_Name = name, om_Namespace = ''ns'', om_UID = name, om_ResourceVersion = ''1'',
      om_Generation = 1, om_CreationTimestamp = 0, om_DeletionTimestamp = None,
      om_Annotations = Some [''kubernetes.io/tls-acme'' \<mapsto> ''true''], om_Labels = None,
      om_OwnerReferences = []\<rparr>"

definition fx_tls :: TLSConfig where
  "fx_tls = \<lparr>tls_Termination = ''edge'', tls_Certificate = ''1110crt'', tls_Key = ''1110key'',
     tls_CACertificate = [], tls_DestinationCACertificate = [],
     tls_InsecureEdgeTerminationPolicy = ''Redirect''\<rparr>"

definition fx_route :: Route where
  "fx_route =
     \<lparr>rt_Meta = fx_meta ''web'',
      rt_Spec = \<lparr>spec_Host = ''example.com'', spec_Path = [],
        spec_To = \<lparr>to_Kind = ''Service'', to_Name = ''web'', to_Weight = None\<rparr>,
        spec_Port = None, spec_TLS = Some fx_tls\<rparr>,
      rt_Ingress = [\<lparr>ing_Conditions = [\<lparr>cond_Type = ''Admitted'', cond_Status = ''True''\<rparr>]\<rparr>]\<rparr>"

definition fx_certificate :: Certificate where
  "fx_certificate = \<lparr>crt_Raw = ''crt'', crt_NotBefore = 0, crt_NotAfter = 90\<rparr>"

lemma fx_certificate_decodes:
  "CertPemData_Certificate fx_lib \<lparr>pem_Crt = ''1110crt'', pem_Key = ''1110key''\<rparr> = Inr fx_certificate"
  by (simp add: CertPemData_Certificate_def fx_pemDecode_def fx_certificate_def)

lemmas fx_defs = fx_meta_def fx_tls_def fx_route_def

end
