(* ===== verification/Informers.thy ===== *)
theory Informers
  imports Fixture
begin

text \<open>
  \<^verbatim>\<open>pkg/machinery/informers/kube\<close> and \<^verbatim>\<open>pkg/machinery/informers/route\<close>: one informer factory per
  watched namespace, looked up by namespace with the cluster-wide factory (\<^verbatim>\<open>metav1.NamespaceAll\<close>, the
  empty name) as the fallback. A factory is identified by what it was created with; a missing
  factory is \<open>None\<close>, and using it is a nil pointer panic. The common contract of the two
  packages is the locale \<open>informer_map\<close>.
\<close>

section \<open>Definitions\<close>

record factory =
  fac_Namespace :: string
  fac_Resync :: duration

type_synonym informers = "string \<rightharpoonup> factory"

definition NamespaceAll :: string where
  "NamespaceAll = []"

subsection \<open>Package kube\<close>

definition NewKubeInformersForNamespaces :: "string list \<Rightarrow> informers" where
  "NewKubeInformersForNamespaces namespaces =
     foldl (\<lambda>res namespace. res(namespace \<mapsto> \<lparr>fac_Namespace = namespace, fac_Resync = 0\<rparr>))
       Map.empty namespaces"

definition kube_Start :: "informers \<Rightarrow> factory set" where
  "kube_Start i = ran i"

definition kube_Namespaces :: "informers \<Rightarrow> string set" where
  "kube_Namespaces i = dom i"

definition kube_InformersFor :: "informers \<Rightarrow> string \<Rightarrow> factory option" where
  "kube_InformersFor i namespace = i namespace"

definition kube_InformersForOrGlobal :: "informers \<Rightarrow> string \<Rightarrow> factory option" where
  "kube_InformersForOrGlobal i namespace =
     (case i namespace of None \<Rightarrow> i NamespaceAll | Some informer \<Rightarrow> Some informer)"

definition kube_HasInformersFor :: "informers \<Rightarrow> string \<Rightarrow> bool" where
  "kube_HasInformersFor i namespace = (kube_InformersFor i namespace \<noteq> None)"

subsection \<open>Package route\<close>

definition DefaultResyncPeriod :: duration where
  "DefaultResyncPeriod = 12 * 3600 * 10 ^ 9"

definition NewRouteInformersForNamespaces :: "string list \<Rightarrow> informers" where
  "NewRouteInformersForNamespaces namespaces =
     foldl (\<lambda>res namespace. res(namespace \<mapsto> \<lparr>fac_Namespace = namespace, fac_Resync = DefaultResyncPeriod\<rparr>))
       Map.empty namespaces"

definition route_Start :: "informers \<Rightarrow> factory set" where
  "route_Start i = ran i"

definition route_Namespaces :: "informers \<Rightarrow> string set" where
  "route_Namespaces i = dom i"

definition route_InformersFor :: "informers \<Rightarrow> string \<Rightarrow> factory option" where
  "route_InformersFor i namespace = i namespace"

definition route_InformersForOrGlobal :: "informers \<Rightarrow> string \<Rightarrow> factory option" where
  "route_InformersForOrGlobal i namespace =
     (case i namespace of None \<Rightarrow> i NamespaceAll | Some informer \<Rightarrow> Some informer)"

definition route_HasInformersFor :: "informers \<Rightarrow> string \<Rightarrow> bool" where
  "route_HasInformersFor i namespace = (route_InformersFor i namespace \<noteq> None)"

section \<open>The contract\<close>

locale informer_map =
  fixes New :: "string list \<Rightarrow> 'i"
    and Namespaces :: "'i \<Rightarrow> string set"
    and For :: "'i \<Rightarrow> string \<Rightarrow> 'f option"
    and ForOrGlobal :: "'i \<Rightarrow> string \<Rightarrow> 'f option"
    and scope :: "'f \<Rightarrow> string"
  assumes For_New: "map_option scope (For (New nss) ns) = (if ns \<in> set nss then Some ns else None)"
    and Namespaces_For: "ns \<in> Namespaces i \<longleftrightarrow> For i ns \<noteq> None"
    and ForOrGlobal_For: "ForOrGlobal i ns = (case For i ns of None \<Rightarrow> For i NamespaceAll | Some f \<Rightarrow> Some f)"
begin

lemma Namespaces_New: "Namespaces (New nss) = set nss"
proof -
  have "For (New nss) ns \<noteq> None \<longleftrightarrow> ns \<in> set nss" for ns
    using For_New [of nss ns] by (cases "For (New nss) ns") (auto split: if_splits)
  then show ?thesis
    using Namespaces_For [of _ "New nss"] by blast
qed

text \<open>A lookup never yields a nil factory for a watched namespace or in a cluster-wide set-up,
  and the factory it yields sees the objects of the namespace.\<close>

lemma ForOrGlobal_New:
  "map_option scope (ForOrGlobal (New nss) ns) =
     (if ns \<in> set nss then Some ns else if NamespaceAll \<in> set nss then Some NamespaceAll else None)"
  using For_New [of nss ns] For_New [of nss NamespaceAll]
  by (auto simp: ForOrGlobal_For split: option.splits if_splits)

lemma ForOrGlobal_not_nil:
  assumes "ns \<in> set nss \<or> NamespaceAll \<in> set nss"
  shows "\<exists>f. ForOrGlobal (New nss) ns = Some f \<and> (scope f = ns \<or> scope f = NamespaceAll)"
proof (cases "ForOrGlobal (New nss) ns")
  case None
  with ForOrGlobal_New [of nss ns] assms show ?thesis by (simp split: if_splits)
next
  case (Some f)
  with ForOrGlobal_New [of nss ns] show ?thesis by (auto split: if_splits)
qed

lemma ForOrGlobal_nil_iff:
  "ForOrGlobal (New nss) ns = None \<longleftrightarrow> ns \<notin> set nss \<and> NamespaceAll \<notin> set nss"
  using ForOrGlobal_New [of nss ns] by (cases "ForOrGlobal (New nss) ns") (auto split: if_splits)

end

lemma foldl_factories:
  "foldl (\<lambda>res ns. res(ns \<mapsto> mk ns)) m nss ns = (if ns \<in> set nss then Some (mk ns) else m ns)"
  by (induction nss arbitrary: m) (auto simp: fun_upd_def)

interpretation kube: informer_map NewKubeInformersForNamespaces kube_Namespaces kube_InformersFor
  kube_InformersForOrGlobal fac_Namespace
  by unfold_locales
    (auto simp: NewKubeInformersForNamespaces_def kube_Namespaces_def kube_InformersFor_def
      kube_InformersForOrGlobal_def foldl_factories split: option.splits)

interpretation route: informer_map NewRouteInformersForNamespaces route_Namespaces route_InformersFor
  route_InformersForOrGlobal fac_Namespace
  by unfold_locales
    (auto simp: NewRouteInformersForNamespaces_def route_Namespaces_def route_InformersFor_def
      route_InformersForOrGlobal_def foldl_factories split: option.splits)

section \<open>Reading the caches\<close>

text \<open>
  The expressions by which the controllers read an informer: \<^verbatim>\<open>Indexer().GetByKey\<close>, \<^verbatim>\<open>Lister().Get\<close>
  and \<^verbatim>\<open>Lister().List\<close> of the factory for a namespace. Each read is an event; a nil
  factory is a panic.
\<close>

definition nil_factory :: gerror where
  "nil_factory = Panic ''nil informer factory''"

definition read_cache ::
  "factory option \<Rightarrow> (trace \<Rightarrow> string \<Rightarrow> 'r) \<Rightarrow> ev \<Rightarrow> ('r \<Rightarrow> 'a io) \<Rightarrow> 'a io" where
  "read_cache fo ask e k =
     (case fo of
        None \<Rightarrow> throw nil_factory
      | Some f \<Rightarrow> bind_io (call (\<lambda>h. ask h (fac_Namespace f)) (\<lambda>_. e)) k)"

definition routeByKey :: "env \<Rightarrow> informers \<Rightarrow> string \<Rightarrow> string \<Rightarrow> Route option io" where
  "routeByKey E i ns key = read_cache (route_InformersForOrGlobal i ns)
     (\<lambda>h f. e_routeByKey E h f key) (CacheRead ''routes'' ns key) (of_sum (\<lambda>e. e))"

definition routeLister :: "env \<Rightarrow> informers \<Rightarrow> string \<Rightarrow> string \<Rightarrow> Route io" where
  "routeLister E i ns name = read_cache (route_InformersForOrGlobal i ns)
     (\<lambda>h f. e_routeGet E h f ns name) (CacheRead ''routes'' ns name) (of_sum K8sErr)"

definition secretByKey :: "env \<Rightarrow> informers \<Rightarrow> string \<Rightarrow> string \<Rightarrow> Secret option io" where
  "secretByKey E i ns key = read_cache (kube_InformersForOrGlobal i ns)
     (\<lambda>h f. e_secretByKey E h f key) (CacheRead ''secrets'' ns key) (of_sum (\<lambda>e. e))"

definition secretLister :: "env \<Rightarrow> informers \<Rightarrow> string \<Rightarrow> string \<Rightarrow> Secret io" where
  "secretLister E i ns name = read_cache (kube_InformersForOrGlobal i ns)
     (\<lambda>h f. e_secretGet E h f ns name) (CacheRead ''secrets'' ns name) (of_sum K8sErr)"

definition replicaSetLister :: "env \<Rightarrow> informers \<Rightarrow> string \<Rightarrow> string \<Rightarrow> ReplicaSet io" where
  "replicaSetLister E i ns name = read_cache (kube_InformersForOrGlobal i ns)
     (\<lambda>h f. e_replicaSetGet E h f ns name) (CacheRead ''replicasets'' ns name) (of_sum K8sErr)"

definition serviceLister :: "env \<Rightarrow> informers \<Rightarrow> string \<Rightarrow> string \<Rightarrow> Service io" where
  "serviceLister E i ns name = read_cache (kube_InformersForOrGlobal i ns)
     (\<lambda>h f. e_serviceGet E h f ns name) (CacheRead ''services'' ns name) (of_sum K8sErr)"

definition configMapByKey :: "env \<Rightarrow> informers \<Rightarrow> string \<Rightarrow> string \<Rightarrow> ConfigMap option io" where
  "configMapByKey E i ns key = read_cache (kube_InformersForOrGlobal i ns)
     (\<lambda>h f. e_configMapByKey E h f key) (CacheRead ''configmaps'' ns key) (of_sum (\<lambda>e. e))"

definition configMapLister :: "env \<Rightarrow> informers \<Rightarrow> string \<Rightarrow> string \<Rightarrow> ConfigMap io" where
  "configMapLister E i ns name = read_cache (kube_InformersForOrGlobal i ns)
     (\<lambda>h f. e_configMapGet E h f ns name) (CacheRead ''configmaps'' ns name) (of_sum K8sErr)"

text \<open>\<^verbatim>\<open>List(api.AccountLabelSet.AsSelector())\<close> and \<^verbatim>\<open>List(labels.Everything())\<close>.\<close>

definition issuerConfigMaps :: "env \<Rightarrow> informers \<Rightarrow> string \<Rightarrow> ConfigMap list io" where
  "issuerConfigMaps E i ns = read_cache (kube_InformersForOrGlobal i ns)
     (\<lambda>h f. e_configMapList E h f ns) (CacheList ''configmaps'' ns) (of_sum (\<lambda>e. e))"

definition limitRangeLister :: "env \<Rightarrow> informers \<Rightarrow> string \<Rightarrow> LimitRange list io" where
  "limitRangeLister E i ns = read_cache (kube_InformersForOrGlobal i ns)
     (\<lambda>h f. e_limitRangeList E h f ns) (CacheList ''limitranges'' ns) (of_sum (\<lambda>e. e))"

lemmas cache_defs = routeByKey_def routeLister_def secretByKey_def secretLister_def
  replicaSetLister_def serviceLister_def configMapByKey_def configMapLister_def
  issuerConfigMaps_def limitRangeLister_def

fun is_read :: "ev \<Rightarrow> bool" where
  "is_read (CacheRead _ _ _) = True"
| "is_read (CacheList _ _) = True"
| "is_read _ = False"

lemma emits_read_cache: "Q e \<Longrightarrow> (\<And>r. emits Q (k r)) \<Longrightarrow> emits Q (read_cache fo ask e k)"
  by (cases fo) (simp_all add: read_cache_def emits_throw emits_bind emits_call)

lemma emits_cache [io_intro]:
  assumes "\<And>e. is_read e \<Longrightarrow> Q e"
  shows "emits Q (routeByKey E i ns key)" "emits Q (routeLister E i ns name)"
    "emits Q (secretByKey E i ns key)" "emits Q (secretLister E i ns name)"
    "emits Q (replicaSetLister E i ns name)" "emits Q (serviceLister E i ns name)"
    "emits Q (configMapByKey E i ns key)" "emits Q (configMapLister E i ns name)"
    "emits Q (issuerConfigMaps E i ns)" "emits Q (limitRangeLister E i ns)"
  by (simp_all add: cache_defs emits_read_cache emits_of_sum assms)

end
