(* ===== verification/Api_Calls.thy ===== *)
theory Api_Calls
  imports Informers
begin

text \<open>
  The calls the controllers make on their clients, one definition per client method: the answer
  comes from the \<open>env\<close>, the event records the request with its answer, and an error
  answer is the error of the call.
\<close>

section \<open>Cluster API\<close>

definition time_Now :: "env \<Rightarrow> time io" where
  "time_Now E = call (e_Now E) Clock"

definition patchRouteAnnotation :: "env \<Rightarrow> string \<Rightarrow> string \<Rightarrow> string \<times> string \<Rightarrow> Route io" where
  "patchRouteAnnotation E ns name kv =
     bind_io (call (\<lambda>h. e_apiRoutePatch E h ns name kv) (RoutePatch ns name kv)) (of_sum K8sErr)"

definition getRoute :: "env \<Rightarrow> string \<Rightarrow> string \<Rightarrow> Route io" where
  "getRoute E ns name =
     bind_io (call (\<lambda>h. e_apiRouteGet E h ns name) (RouteGet ns name)) (of_sum K8sErr)"

definition createRoute :: "env \<Rightarrow> string \<Rightarrow> Route \<Rightarrow> Route io" where
  "createRoute E ns r =
     bind_io (call (\<lambda>h. e_apiRouteCreate E h ns r) (RouteCreate ns r)) (of_sum K8sErr)"

definition updateRouteObject :: "env \<Rightarrow> string \<Rightarrow> Route \<Rightarrow> Route io" where
  "updateRouteObject E ns r =
     bind_io (call (\<lambda>h. e_apiRouteUpdate E h ns r) (RouteUpdate ns r)) (of_sum K8sErr)"

definition deleteRouteCollection :: "env \<Rightarrow> string \<Rightarrow> string \<times> string \<Rightarrow> unit io" where
  "deleteRouteCollection E ns selector =
     bind_io (call (\<lambda>h. e_apiRouteDeleteCollection E h ns selector) (RouteDeleteCollection ns selector))
       (of_sum K8sErr)"

definition createSecret :: "env \<Rightarrow> string \<Rightarrow> Secret \<Rightarrow> Secret io" where
  "createSecret E ns s =
     bind_io (call (\<lambda>h. e_apiSecretCreate E h ns s) (SecretCreate ns s)) (of_sum K8sErr)"

definition updateSecretObject :: "env \<Rightarrow> string \<Rightarrow> Secret \<Rightarrow> Secret io" where
  "updateSecretObject E ns s =
     bind_io (call (\<lambda>h. e_apiSecretUpdate E h ns s) (SecretUpdate ns s)) (of_sum K8sErr)"

definition createReplicaSet :: "env \<Rightarrow> string \<Rightarrow> ReplicaSet \<Rightarrow> ReplicaSet io" where
  "createReplicaSet E ns r =
     bind_io (call (\<lambda>h. e_apiReplicaSetCreate E h ns r) (ReplicaSetCreate ns r)) (of_sum K8sErr)"

definition createService :: "env \<Rightarrow> string \<Rightarrow> Service \<Rightarrow> Service io" where
  "createService E ns s =
     bind_io (call (\<lambda>h. e_apiServiceCreate E h ns s) (ServiceCreate ns s)) (of_sum K8sErr)"

definition updateConfigMapObject :: "env \<Rightarrow> string \<Rightarrow> ConfigMap \<Rightarrow> ConfigMap io" where
  "updateConfigMapObject E ns c =
     bind_io (call (\<lambda>h. e_apiConfigMapUpdate E h ns c) (ConfigMapUpdate ns c)) (of_sum K8sErr)"

section \<open>ACME client\<close>

definition acme_AuthorizeOrder :: "env \<Rightarrow> AcmeClient \<Rightarrow> string \<Rightarrow> Order io" where
  "acme_AuthorizeOrder E c domain =
     bind_io (call (\<lambda>h. e_AuthorizeOrder E h c domain) (AuthorizeOrder c domain)) (of_sum AcmeErr)"

definition acme_GetOrder :: "env \<Rightarrow> AcmeClient \<Rightarrow> string \<Rightarrow> Order io" where
  "acme_GetOrder E c uri =
     bind_io (call (\<lambda>h. e_GetOrder E h c uri) (GetOrder c uri)) (of_sum AcmeErr)"

definition acme_GetAuthorization :: "env \<Rightarrow> AcmeClient \<Rightarrow> string \<Rightarrow> Authorization io" where
  "acme_GetAuthorization E c uri =
     bind_io (call (\<lambda>h. e_GetAuthorization E h c uri) (GetAuthorization c uri)) (of_sum AcmeErr)"

definition acme_Accept :: "env \<Rightarrow> AcmeClient \<Rightarrow> Challenge \<Rightarrow> Challenge io" where
  "acme_Accept E c ch = bind_io (call (\<lambda>h. e_Accept E h c ch) (Accept c ch)) (of_sum AcmeErr)"

definition acme_CreateOrderCert :: "env \<Rightarrow> AcmeClient \<Rightarrow> string \<Rightarrow> string \<times> PrivateKey \<Rightarrow> string list io" where
  "acme_CreateOrderCert E c finalizeURL csr =
     bind_io (call (\<lambda>h. e_CreateOrderCert E h c finalizeURL csr) (CreateOrderCert c finalizeURL csr))
       (of_sum AcmeErr)"

definition acme_Register :: "env \<Rightarrow> AcmeClient \<Rightarrow> string list \<Rightarrow> Account io" where
  "acme_Register E c contacts =
     bind_io (call (\<lambda>h. e_Register E h c contacts) (Register c contacts)) (of_sum AcmeErr)"

definition acme_UpdateReg :: "env \<Rightarrow> AcmeClient \<Rightarrow> Account \<Rightarrow> Account io" where
  "acme_UpdateReg E c a = bind_io (call (\<lambda>h. e_UpdateReg E h c a) (UpdateReg c a)) (of_sum AcmeErr)"

definition acme_GetReg :: "env \<Rightarrow> AcmeClient \<Rightarrow> Account io" where
  "acme_GetReg E c = bind_io (call (\<lambda>h. e_GetReg E h c) (GetReg c)) (of_sum AcmeErr)"

section \<open>Keys\<close>

definition rsa_GenerateKey :: "env \<Rightarrow> int \<Rightarrow> PrivateKey io" where
  "rsa_GenerateKey E bits =
     bind_io (call (\<lambda>h. e_generateKey E h bits) (GenerateKey bits)) (of_option (LibErr ''rsa.GenerateKey''))"

text \<open>A certificate request stands for the host name it names and the key that signs it.\<close>

definition x509_CreateCertificateRequest :: "env \<Rightarrow> string \<Rightarrow> PrivateKey \<Rightarrow> (string \<times> PrivateKey) io" where
  "x509_CreateCertificateRequest E host key =
     bind_io (call (\<lambda>h. e_createCSR E h host key) (CreateCertificateRequest host key))
       (\<lambda>ok. if ok then ret (host, key) else throw (LibErr ''x509.CreateCertificateRequest''))"

lemmas api_call_defs = time_Now_def patchRouteAnnotation_def getRoute_def createRoute_def
  updateRouteObject_def deleteRouteCollection_def createSecret_def updateSecretObject_def
  createReplicaSet_def createService_def updateConfigMapObject_def acme_AuthorizeOrder_def
  acme_GetOrder_def acme_GetAuthorization_def acme_Accept_def acme_CreateOrderCert_def
  acme_Register_def acme_UpdateReg_def acme_GetReg_def rsa_GenerateKey_def
  x509_CreateCertificateRequest_def

section \<open>Events of the calls\<close>

lemma emits_api_calls [io_intro]:
  "(\<And>t. Q (Clock t)) \<Longrightarrow> emits Q (time_Now E)"
  "(\<And>r. Q (RoutePatch ns name kv r)) \<Longrightarrow> emits Q (patchRouteAnnotation E ns name kv)"
  "(\<And>r. Q (RouteGet ns name r)) \<Longrightarrow> emits Q (getRoute E ns name)"
  "(\<And>r. Q (RouteCreate ns rt r)) \<Longrightarrow> emits Q (createRoute E ns rt)"
  "(\<And>r. Q (RouteUpdate ns rt r)) \<Longrightarrow> emits Q (updateRouteObject E ns rt)"
  "(\<And>r. Q (RouteDeleteCollection ns kv r)) \<Longrightarrow> emits Q (deleteRouteCollection E ns kv)"
  "(\<And>r. Q (SecretCreate ns s r)) \<Longrightarrow> emits Q (createSecret E ns s)"
  "(\<And>r. Q (SecretUpdate ns s r)) \<Longrightarrow> emits Q (updateSecretObject E ns s)"
  "(\<And>r. Q (ReplicaSetCreate ns rs r)) \<Longrightarrow> emits Q (createReplicaSet E ns rs)"
  "(\<And>r. Q (ServiceCreate ns sv r)) \<Longrightarrow> emits Q (createService E ns sv)"
  "(\<And>r. Q (ConfigMapUpdate ns cm r)) \<Longrightarrow> emits Q (updateConfigMapObject E ns cm)"
  "(\<And>r. Q (AuthorizeOrder c d r)) \<Longrightarrow> emits Q (acme_AuthorizeOrder E c d)"
  "(\<And>r. Q (GetOrder c u r)) \<Longrightarrow> emits Q (acme_GetOrder E c u)"
  "(\<And>r. Q (GetAuthorization c u r)) \<Longrightarrow> emits Q (acme_GetAuthorization E c u)"
  "(\<And>r. Q (Accept c ch r)) \<Longrightarrow> emits Q (acme_Accept E c ch)"
  "(\<And>r. Q (CreateOrderCert c u csr r)) \<Longrightarrow> emits Q (acme_CreateOrderCert E c u csr)"
  "(\<And>r. Q (Register c cs r)) \<Longrightarrow> emits Q (acme_Register E c cs)"
  "(\<And>r. Q (UpdateReg c a r)) \<Longrightarrow> emits Q (acme_UpdateReg E c a)"
  "(\<And>r. Q (GetReg c r)) \<Longrightarrow> emits Q (acme_GetReg E c)"
  "(\<And>r. Q (GenerateKey n r)) \<Longrightarrow> emits Q (rsa_GenerateKey E n)"
  "(\<And>r. Q (CreateCertificateRequest host k r)) \<Longrightarrow> emits Q (x509_CreateCertificateRequest E host k)"
  by (auto simp: api_call_defs intro!: emits_bind emits_call emits_of_sum emits_of_option
      emits_ret emits_throw split: if_splits)

text \<open>The result and the event of a call that may fail.\<close>

lemma call_sum_eq:
  "bind_io (call f e) (of_sum w) h = (r, h') \<longleftrightarrow>
     h' = h @ [e (f h)] \<and> r = (case f h of Inl x \<Rightarrow> Inl (w x) | Inr a \<Rightarrow> Inr a)"
  by (auto simp: io_defs split: sum.splits)

lemmas api_call_results = call_sum_eq

end
