(* ===== verification/Route_Controller.thy ===== *)
theory Route_Controller
  imports Api_Calls
begin

text \<open>
  The state of the route controller (\<^verbatim>\<open>RouteController\<close>, \<^verbatim>\<open>pkg/controller/route/route.go\<close>) and its
  construction. The clients, the recorder and the two work queues are the \<open>env\<close>; the record holds
  the configuration, the informers, the caches \<^verbatim>\<open>Run\<close> waits for and the event handlers that
  are registered.
\<close>

section \<open>Definitions\<close>

datatype informer_kind =
  Routes | Secrets | Services | ReplicaSets | ConfigMaps | LimitRanges

datatype hook = AddFunc | UpdateFunc | DeleteFunc

record RouteController =
  rc_annotation :: string
  rc_certOrderBackoffInitial :: duration
  rc_certOrderBackoffMax :: duration
  rc_certDefaultRSAKeyBitSize :: int
  rc_certDefaultProfile :: string
  rc_exposerImage :: string
  rc_controllerNamespace :: string
  rc_acmeTimeout :: duration
  rc_kubeInformers :: informers
  rc_routeInformers :: informers
  rc_cachesToSync :: "(informer_kind \<times> string) set"
  rc_handlers :: "(informer_kind \<times> hook \<times> string) set"

definition ControllerName :: string where
  "ControllerName = ''openshift-acme-controller''"

definition ExposerFileKey :: string where
  "ExposerFileKey = ''exposer-file''"

text \<open>\<^verbatim>\<open>controllerKind\<close> is the kind \<^verbatim>\<open>Route\<close> of the group version of the route API.\<close>

definition controllerKind_Kind :: string where
  "controllerKind_Kind = ''Route''"

text \<open>
  \<open>registered k ns\<close> says whether \<^verbatim>\<open>AddEventHandler\<close> of the informer accepted the handlers; a refusal is
  only logged, and the cache is waited for all the same.
\<close>

definition route_hooks :: "(informer_kind \<Rightarrow> string \<Rightarrow> bool) \<Rightarrow> string set \<Rightarrow> (informer_kind \<times> hook \<times> string) set" where
  "route_hooks registered nss =
     {(Routes, f, ns) | f ns. ns \<in> nss \<and> registered Routes ns \<and> f \<in> {AddFunc, UpdateFunc, DeleteFunc}}"

definition kube_hooks :: "(informer_kind \<Rightarrow> string \<Rightarrow> bool) \<Rightarrow> string set \<Rightarrow> (informer_kind \<times> hook \<times> string) set" where
  "kube_hooks registered nss =
     {(Secrets, f, ns) | f ns. ns \<in> nss \<and> registered Secrets ns \<and> f \<in> {UpdateFunc, DeleteFunc}} \<union>
     {(ReplicaSets, f, ns) | f ns. ns \<in> nss \<and> registered ReplicaSets ns \<and> f \<in> {AddFunc, UpdateFunc, DeleteFunc}}"

definition NewRouteController ::
  "(informer_kind \<Rightarrow> string \<Rightarrow> bool) \<Rightarrow> string \<Rightarrow> duration \<Rightarrow> duration \<Rightarrow> int \<Rightarrow> string \<Rightarrow> string \<Rightarrow> string \<Rightarrow>
    informers \<Rightarrow> informers \<Rightarrow> gerror + RouteController" where
  "NewRouteController registered annotation certOrderBackoffInitial certOrderBackoffMax
      certDefaultRSAKeyBitSize certDefaultProfile exposerImage controllerNamespace kubeInformers routeInformers =
     (if route_Namespaces routeInformers = {} then Inl (Panic ''no namespace set up'')
      else if kube_Namespaces kubeInformers = {} then Inl (Panic ''no namespace set up'')
      else Inr
        \<lparr>rc_annotation = annotation,
         rc_certOrderBackoffInitial = certOrderBackoffInitial,
         rc_certOrderBackoffMax = certOrderBackoffMax,
         rc_certDefaultRSAKeyBitSize = certDefaultRSAKeyBitSize,
         rc_certDefaultProfile = certDefaultProfile,
         rc_exposerImage = exposerImage,
         rc_controllerNamespace = controllerNamespace,
         rc_acmeTimeout = 60 * 10 ^ 9,
         rc_kubeInformers = kubeInformers,
         rc_routeInformers = routeInformers,
         rc_cachesToSync =
           {Routes} \<times> route_Namespaces routeInformers \<union>
           {Secrets, Services, ReplicaSets, ConfigMaps, LimitRanges} \<times> kube_Namespaces kubeInformers,
         rc_handlers =
           route_hooks registered (route_Namespaces routeInformers) \<union>
           kube_hooks registered (kube_Namespaces kubeInformers)\<rparr>)"

section \<open>Lemmas\<close>

lemma NewRouteController_waits_for_caches:
  assumes "NewRouteController registered annotation bi bm bits prof img cns ki ri = Inr rc"
  shows "rc_routeInformers rc ns = Some f \<Longrightarrow> (Routes, ns) \<in> rc_cachesToSync rc"
    and "rc_kubeInformers rc ns = Some f \<Longrightarrow> k \<noteq> Routes \<Longrightarrow> (k, ns) \<in> rc_cachesToSync rc"
  using assms by (cases k; auto simp: NewRouteController_def route_Namespaces_def kube_Namespaces_def
      split: if_splits)+

text \<open>A controller for the witnesses: it watches all namespaces.\<close>

definition fx_rc :: RouteController where
  "fx_rc =
     \<lparr>rc_annotation = ''kubernetes.io/tls-acme'', rc_certOrderBackoffInitial = 5, rc_certOrderBackoffMax = 100,
      rc_certDefaultRSAKeyBitSize = 4096, rc_certDefaultProfile = [], rc_exposerImage = ''exposer:latest'',
      rc_controllerNamespace = ''acme'', rc_acmeTimeout = 60 * 10 ^ 9,
      rc_kubeInformers = [[] \<mapsto> \<lparr>fac_Namespace = [], fac_Resync = 0\<rparr>],
      rc_routeInformers = [[] \<mapsto> \<lparr>fac_Namespace = [], fac_Resync = DefaultResyncPeriod\<rparr>],
      rc_cachesToSync = {}, rc_handlers = {}\<rparr>"

end
