(* ===== verification/Temporary_Name.thy ===== *)
theory Temporary_Name
  imports Fixture
begin

text \<open>
  \<^verbatim>\<open>getTemporaryName\<close> of \<^verbatim>\<open>pkg/controller/route/route.go\<close>: the name of the exposer objects of one
  challenge. Base 32 with the extended hex alphabet and no padding (RFC 4648) is modelled on the
  bits of the digest, most significant first; SHA-256 is a parameter.
\<close>

section \<open>Definitions\<close>

definition byte_bits :: "8 word \<Rightarrow> bool list" where
  "byte_bits w = map (bit w) [7, 6, 5, 4, 3, 2, 1, 0]"

text \<open>Groups of five bits; the last one is filled up with zeros.\<close>

function groups5 :: "bool list \<Rightarrow> bool list list" where
  "groups5 bs =
     (if bs = [] then []
      else (take 5 bs @ replicate (5 - length bs) False) # groups5 (drop 5 bs))"
  by pat_completeness auto
termination
  by (relation "measure length") auto

declare groups5.simps [simp del]

definition bits_value :: "bool list \<Rightarrow> nat" where
  "bits_value bs = foldl (\<lambda>n b. 2 * n + (if b then 1 else 0)) 0 bs"

definition hex32_alphabet :: string where
  "hex32_alphabet = ''0123456789ABCDEFGHIJKLMNOPQRSTUV''"

definition base32Hex_NoPadding :: "8 word list \<Rightarrow> string" where
  "base32Hex_NoPadding b = map (\<lambda>g. hex32_alphabet ! bits_value g) (groups5 (concat (map byte_bits b)))"

definition getTemporaryName :: "lib \<Rightarrow> string \<Rightarrow> string" where
  "getTemporaryName L key = ''exposer-'' @ ToLower (base32Hex_NoPadding (l_sha256 L key))"

section \<open>Lemmas\<close>

lemma groups5_Nil [simp]: "groups5 [] = []"
  by (simp add: groups5.simps)

lemma groups5_short: "bs \<noteq> [] \<Longrightarrow> length bs \<le> 5 \<Longrightarrow> groups5 bs = [bs @ replicate (5 - length bs) False]"
  by (simp add: groups5.simps [of bs])

lemma groups5_long: "5 < length bs \<Longrightarrow> groups5 bs = take 5 bs # groups5 (drop 5 bs)"
  by (subst groups5.simps) auto

lemma length_byte_bits [simp]: "length (byte_bits w) = 8"
  by (simp add: byte_bits_def)

lemma byte_bits_inj:
  assumes "byte_bits v = byte_bits w"
  shows "v = w"
proof (rule bit_word_eqI)
  fix n
  assume "n < LENGTH(8)"
  then have "n \<in> {0, 1, 2, 3, 4, 5, 6, 7}" by auto
  then show "bit v n = bit w n"
    using assms by (auto simp: byte_bits_def)
qed

lemma concat_inj:
  assumes "length xs = length ys" and "concat (map f xs) = concat (map f ys)"
    and "\<And>x. length (f x) = k" and "\<And>x y. f x = f y \<Longrightarrow> x = y"
  shows "xs = ys"
  using assms(1,2)
proof (induction xs ys rule: list_induct2)
  case (Cons x xs y ys)
  then show ?case
    using assms(3,4) by simp
qed simp

lemma concat_groups5: "take (length bs) (concat (groups5 bs)) = bs"
proof (induction bs rule: groups5.induct)
  case (1 bs)
  show ?case
  proof (cases "length bs \<le> 5")
    case True
    then show ?thesis by (simp add: groups5.simps [of bs] groups5.simps [of "[]"])
  next
    case False
    then have "bs \<noteq> []" and "take 5 bs @ drop 5 bs = bs" by auto
    with 1 False show ?thesis
      by (subst groups5.simps) (simp add: min_def flip: drop_drop)
  qed
qed

lemma groups5_inj: "length bs = length cs \<Longrightarrow> groups5 bs = groups5 cs \<Longrightarrow> bs = cs"
  by (metis concat_groups5)

lemma length_groups5_elem: "g \<in> set (groups5 bs) \<Longrightarrow> length g = 5"
proof (induction bs rule: groups5.induct)
  case (1 bs)
  consider "bs = []" | "bs \<noteq> []" "length bs \<le> 5" | "bs \<noteq> []" "5 < length bs" by fastforce
  then show ?case
    by cases (use 1 in \<open>auto simp: groups5_short groups5_long\<close>)
qed

lemma length_groups5: "length (groups5 bs) = (length bs + 4) div 5"
proof (induction bs rule: groups5.induct)
  case (1 bs)
  consider "bs = []" | "bs \<noteq> []" "length bs \<le> 5" | "5 < length bs" by linarith
  then show ?case
  proof cases
    case 2
    then have "0 < length bs" by simp
    with 2 have "(length bs + 4) div 5 = 1" by linarith
    with 2 show ?thesis by (simp add: groups5_short)
  next
    case 3
    then have "bs \<noteq> []" by auto
    with 1 3 show ?thesis by (simp add: groups5_long)
  qed simp
qed

lemma bits_value_snoc: "bits_value (bs @ [b]) = 2 * bits_value bs + (if b then 1 else 0)"
  by (simp add: bits_value_def)

lemma bits_value_less: "bits_value bs < 2 ^ length bs"
  by (induction bs rule: rev_induct) (auto simp: bits_value_snoc bits_value_def)

lemma bits_value_inj: "length bs = length cs \<Longrightarrow> bits_value bs = bits_value cs \<Longrightarrow> bs = cs"
proof (induction bs arbitrary: cs rule: rev_induct)
  case (snoc b bs)
  then obtain cs' c where cs: "cs = cs' @ [c]" "length cs' = length bs"
    by (cases cs rule: rev_cases) auto
  with snoc.prems have eq: "2 * bits_value bs + (if b then 1 else 0) = 2 * bits_value cs' + (if c then 1 else 0)"
    by (simp add: bits_value_snoc)
  then have "b = c" and "bits_value bs = bits_value cs'"
    by (auto split: if_splits) presburger+
  with snoc.IH cs show ?case by auto
qed simp

text \<open>The letters a name consists of.\<close>

definition lower_alphabet :: string where
  "lower_alphabet = ''0123456789abcdefghijklmnopqrstuv''"

lemma lower_hex32: "map lower_char hex32_alphabet = lower_alphabet"
  by code_simp

lemma distinct_lower_alphabet: "distinct lower_alphabet"
  by (simp add: lower_alphabet_def)

lemma length_lower_alphabet [simp]: "length lower_alphabet = 32" "length hex32_alphabet = 32"
  by (simp_all add: lower_alphabet_def hex32_alphabet_def)

lemma getTemporaryName_letters:
  "getTemporaryName L key =
     ''exposer-'' @ map (\<lambda>g. lower_alphabet ! bits_value g) (groups5 (concat (map byte_bits (l_sha256 L key))))"
proof -
  have "lower_char (hex32_alphabet ! bits_value g) = lower_alphabet ! bits_value g"
    if "g \<in> set (groups5 bs)" for g bs
  proof -
    have "bits_value g < 32"
      using bits_value_less [of g] length_groups5_elem [OF that] by simp
    then show ?thesis
      by (simp flip: lower_hex32)
  qed
  then show ?thesis
    by (simp add: getTemporaryName_def base32Hex_NoPadding_def ToLower_def)
qed

lemma letters_inj:
  assumes "length gs = length hs" and "\<forall>g \<in> set gs \<union> set hs. length g = 5"
    and "map (\<lambda>g. lower_alphabet ! bits_value g) gs = map (\<lambda>g. lower_alphabet ! bits_value g) hs"
  shows "gs = hs"
  using assms
proof (induction gs hs rule: list_induct2)
  case (Cons g gs h hs)
  then have "bits_value g < 32" "bits_value h < 32"
    using bits_value_less [of g] bits_value_less [of h] by simp_all
  with Cons.prems have "bits_value g = bits_value h"
    by (simp add: nth_eq_iff_index_eq [OF distinct_lower_alphabet])
  with Cons show ?case
    using bits_value_inj [of g h] by simp
qed simp

lemma length_digest_bits: "length (concat (map byte_bits bs)) = 8 * length bs"
  by (induction bs) simp_all

section \<open>Properties\<close>

text \<open>
  C26: a temporary name is a legal object name (an RFC 1123 label: at most 63 characters, lower case
  letters, digits and an inner '-', starting and ending with a letter or digit), whatever key is
  hashed; the Service, Route, Secret and ReplicaSet of a challenge can all carry it. It relies
  on SHA-256 giving 32 bytes.
\<close>

theorem getTemporaryName_is_label:
  assumes "length (l_sha256 L key) = 32"
  shows "length (getTemporaryName L key) = 60 \<and>
    hd (getTemporaryName L key) = CHR ''e'' \<and>
    last (getTemporaryName L key) \<in> set lower_alphabet \<and>
    set (getTemporaryName L key) \<subseteq> set (''-wx'' @ lower_alphabet)"
proof -
  let ?gs = "groups5 (concat (map byte_bits (l_sha256 L key)))"
  let ?l = "\<lambda>g. lower_alphabet ! bits_value g"
  have len: "length ?gs = 52"
    using assms by (simp add: length_groups5 length_digest_bits)
  have elem: "?l g \<in> set lower_alphabet" if "g \<in> set ?gs" for g
    using bits_value_less [of g] length_groups5_elem [OF that] by simp
  have "?gs \<noteq> []" using len by auto
  then have "last (map ?l ?gs) \<in> set lower_alphabet"
    using elem by (simp add: last_map)
  moreover have "set (map ?l ?gs) \<subseteq> set lower_alphabet"
    using elem by auto
  moreover have "set ''exposer-'' \<subseteq> set (''-wx'' @ lower_alphabet)"
    by (simp add: lower_alphabet_def)
  ultimately show ?thesis
    using len \<open>?gs \<noteq> []\<close> by (auto simp: getTemporaryName_letters)
qed

theorem getTemporaryName_is_label_witness:
  "length (getTemporaryName fx_lib ''ns/web:tok'') = 60"
  using getTemporaryName_is_label [of fx_lib "''ns/web:tok''"] by (simp add: fx_defs)

text \<open>
  Two challenges share a temporary name exactly when the digests of their keys are equal: the
  encoding, the lower casing and the prefix lose nothing, so exposer objects of different challenges only
  collide when SHA-256 does. It relies on SHA-256 giving 32 bytes.
\<close>

theorem getTemporaryName_inj:
  assumes "length (l_sha256 L key) = 32" and "length (l_sha256 L key') = 32"
  shows "getTemporaryName L key = getTemporaryName L key' \<longleftrightarrow> l_sha256 L key = l_sha256 L key'"
proof
  let ?b = "\<lambda>k. concat (map byte_bits (l_sha256 L k))"
  assume "getTemporaryName L key = getTemporaryName L key'"
  then have "map (\<lambda>g. lower_alphabet ! bits_value g) (groups5 (?b key)) =
      map (\<lambda>g. lower_alphabet ! bits_value g) (groups5 (?b key'))"
    by (simp add: getTemporaryName_letters)
  moreover have len: "length (?b key) = length (?b key')"
    using assms by (simp add: length_digest_bits)
  ultimately have "groups5 (?b key) = groups5 (?b key')"
    by (intro letters_inj) (auto simp: length_groups5 length_groups5_elem)
  with len have "?b key = ?b key'" by (rule groups5_inj)
  then show "l_sha256 L key = l_sha256 L key'"
    using assms concat_inj [of "l_sha256 L key" "l_sha256 L key'" byte_bits 8] byte_bits_inj by simp
qed (simp add: getTemporaryName_def)


theorem getTemporaryName_inj_witness:
  "getTemporaryName fx_lib ''a'' \<noteq> getTemporaryName fx_lib ''bc''"
  using getTemporaryName_inj [of fx_lib "''a''" "''bc''"] by simp

end
