(* ===== verification/Resources.thy ===== *)
theory Resources
  imports Fixture
begin

text \<open>
  The resource requirements of the exposer pods against the LimitRanges of the namespace:
  \<^verbatim>\<open>adjustContainerResourceRequirements\<close> and \<^verbatim>\<open>quoMilliRoundHalfDown\<close> of
  \<^verbatim>\<open>pkg/controller/route/route.go\<close>. The two resource lists are separate maps, as at the call site;
  the operations of \<^verbatim>\<open>resource.Quantity\<close> are parameters.
\<close>

section \<open>Definitions\<close>

text \<open>\<^verbatim>\<open>big.Int.QuoRem\<close> truncates; \<^verbatim>\<open>Int64\<close> keeps the low 64 bits.\<close>

definition quoMilliRoundHalfDown :: "lib \<Rightarrow> quantity \<Rightarrow> quantity \<Rightarrow> int" where
  "quoMilliRoundHalfDown L num denom =
     (let denomMilli = l_qMilliValue L denom
      in if denomMilli = 0 then 0
         else
           let n = l_qMilliValue L num * 1000;
               d = denomMilli;
               q = n sdiv d;
               r = n smod d;
               twoR = 2 * \<bar>r\<bar>;
               q' = (if twoR > \<bar>d\<bar>
                     then (if (n \<ge> 0) = (d \<ge> 0) then q + 1 else q - 1)
                     else q)
           in wrap64 q')"

text \<open>One of the two lists against the minimum and the maximum of one resource.\<close>

definition check_range ::
  "lib \<Rightarrow> string \<Rightarrow> LimitRangeItem \<Rightarrow> resourceList \<times> gerror list \<Rightarrow> resourceList \<times> gerror list" where
  "check_range L res item s =
     (case s of (r, errors) \<Rightarrow>
        (case r res of
           None \<Rightarrow> (r, errors)
         | Some ask \<Rightarrow>
             (case lri_Min item res of
                None \<Rightarrow> r
              | Some mn \<Rightarrow> if l_qCmp L ask mn = -1 then r(res \<mapsto> mn) else r,
              case lri_Max item res of
                None \<Rightarrow> errors
              | Some mx \<Rightarrow> if l_qCmp L ask mx = 1
                           then errors @ [Errorf (res @ '' ask is higher then maximum from limitrange'')]
                           else errors)))"

text \<open>The ratio between the limit and the request of one resource.\<close>

definition check_ratio :: "lib \<Rightarrow> string \<Rightarrow> LimitRangeItem \<Rightarrow> ResourceRequirements \<Rightarrow> ResourceRequirements" where
  "check_ratio L res item requirements =
     (case (lri_MaxLimitRequestRatio item res, rr_Requests requirements res, rr_Limits requirements res) of
        (Some ratio, Some request, Some limit) \<Rightarrow>
          let observerRatio = quoMilliRoundHalfDown L limit request
          in if observerRatio > l_qMilliValue L ratio
             then requirements\<lparr>rr_Requests := (rr_Requests requirements)
                    (res \<mapsto> l_NewScaledQuantityMilli L (quoMilliRoundHalfDown L limit ratio))\<rparr>
             else requirements
      | _ \<Rightarrow> requirements)"

definition adjust_resource ::
  "lib \<Rightarrow> string \<Rightarrow> LimitRangeItem \<Rightarrow> ResourceRequirements \<times> gerror list \<Rightarrow> ResourceRequirements \<times> gerror list" where
  "adjust_resource L res item s =
     (case s of (requirements, errors) \<Rightarrow>
        case check_range L res item (rr_Requests requirements, errors) of (requests, errors1) \<Rightarrow>
        case check_range L res item (rr_Limits requirements, errors1) of (limits, errors2) \<Rightarrow>
          (check_ratio L res item \<lparr>rr_Limits = limits, rr_Requests = requests\<rparr>, errors2))"

definition adjust_item ::
  "lib \<Rightarrow> ResourceRequirements \<times> gerror list \<Rightarrow> LimitRangeItem \<Rightarrow> ResourceRequirements \<times> gerror list" where
  "adjust_item L s limitRangeItem =
     (if lri_Type limitRangeItem \<noteq> ''Container'' \<and> lri_Type limitRangeItem \<noteq> ''Pod'' then s
      else adjust_resource L ResourceCPU limitRangeItem (adjust_resource L ResourceMemory limitRangeItem s))"

definition adjustContainerResourceRequirements ::
  "lib \<Rightarrow> ResourceRequirements \<Rightarrow> LimitRange list \<Rightarrow> ResourceRequirements \<times> gerror option" where
  "adjustContainerResourceRequirements L requirements limitRanges =
     (case foldl (\<lambda>s limitRange. foldl (adjust_item L) s (lr_Limits limitRange)) (requirements, []) limitRanges
      of (requirements', errors) \<Rightarrow>
        (requirements', if errors = [] then None else Some (Aggregate errors)))"

section \<open>Quantities\<close>

text \<open>
  The documented behaviour of \<^verbatim>\<open>resource.Quantity\<close>: \<^verbatim>\<open>Cmp\<close> compares the values, \<^verbatim>\<open>MilliValue\<close> is
  the value in thousandths rounded up (where that fits 64 bits), and \<^verbatim>\<open>NewScaledQuantity(v, Milli)\<close>
  has the value of \<open>v\<close> thousandths.
\<close>

definition milli :: "quantity \<Rightarrow> int" where
  "milli q = - (- q_nano q div 10 ^ 6)"

definition quantity_laws :: "lib \<Rightarrow> bool" where
  "quantity_laws L \<longleftrightarrow>
     (\<forall>a b. l_qCmp L a b = sgn (q_nano a - q_nano b)) \<and>
     (\<forall>q. in_int64 (milli q) \<longrightarrow> l_qMilliValue L q = milli q) \<and>
     (\<forall>v. q_nano (l_NewScaledQuantityMilli L v) = v * 10 ^ 6)"

lemma fx_quantity_laws: "quantity_laws fx_lib"
  by (simp add: quantity_laws_def milli_def)

lemma q_nano_le_milli: "q_nano q \<le> milli q * 10 ^ 6"
  unfolding milli_def by simp

lemma trunc_divides: "n sdiv d * d + n smod d = (n :: int)"
  by (rule sdiv_mult_smod_eq)

lemma abs_smod: "\<bar>n smod d\<bar> = \<bar>n\<bar> mod \<bar>d :: int\<bar>"
  by (cases "n = 0"; cases "d = 0") (simp_all add: signed_modulo_int_def abs_mult abs_of_nonneg)

lemma smod_sign: "0 \<le> n \<Longrightarrow> 0 \<le> n smod (d :: int)" "n \<le> 0 \<Longrightarrow> n smod (d :: int) \<le> 0"
  by (cases "n = 0"; cases "d = 0"; simp add: signed_modulo_int_def mult_nonpos_nonneg)+

lemma abs_sdiv_mult: "\<bar>n sdiv d * d\<bar> \<le> \<bar>n :: int\<bar>"
proof -
  have "\<bar>n sdiv d * d\<bar> = \<bar>sgn n\<bar> * \<bar>sgn d\<bar> * (\<bar>n\<bar> div \<bar>d\<bar> * \<bar>d\<bar>)"
    by (cases "d = 0") (simp_all add: signed_divide_int_def abs_mult abs_of_nonneg pos_imp_zdiv_nonneg_iff)
  also have "\<dots> \<le> \<bar>n\<bar> div \<bar>d\<bar> * \<bar>d\<bar>"
    by (cases "n = 0"; cases "d = 0") simp_all
  also have "\<dots> \<le> \<bar>n\<bar>"
    by (cases "d = 0") (simp_all add: minus_mod_eq_div_mult [symmetric])
  finally show ?thesis .
qed

text \<open>The integer core of \<^verbatim>\<open>quoMilliRoundHalfDown\<close>: nearest integer, ties towards zero.\<close>

definition round_half_down :: "int \<Rightarrow> int \<Rightarrow> int" where
  "round_half_down n d =
     (if 2 * \<bar>n smod d\<bar> > \<bar>d\<bar>
      then (if (n \<ge> 0) = (d \<ge> 0) then n sdiv d + 1 else n sdiv d - 1) else n sdiv d)"

lemma quoMilliRoundHalfDown_eq:
  "quoMilliRoundHalfDown L num denom =
     (if l_qMilliValue L denom = 0 then 0
      else wrap64 (round_half_down (l_qMilliValue L num * 1000) (l_qMilliValue L denom)))"
  by (simp add: quoMilliRoundHalfDown_def round_half_down_def Let_def)

lemma round_half_down_nearest:
  assumes "d \<noteq> 0"
  shows "2 * \<bar>n - round_half_down n d * d\<bar> \<le> \<bar>d\<bar>"
proof -
  define q where "q = n sdiv d"
  define r where "r = n smod d"
  have n: "n = q * d + r"
    unfolding q_def r_def by (simp add: trunc_divides)
  have r: "\<bar>r\<bar> < \<bar>d\<bar>" "0 \<le> n \<Longrightarrow> 0 \<le> r" "n \<le> 0 \<Longrightarrow> r \<le> 0"
    using assms unfolding r_def by (simp_all add: abs_smod smod_sign)
  show ?thesis
    unfolding round_half_down_def q_def [symmetric] r_def [symmetric]
    using r by (cases "0 \<le> n"; cases "0 \<le> d") (auto simp: n algebra_simps)
qed

lemma round_half_down_tie:
  assumes "d \<noteq> 0" and "2 * \<bar>n - round_half_down n d * d\<bar> = \<bar>d\<bar>"
  shows "\<bar>round_half_down n d * d\<bar> \<le> \<bar>n\<bar>"
proof -
  define q where "q = n sdiv d"
  define r where "r = n smod d"
  have n: "n = q * d + r"
    unfolding q_def r_def by (simp add: trunc_divides)
  have r: "\<bar>r\<bar> < \<bar>d\<bar>" "0 \<le> n \<Longrightarrow> 0 \<le> r" "n \<le> 0 \<Longrightarrow> r \<le> 0"
    using assms unfolding r_def by (simp_all add: abs_smod smod_sign)
  have "\<not> 2 * \<bar>r\<bar> > \<bar>d\<bar>"
    using assms(2) r unfolding round_half_down_def q_def [symmetric] r_def [symmetric]
    by (cases "0 \<le> n"; cases "0 \<le> d") (auto simp: n algebra_simps split: if_splits)
  moreover have "\<bar>q * d\<bar> \<le> \<bar>n\<bar>"
    using abs_sdiv_mult [of n d] by (simp add: q_def)
  ultimately show ?thesis
    by (simp add: round_half_down_def q_def [symmetric] r_def [symmetric])
qed

section \<open>Adjusting never lowers a value\<close>

text \<open>
  The range in which no intermediate value leaves 64 bits: positive quantities of at most
  \<open>9 * 10 ^ 12\<close> units (nine terabytes of memory), ratios of at least one.
\<close>

definition sane :: "quantity \<Rightarrow> bool" where
  "sane q \<longleftrightarrow> 0 < q_nano q \<and> q_nano q \<le> 9 * 10 ^ 21"

definition sane_list :: "resourceList \<Rightarrow> bool" where
  "sane_list r \<longleftrightarrow> (\<forall>k v. r k = Some v \<longrightarrow> sane v)"

definition sane_item :: "LimitRangeItem \<Rightarrow> bool" where
  "sane_item item \<longleftrightarrow> sane_list (lri_Min item) \<and> sane_list (lri_MaxLimitRequestRatio item) \<and>
     (\<forall>k v. lri_MaxLimitRequestRatio item k = Some v \<longrightarrow> 10 ^ 9 \<le> q_nano v)"

definition sane_req :: "ResourceRequirements \<Rightarrow> bool" where
  "sane_req r \<longleftrightarrow> sane_list (rr_Requests r) \<and> sane_list (rr_Limits r)"

definition grows :: "resourceList \<Rightarrow> resourceList \<Rightarrow> bool" where
  "grows r r' \<longleftrightarrow> dom r' = dom r \<and>
     (\<forall>k v v'. r k = Some v \<longrightarrow> r' k = Some v' \<longrightarrow> q_nano v \<le> q_nano v')"

definition req_grows :: "ResourceRequirements \<Rightarrow> ResourceRequirements \<Rightarrow> bool" where
  "req_grows r r' \<longleftrightarrow> grows (rr_Requests r) (rr_Requests r') \<and> grows (rr_Limits r) (rr_Limits r')"

lemma grows_refl [simp]: "grows r r"
  by (simp add: grows_def)

lemma grows_trans:
  assumes "grows r r'" and "grows r' r''"
  shows "grows r r''"
proof -
  have "q_nano v \<le> q_nano v''" if "r k = Some v" "r'' k = Some v''" for k v v''
  proof -
    from that assms obtain v' where "r' k = Some v'"
      unfolding grows_def by blast
    with that assms show ?thesis
      unfolding grows_def by (meson order_trans)
  qed
  with assms show ?thesis by (simp add: grows_def)
qed

lemma grows_upd: "r k = Some v \<Longrightarrow> q_nano v \<le> q_nano v' \<Longrightarrow> grows r (r(k \<mapsto> v'))"
  by (auto simp: grows_def)

lemma req_grows_refl [simp]: "req_grows r r"
  by (simp add: req_grows_def)

lemma req_grows_trans: "req_grows r r' \<Longrightarrow> req_grows r' r'' \<Longrightarrow> req_grows r r''"
  unfolding req_grows_def by (meson grows_trans)

lemma nearest_bounds:
  fixes n d x :: int
  assumes "0 < d" and "0 \<le> n" and "2 * \<bar>n - x * d\<bar> \<le> d"
  shows "0 \<le> x" and "x \<le> n"
proof -
  show "0 \<le> x"
  proof (rule ccontr)
    assume "\<not> 0 \<le> x"
    then have "x * d \<le> - 1 * d"
      using assms(1) by (intro mult_right_mono) simp_all
    with assms show False by simp
  qed
  show "x \<le> n"
  proof (rule ccontr)
    assume "\<not> x \<le> n"
    then have "(n + 1) * d \<le> x * d"
      using assms(1) by (intro mult_right_mono) simp_all
    moreover have "n * 1 \<le> n * d"
      using assms by (intro mult_left_mono) simp_all
    ultimately show False
      using assms by (simp add: algebra_simps)
  qed
qed

lemma sane_milli:
  assumes "quantity_laws L" and "sane q"
  shows "l_qMilliValue L q = milli q" and "0 < milli q" and "milli q \<le> 9 * 10 ^ 15"
proof -
  show "0 < milli q"
    using assms(2) by (simp add: sane_def milli_def pos_imp_zdiv_neg_iff)
  have "- 9 * 10 ^ 21 div 10 ^ 6 \<le> - q_nano q div (10 ^ 6 :: int)"
    using assms(2) by (intro zdiv_mono1) (simp_all add: sane_def)
  then show "milli q \<le> 9 * 10 ^ 15"
    by (simp add: milli_def)
  with \<open>0 < milli q\<close> have "in_int64 (milli q)"
    by (simp add: in_int64_def int64_min_def int64_max_def)
  with assms(1) show "l_qMilliValue L q = milli q"
    by (simp add: quantity_laws_def)
qed

lemma quo_sane:
  assumes "quantity_laws L" and "sane a" and "sane b"
  shows "quoMilliRoundHalfDown L a b = round_half_down (milli a * 1000) (milli b)"
proof -
  note a = sane_milli [OF assms(1,2)] and b = sane_milli [OF assms(1,3)]
  let ?x = "round_half_down (milli a * 1000) (milli b)"
  have "2 * \<bar>milli a * 1000 - ?x * milli b\<bar> \<le> milli b"
    using round_half_down_nearest [of "milli b" "milli a * 1000"] b(2) by simp
  then have "0 \<le> ?x" and "?x \<le> milli a * 1000"
    using nearest_bounds [of "milli b" "milli a * 1000" ?x] a(2) b(2) by simp_all
  moreover have "in_int64 (milli a * 1000)"
    using a(2,3) by (simp add: in_int64_def int64_min_def int64_max_def)
  ultimately have "wrap64 ?x = ?x"
    by (rule wrap64_between)
  with a b show ?thesis
    by (simp add: quoMilliRoundHalfDown_eq)
qed

lemma ratio_step_raises:
  fixes N D R :: int
  assumes "0 < D" and "0 < R" and "round_half_down N D > R"
  shows "D \<le> round_half_down N R"
proof (rule ccontr)
  let ?o = "round_half_down N D" and ?x = "round_half_down N R"
  have o: "2 * \<bar>N - ?o * D\<bar> \<le> D" and x: "2 * \<bar>N - ?x * R\<bar> \<le> R"
    using round_half_down_nearest [of D N] round_half_down_nearest [of R N] assms by simp_all
  have "(R + 1) * D \<le> ?o * D"
    using assms by (intro mult_right_mono) simp_all
  with o have lower: "2 * (R * D) + D \<le> 2 * N"
    by (simp add: algebra_simps abs_if split: if_splits)
  assume "\<not> D \<le> ?x"
  then have "?x * R \<le> (D - 1) * R"
    using assms by (intro mult_right_mono) simp_all
  with x have "2 * N \<le> 2 * (R * D) - R"
    by (simp add: algebra_simps abs_if split: if_splits)
  with lower assms show False by simp
qed

lemma ratio_step_below_limit:
  fixes a R :: int
  assumes "0 < a" and "1000 \<le> R"
  shows "round_half_down (a * 1000) R \<le> a"
proof (rule ccontr)
  define p where "p = round_half_down (a * 1000) R * R"
  define z where "z = a * R"
  have x: "2 * \<bar>a * 1000 - p\<bar> \<le> R"
    using round_half_down_nearest [of R "a * 1000"] assms by (simp add: p_def)
  assume "\<not> round_half_down (a * 1000) R \<le> a"
  then have "(a + 1) * R \<le> p"
    unfolding p_def using assms by (intro mult_right_mono) simp_all
  then have "z + R \<le> p"
    by (simp add: z_def distrib_right)
  moreover have "a * 1000 \<le> z"
    unfolding z_def using assms by (intro mult_left_mono) simp_all
  ultimately show False
    using x assms by (simp add: abs_if split: if_splits)
qed

lemma check_range_grows:
  assumes "quantity_laws L" and "sane_item item" and "sane_list r"
    and "check_range L res item (r, errs) = (r', errs')"
  shows "grows r r'" and "sane_list r'"
    and "\<lbrakk>lri_Min item res = Some mn; r' res = Some v\<rbrakk> \<Longrightarrow> q_nano mn \<le> q_nano v"
proof -
  have cmp: "l_qCmp L a b = -1 \<longleftrightarrow> q_nano a < q_nano b" for a b
    using assms(1) by (simp add: quantity_laws_def sgn_if)
  show "grows r r'" and "sane_list r'"
    using assms(2-4)
    by (auto simp: check_range_def cmp sane_list_def sane_item_def grows_upd
        split: option.splits if_splits)
  show "q_nano mn \<le> q_nano v" if "lri_Min item res = Some mn" "r' res = Some v"
    using assms(4) that by (auto simp: check_range_def cmp split: option.splits if_splits)
qed

lemma check_ratio_grows:
  assumes "quantity_laws L" and "sane_item item" and "sane_req r"
  shows "req_grows r (check_ratio L res item r)" and "sane_req (check_ratio L res item r)"
proof -
  have "req_grows r (check_ratio L res item r) \<and> sane_req (check_ratio L res item r)"
  proof (cases "\<exists>ratio rq lm. lri_MaxLimitRequestRatio item res = Some ratio \<and> rr_Requests r res = Some rq \<and>
      rr_Limits r res = Some lm \<and> quoMilliRoundHalfDown L lm rq > l_qMilliValue L ratio")
    case False
    then have "check_ratio L res item r = r"
      by (auto simp: check_ratio_def Let_def split: option.splits)
    with assms(3) show ?thesis by simp
  next
    case True
    then obtain ratio rq lm where some: "lri_MaxLimitRequestRatio item res = Some ratio"
        "rr_Requests r res = Some rq" "rr_Limits r res = Some lm"
      and gt: "quoMilliRoundHalfDown L lm rq > l_qMilliValue L ratio"
      by blast
    with assms(2,3) have sane: "sane ratio" "sane rq" "sane lm" and one: "10 ^ 9 \<le> q_nano ratio"
      by (auto simp: sane_item_def sane_req_def sane_list_def)
    note m = sane_milli [OF assms(1) sane(1)] sane_milli [OF assms(1) sane(2)] sane_milli [OF assms(1) sane(3)]
    let ?x = "round_half_down (milli lm * 1000) (milli ratio)"
    let ?new = "l_NewScaledQuantityMilli L (quoMilliRoundHalfDown L lm ratio)"
    have new: "q_nano ?new = ?x * 10 ^ 6"
      using assms(1) sane by (simp add: quo_sane quantity_laws_def)
    have low: "milli rq \<le> ?x"
      using gt m quo_sane [OF assms(1) sane(3,2)] by (intro ratio_step_raises) simp_all
    have "1000 \<le> milli ratio"
      using one q_nano_le_milli [of ratio] by simp
    then have high: "?x \<le> milli lm"
      using m by (intro ratio_step_below_limit)
    have "q_nano rq \<le> q_nano ?new"
      using low q_nano_le_milli [of rq] by (simp add: new)
    moreover have "sane ?new"
      using low high m by (simp add: sane_def new)
    ultimately show ?thesis
      using some gt assms(3)
      by (auto simp: check_ratio_def Let_def req_grows_def sane_req_def sane_list_def grows_upd)
  qed
  then show "req_grows r (check_ratio L res item r)" and "sane_req (check_ratio L res item r)"
    by simp_all
qed

section \<open>Whole adjustment\<close>

definition meets_min :: "LimitRangeItem \<Rightarrow> string \<Rightarrow> ResourceRequirements \<Rightarrow> bool" where
  "meets_min item res r \<longleftrightarrow>
     (\<forall>mn v. lri_Min item res = Some mn \<longrightarrow>
        rr_Requests r res = Some v \<or> rr_Limits r res = Some v \<longrightarrow> q_nano mn \<le> q_nano v)"

lemma meets_min_grows:
  assumes "meets_min item res r" and "req_grows r r'"
  shows "meets_min item res r'"
proof -
  have "q_nano mn \<le> q_nano v'" if "lri_Min item res = Some mn" "l' res = Some v'" "grows l l'"
    "\<And>v. l res = Some v \<Longrightarrow> q_nano mn \<le> q_nano v" for mn v' l l'
  proof -
    from that(2,3) obtain v where v: "l res = Some v"
      unfolding grows_def by blast
    with that(2,3) have "q_nano v \<le> q_nano v'"
      unfolding grows_def by blast
    with that(4) [OF v] show ?thesis by simp
  qed
  with assms show ?thesis
    unfolding meets_min_def req_grows_def by metis
qed

lemma adjust_resource_step:
  assumes "quantity_laws L" and "sane_item item" and "sane_req r"
    and "adjust_resource L res item (r, errs) = (r', errs')"
  shows "req_grows r r' \<and> sane_req r' \<and> meets_min item res r'"
proof -
  obtain rq e1 lm e2 where c1: "check_range L res item (rr_Requests r, errs) = (rq, e1)"
    and c2: "check_range L res item (rr_Limits r, e1) = (lm, e2)"
    by (meson surj_pair)
  let ?m = "\<lparr>rr_Limits = lm, rr_Requests = rq\<rparr>"
  have r': "r' = check_ratio L res item ?m"
    using assms(4) c1 c2 by (simp add: adjust_resource_def)
  note s = assms(3) [unfolded sane_req_def]
  note g1 = check_range_grows [OF assms(1,2) conjunct1 [OF s] c1]
  note g2 = check_range_grows [OF assms(1,2) conjunct2 [OF s] c2]
  have m: "req_grows r ?m" "sane_req ?m" "meets_min item res ?m"
    using g1 g2 by (auto simp: req_grows_def sane_req_def meets_min_def)
  show ?thesis
    using check_ratio_grows [OF assms(1,2) m(2), of res] m
    by (auto simp: r' intro: req_grows_trans meets_min_grows)
qed

definition counts :: "LimitRangeItem \<Rightarrow> bool" where
  "counts item \<longleftrightarrow> lri_Type item = ''Container'' \<or> lri_Type item = ''Pod''"

lemma adjust_item_step:
  assumes "quantity_laws L" and "sane_item item" and "sane_req r"
    and "adjust_item L (r, errs) item = (r', errs')"
  shows "req_grows r r' \<and> sane_req r' \<and>
    (counts item \<longrightarrow> meets_min item ResourceMemory r' \<and> meets_min item ResourceCPU r')"
proof (cases "counts item")
  case False
  with assms show ?thesis by (auto simp: adjust_item_def counts_def)
next
  case True
  obtain r1 e1 where a1: "adjust_resource L ResourceMemory item (r, errs) = (r1, e1)"
    by (meson surj_pair)
  with True assms(4) have a2: "adjust_resource L ResourceCPU item (r1, e1) = (r', errs')"
    by (auto simp: adjust_item_def counts_def)
  note s1 = adjust_resource_step [OF assms(1-3) a1]
  note s2 = adjust_resource_step [OF assms(1,2) _ a2]
  from s1 s2 show ?thesis
    by (meson req_grows_trans meets_min_grows)
qed

lemma adjust_items:
  assumes "quantity_laws L" and "\<forall>i \<in> set items. sane_item i" and "sane_req r"
    and "foldl (adjust_item L) (r, errs) items = (r', errs')"
  shows "req_grows r r' \<and> sane_req r' \<and>
    (\<forall>i \<in> set items. counts i \<longrightarrow> meets_min i ResourceMemory r' \<and> meets_min i ResourceCPU r')"
  using assms(2-4)
proof (induction items arbitrary: r errs)
  case Nil
  then show ?case by simp
next
  case (Cons i items)
  obtain r1 e1 where a1: "adjust_item L (r, errs) i = (r1, e1)"
    by (meson surj_pair)
  with Cons.prems have a2: "foldl (adjust_item L) (r1, e1) items = (r', errs')"
    by simp
  have s1: "req_grows r r1 \<and> sane_req r1 \<and>
      (counts i \<longrightarrow> meets_min i ResourceMemory r1 \<and> meets_min i ResourceCPU r1)"
    using Cons.prems a1 by (intro adjust_item_step [OF assms(1)]) auto
  then have s2: "req_grows r1 r' \<and> sane_req r' \<and>
      (\<forall>i \<in> set items. counts i \<longrightarrow> meets_min i ResourceMemory r' \<and> meets_min i ResourceCPU r')"
    using Cons.prems a2 by (intro Cons.IH) auto
  from s1 s2 show ?case
    by (auto intro: req_grows_trans meets_min_grows)
qed

lemma adjust_all_items:
  "adjustContainerResourceRequirements L r lrs =
     (case foldl (adjust_item L) (r, []) (concat (map lr_Limits lrs)) of
        (r', errs) \<Rightarrow> (r', if errs = [] then None else Some (Aggregate errs)))"
  by (simp add: adjustContainerResourceRequirements_def foldl_concat)

text \<open>C27: adjusting the exposer's requirements to the LimitRanges of the namespace only ever raises
  a request or a limit, adds and removes no resource, and leaves every request and limit of
  memory and cpu at or above the minimum of every Container and Pod item.\<close>

theorem adjustContainerResourceRequirements_min:
  assumes "quantity_laws L" and "sane_req r"
    and "\<forall>lr \<in> set lrs. \<forall>i \<in> set (lr_Limits lr). sane_item i"
    and "adjustContainerResourceRequirements L r lrs = (r', err)"
  shows "req_grows r r' \<and>
    (\<forall>lr \<in> set lrs. \<forall>i \<in> set (lr_Limits lr). counts i \<longrightarrow>
       meets_min i ResourceMemory r' \<and> meets_min i ResourceCPU r')"
proof -
  let ?items = "concat (map lr_Limits lrs)"
  obtain e where f: "foldl (adjust_item L) (r, []) ?items = (r', e)"
    using assms(4) by (auto simp: adjust_all_items split: prod.splits)
  have "\<forall>i \<in> set ?items. sane_item i"
    using assms(3) by auto
  from adjust_items [OF assms(1) this assms(2) f] show ?thesis by auto
qed

section \<open>Maxima\<close>

definition within_max :: "LimitRangeItem \<Rightarrow> string \<Rightarrow> ResourceRequirements \<Rightarrow> bool" where
  "within_max item res r \<longleftrightarrow>
     (\<forall>mx v. lri_Max item res = Some mx \<longrightarrow>
        rr_Requests r res = Some v \<or> rr_Limits r res = Some v \<longrightarrow> q_nano v \<le> q_nano mx)"

text \<open>Item \<open>i\<close> is compatible with the maximum of item \<open>j\<close>: its minimum does not exceed it, and the
  maximum is a whole number of thousandths.\<close>

definition compatible :: "LimitRangeItem \<Rightarrow> LimitRangeItem \<Rightarrow> bool" where
  "compatible i j \<longleftrightarrow> (\<forall>res mx. lri_Max j res = Some mx \<longrightarrow> 10 ^ 6 dvd q_nano mx \<and>
     (\<forall>mn. lri_Min i res = Some mn \<longrightarrow> q_nano mn \<le> q_nano mx))"

lemma check_range_errors: "check_range L res item (r, errs) = (r', errs') \<Longrightarrow> \<exists>t. errs' = errs @ t"
  by (auto simp: check_range_def split: option.splits if_splits)

lemma check_range_max:
  assumes "quantity_laws L" and "compatible item j" and "lri_Max j res = Some mx"
    and "check_range L res item (r, errs) = (r', [])" and "r' res = Some v"
    and "j = item \<or> (\<forall>u. r res = Some u \<longrightarrow> q_nano u \<le> q_nano mx)"
  shows "q_nano v \<le> q_nano mx"
proof -
  have cmp: "l_qCmp L a b = 1 \<longleftrightarrow> q_nano b < q_nano a" for a b
    using assms(1) by (simp add: quantity_laws_def sgn_if)
  show ?thesis
    using assms(2-6)
    by (auto simp: check_range_def cmp compatible_def split: option.splits if_splits)
qed

lemma milli_le_aligned:
  assumes "q_nano a \<le> m" and "10 ^ 6 dvd m"
  shows "milli a * 10 ^ 6 \<le> m"
proof -
  from assms(2) obtain k where k: "m = 10 ^ 6 * k" by blast
  have "(10 ^ 6 * - k) div 10 ^ 6 \<le> - q_nano a div (10 ^ 6 :: int)"
    using assms(1) by (intro zdiv_mono1) (simp_all add: k)
  then have "milli a \<le> k"
    by (simp add: milli_def)
  then show ?thesis by (simp add: k)
qed

lemma check_ratio_max:
  assumes "quantity_laws L" and "sane_item item" and "sane_req r" and "compatible item j"
    and "within_max j res r"
  shows "within_max j res (check_ratio L res item r)"
proof (cases "check_ratio L res item r = r")
  case True
  with assms(5) show ?thesis by simp
next
  case False
  then obtain ratio rq lm where some: "lri_MaxLimitRequestRatio item res = Some ratio"
      "rr_Requests r res = Some rq" "rr_Limits r res = Some lm"
    and eq: "check_ratio L res item r = r\<lparr>rr_Requests := (rr_Requests r)
        (res \<mapsto> l_NewScaledQuantityMilli L (quoMilliRoundHalfDown L lm ratio))\<rparr>"
    by (auto simp: check_ratio_def Let_def split: option.splits if_splits)
  with assms(2,3) have sane: "sane ratio" "sane lm" and one: "10 ^ 9 \<le> q_nano ratio"
    by (auto simp: sane_item_def sane_req_def sane_list_def)
  have "1000 \<le> milli ratio"
    using one q_nano_le_milli [of ratio] by simp
  then have x: "round_half_down (milli lm * 1000) (milli ratio) \<le> milli lm"
    using sane_milli [OF assms(1) sane(2)] by (intro ratio_step_below_limit)
  have "q_nano (l_NewScaledQuantityMilli L (quoMilliRoundHalfDown L lm ratio)) \<le> q_nano mx"
    if "lri_Max j res = Some mx" for mx
  proof -
    have "q_nano lm \<le> q_nano mx" and "10 ^ 6 dvd q_nano mx"
      using assms(4,5) some that by (auto simp: within_max_def compatible_def)
    then have "milli lm * 10 ^ 6 \<le> q_nano mx"
      by (rule milli_le_aligned)
    with x assms(1) sane show ?thesis
      by (simp add: quo_sane quantity_laws_def)
  qed
  with assms(5) eq show ?thesis
    by (auto simp: within_max_def)
qed

lemma adjust_resource_errors:
  "adjust_resource L res item (r, errs) = (r', errs') \<Longrightarrow> \<exists>t. errs' = errs @ t"
  by (fastforce simp: adjust_resource_def dest: check_range_errors split: prod.splits)

lemma adjust_resource_max:
  assumes "quantity_laws L" and "sane_item item" and "sane_req r" and "compatible item j"
    and "adjust_resource L res item (r, errs) = (r', [])" and "j = item \<or> within_max j res r"
  shows "within_max j res r'"
proof -
  obtain rq e1 lm where c1: "check_range L res item (rr_Requests r, errs) = (rq, e1)"
    and c2: "check_range L res item (rr_Limits r, e1) = (lm, [])"
    and r': "r' = check_ratio L res item \<lparr>rr_Limits = lm, rr_Requests = rq\<rparr>"
    using assms(5) by (auto simp: adjust_resource_def split: prod.splits)
  have e1: "e1 = []"
    using check_range_errors [OF c2] by simp
  note s = assms(3) [unfolded sane_req_def]
  have m: "sane_req \<lparr>rr_Limits = lm, rr_Requests = rq\<rparr>"
    using check_range_grows(2) [OF assms(1,2) _ c1] check_range_grows(2) [OF assms(1,2) _ c2] s
    by (simp add: sane_req_def)
  have "within_max j res \<lparr>rr_Limits = lm, rr_Requests = rq\<rparr>"
    using assms(6) check_range_max [OF assms(1,4) _ c1 [unfolded e1]]
      check_range_max [OF assms(1,4) _ c2]
    by (fastforce simp: within_max_def)
  with m show ?thesis
    unfolding r' by (intro check_ratio_max [OF assms(1,2) _ assms(4)])
qed

lemma adjust_resource_other:
  assumes "adjust_resource L res item (r, errs) = (r', errs')" and "res' \<noteq> res"
  shows "rr_Requests r' res' = rr_Requests r res' \<and> rr_Limits r' res' = rr_Limits r res'"
  using assms
  by (auto simp: adjust_resource_def check_range_def check_ratio_def Let_def
      split: prod.splits option.splits if_splits)

lemma adjust_resource_max_other:
  assumes "adjust_resource L res item (r, errs) = (r', errs')" and "res' \<noteq> res"
  shows "within_max j res' r' = within_max j res' r"
  using adjust_resource_other [OF assms] by (simp add: within_max_def)

abbreviation within_both :: "LimitRangeItem \<Rightarrow> ResourceRequirements \<Rightarrow> bool" where
  "within_both j r \<equiv> within_max j ResourceMemory r \<and> within_max j ResourceCPU r"

lemma cpu_memory [simp]: "ResourceCPU \<noteq> ResourceMemory" "ResourceMemory \<noteq> ResourceCPU"
  by (simp_all add: ResourceCPU_def ResourceMemory_def)

lemma adjust_item_max:
  assumes "quantity_laws L" and "sane_item item" and "sane_req r" and "compatible item j"
    and "adjust_item L (r, errs) item = (r', [])"
    and "counts item \<and> j = item \<or> within_both j r"
  shows "within_both j r' \<and> errs = []"
proof (cases "counts item")
  case False
  with assms show ?thesis by (auto simp: adjust_item_def counts_def)
next
  case True
  obtain r1 e1 where a1: "adjust_resource L ResourceMemory item (r, errs) = (r1, e1)"
    by (meson surj_pair)
  with True assms(5) have a2: "adjust_resource L ResourceCPU item (r1, e1) = (r', [])"
    by (auto simp: adjust_item_def counts_def)
  have e1: "e1 = []" and errs: "errs = []"
    using adjust_resource_errors [OF a2] adjust_resource_errors [OF a1] by simp_all
  have s1: "sane_req r1"
    using adjust_resource_step [OF assms(1-3) a1] by simp
  have "within_max j ResourceMemory r1"
    using assms(6) by (intro adjust_resource_max [OF assms(1-4) a1 [unfolded e1]]) auto
  moreover have "within_max j ResourceCPU r'"
    using assms(6) adjust_resource_max_other [OF a1, of ResourceCPU j]
    by (intro adjust_resource_max [OF assms(1,2) s1 assms(4) a2]) auto
  ultimately show ?thesis
    using adjust_resource_max_other [OF a2, of ResourceMemory j] errs by simp
qed

lemma adjust_item_errors: "adjust_item L (r, errs) item = (r', errs') \<Longrightarrow> \<exists>t. errs' = errs @ t"
proof (cases "counts item")
  case True
  assume a: "adjust_item L (r, errs) item = (r', errs')"
  obtain r1 e1 where a1: "adjust_resource L ResourceMemory item (r, errs) = (r1, e1)"
    by (meson surj_pair)
  with True a have a2: "adjust_resource L ResourceCPU item (r1, e1) = (r', errs')"
    by (auto simp: adjust_item_def counts_def)
  from adjust_resource_errors [OF a1] adjust_resource_errors [OF a2] show ?thesis by auto
qed (auto simp: adjust_item_def counts_def)

lemma foldl_adjust_errors: "foldl (adjust_item L) (r, errs) items = (r', []) \<Longrightarrow> errs = []"
proof (induction items arbitrary: r errs)
  case (Cons i items)
  obtain r1 e1 where a1: "adjust_item L (r, errs) i = (r1, e1)"
    by (meson surj_pair)
  with Cons have "e1 = []" by simp
  with adjust_item_errors [OF a1] show ?case by simp
qed simp

lemma adjust_items_max:
  assumes "quantity_laws L" and "\<forall>i \<in> set items. sane_item i \<and> compatible i j" and "sane_req r"
    and "foldl (adjust_item L) (r, errs) items = (r', [])"
    and "j \<in> set items \<and> counts j \<or> within_both j r"
  shows "within_both j r'"
  using assms(2-5)
proof (induction items arbitrary: r errs)
  case Nil
  then show ?case by simp
next
  case (Cons i items)
  obtain r1 e1 where a1: "adjust_item L (r, errs) i = (r1, e1)"
    by (meson surj_pair)
  with Cons.prems have a2: "foldl (adjust_item L) (r1, e1) items = (r', [])"
    by simp
  have i: "sane_item i" "compatible i j"
    using Cons.prems(1) by simp_all
  have e1: "e1 = []"
    using a2 by (rule foldl_adjust_errors)
  have s1: "sane_req r1"
    using adjust_item_step [OF assms(1) i(1) Cons.prems(2) a1] by simp
  have "j \<in> set items \<and> counts j \<or> within_both j r1"
    using Cons.prems(4) adjust_item_max [OF assms(1) i(1) Cons.prems(2) i(2) a1 [unfolded e1]] by auto
  with Cons.prems(1) s1 a2 show ?case
    by (intro Cons.IH) simp_all
qed

text \<open>C28: when the LimitRanges do not contradict each other (no minimum above a maximum) and no error is
  reported, every request and limit of memory and cpu ends at or below the maximum of every
  Container and Pod item.\<close>

theorem adjustContainerResourceRequirements_max:
  assumes "quantity_laws L" and "sane_req r"
    and "\<forall>i \<in> set (concat (map lr_Limits lrs)). sane_item i"
    and "\<forall>i \<in> set (concat (map lr_Limits lrs)). \<forall>j \<in> set (concat (map lr_Limits lrs)). compatible i j"
    and "adjustContainerResourceRequirements L r lrs = (r', None)"
    and "j \<in> set (concat (map lr_Limits lrs))" and "counts j"
  shows "within_max j ResourceMemory r' \<and> within_max j ResourceCPU r'"
proof -
  let ?items = "concat (map lr_Limits lrs)"
  have f: "foldl (adjust_item L) (r, []) ?items = (r', [])"
    using assms(5) by (auto simp: adjust_all_items split: prod.splits if_splits)
  have "\<forall>i \<in> set ?items. sane_item i \<and> compatible i j"
    using assms(3,4,6) by blast
  from adjust_items_max [OF assms(1) this assms(2) f] assms(6,7) show ?thesis by blast
qed

section \<open>Rounding\<close>

lemma round_half_down_abs:
  assumes "d \<noteq> 0"
  shows "\<bar>round_half_down n d\<bar> \<le> \<bar>n\<bar>"
proof (rule ccontr)
  define p where "p = round_half_down n d * d"
  have "2 * \<bar>n - p\<bar> \<le> \<bar>d\<bar>"
    unfolding p_def by (rule round_half_down_nearest [OF assms])
  then have up: "2 * \<bar>p\<bar> \<le> 2 * \<bar>n\<bar> + \<bar>d\<bar>"
    by (simp add: abs_if split: if_splits)
  assume "\<not> \<bar>round_half_down n d\<bar> \<le> \<bar>n\<bar>"
  then have "(\<bar>n\<bar> + 1) * \<bar>d\<bar> \<le> \<bar>p\<bar>"
    unfolding p_def abs_mult by (intro mult_right_mono) simp_all
  moreover have "\<bar>n\<bar> * 1 \<le> \<bar>n\<bar> * \<bar>d\<bar>"
    using assms by (intro mult_left_mono) simp_all
  moreover have "0 < \<bar>d\<bar>"
    using assms by simp
  ultimately show False
    using up by (simp add: distrib_right)
qed

text \<open>C29: the quotient of two quantities in thousandths is the nearest integer, ties rounded towards zero,
  whenever the scaled numerator fits 64 bits; a zero denominator gives zero.\<close>

theorem quoMilliRoundHalfDown_correct:
  assumes "in_int64 (l_qMilliValue L num * 1000)" and "0 \<le> l_qMilliValue L num"
  shows "(l_qMilliValue L denom = 0 \<longrightarrow> quoMilliRoundHalfDown L num denom = 0)
    \<and> (l_qMilliValue L denom \<noteq> 0 \<longrightarrow>
        (let n = l_qMilliValue L num * 1000; d = l_qMilliValue L denom; q = quoMilliRoundHalfDown L num denom
         in 2 * \<bar>n - q * d\<bar> \<le> \<bar>d\<bar> \<and> (2 * \<bar>n - q * d\<bar> = \<bar>d\<bar> \<longrightarrow> \<bar>q * d\<bar> \<le> \<bar>n\<bar>)))"
proof (cases "l_qMilliValue L denom = 0")
  case True
  then show ?thesis by (simp add: quoMilliRoundHalfDown_eq)
next
  case False
  let ?n = "l_qMilliValue L num * 1000" and ?d = "l_qMilliValue L denom"
  have "\<bar>round_half_down ?n ?d\<bar> \<le> ?n"
    using round_half_down_abs [OF False, of ?n] assms(2) by simp
  then have "in_int64 (round_half_down ?n ?d)"
    using assms(1) by (simp add: in_int64_def int64_min_def int64_max_def abs_if split: if_splits)
  with False have "quoMilliRoundHalfDown L num denom = round_half_down ?n ?d"
    by (simp add: quoMilliRoundHalfDown_eq wrap64_id)
  with False show ?thesis
    using round_half_down_nearest [OF False, of ?n] round_half_down_tie [OF False, of ?n]
    by (simp add: Let_def)
qed

theorem quoMilliRoundHalfDown_correct_witness:
  "in_int64 (l_qMilliValue fx_lib (Quantity 10000000) * 1000) \<and> 0 \<le> l_qMilliValue fx_lib (Quantity 10000000)
   \<and> quoMilliRoundHalfDown fx_lib (Quantity 10000000) (Quantity 0) = 0
   \<and> quoMilliRoundHalfDown fx_lib (Quantity 10000000) (Quantity 3000000) = 3333"
  using quoMilliRoundHalfDown_correct [of fx_lib "Quantity 10000000" "Quantity 0"]
  by (simp add: quoMilliRoundHalfDown_eq round_half_down_def wrap64_def in_int64_def
      int64_min_def int64_max_def signed_divide_int_def signed_modulo_int_def)

section \<open>Witnesses and conflicting LimitRanges\<close>

definition fx_item :: "int option \<Rightarrow> int option \<Rightarrow> LimitRangeItem" where
  "fx_item mn mx =
     \<lparr>lri_Type = ''Container'',
      lri_Max = (\<lambda>k. if k = ResourceMemory then map_option Quantity mx else None),
      lri_Min = (\<lambda>k. if k = ResourceMemory then map_option Quantity mn else None),
      lri_MaxLimitRequestRatio = Map.empty\<rparr>"

definition fx_limitRange :: "LimitRangeItem list \<Rightarrow> LimitRange" where
  "fx_limitRange items = \<lparr>lr_Meta = fx_meta ''limits'', lr_Limits = items\<rparr>"

definition fx_requirements :: ResourceRequirements where
  "fx_requirements = \<lparr>rr_Limits = [ResourceMemory \<mapsto> Quantity 50000000], rr_Requests = [ResourceMemory \<mapsto> Quantity 50000000]\<rparr>"

definition fx_raised :: ResourceRequirements where
  "fx_raised = \<lparr>rr_Limits = [ResourceMemory \<mapsto> Quantity 60000000], rr_Requests = [ResourceMemory \<mapsto> Quantity 60000000]\<rparr>"

lemmas fx_resource_defs = fx_item_def fx_limitRange_def fx_requirements_def fx_raised_def
  adjust_all_items adjust_item_def adjust_resource_def check_range_def check_ratio_def

lemma fx_adjust:
  "adjustContainerResourceRequirements fx_lib fx_requirements
     [fx_limitRange [fx_item (Some 60000000) (Some 70000000)]] = (fx_raised, None)"
  by (simp add: fx_resource_defs)

lemma fx_sane: "sane_req fx_requirements" "sane_item (fx_item (Some 60000000) (Some 70000000))"
  by (auto simp: sane_req_def sane_item_def sane_list_def sane_def fx_requirements_def fx_item_def
      split: if_splits)

theorem adjustContainerResourceRequirements_min_witness:
  "quantity_laws fx_lib \<and> sane_req fx_requirements
   \<and> req_grows fx_requirements fx_raised
   \<and> meets_min (fx_item (Some 60000000) (Some 70000000)) ResourceMemory fx_raised"
  using adjustContainerResourceRequirements_min [OF fx_quantity_laws fx_sane(1) _ fx_adjust]
    fx_sane fx_quantity_laws
  by (simp add: fx_limitRange_def counts_def) (simp add: fx_item_def)

theorem adjustContainerResourceRequirements_max_witness:
  "counts (fx_item (Some 60000000) (Some 70000000)) \<and>
   within_max (fx_item (Some 60000000) (Some 70000000)) ResourceMemory fx_raised"
proof -
  have c: "counts (fx_item (Some 60000000) (Some 70000000))"
    by (simp add: counts_def fx_item_def)
  have "compatible (fx_item (Some 60000000) (Some 70000000)) (fx_item (Some 60000000) (Some 70000000))"
    by (simp add: compatible_def fx_item_def)
  with c fx_sane show ?thesis
    using adjustContainerResourceRequirements_max [OF fx_quantity_laws fx_sane(1) _ _ fx_adjust]
    by (simp add: fx_limitRange_def)
qed

text \<open>The maximum is compared with the value before it was raised to the minimum, so LimitRanges that
  contradict each other go unnoticed: no error is reported although the memory ends above the maximum of the first one.\<close>

theorem conflicting_limit_ranges_unnoticed:
  "\<exists>r'. adjustContainerResourceRequirements fx_lib fx_requirements
      [fx_limitRange [fx_item None (Some 55000000)], fx_limitRange [fx_item (Some 60000000) None]] = (r', None)
    \<and> \<not> within_max (fx_item None (Some 55000000)) ResourceMemory r'"
  by (rule exI [of _ fx_raised]) (simp add: fx_resource_defs within_max_def)

end
