(* ===== verification/Exposer_Objects.thy ===== *)
theory Exposer_Objects
  imports Route_Controller Temporary_Name Resources
begin

text \<open>
  The exposer of an http-01 challenge, the part of \<^verbatim>\<open>sync\<close> that builds it
  (\<^verbatim>\<open>pkg/controller/route/route.go\<close>, the pending challenge): a Route for the challenge path, a Secret with
  the response, a ReplicaSet of exposer pods and a Service in front of them. Each object is
  read from the cache or created, and then checked to be owned and to carry the id of the
  challenge. \<^verbatim>\<open>filterOutAnnotations\<close> and \<^verbatim>\<open>filterOutLabels\<close> modify the map they are given;
  here they return it.
\<close>

section \<open>Definitions\<close>

definition filterOutAnnotations :: "lib \<Rightarrow> gomap \<Rightarrow> gomap" where
  "filterOutAnnotations L annotations =
     (case annotations of
        None \<Rightarrow> None
      | Some m0 \<Rightarrow>
          (let m = m0(''haproxy.router.openshift.io/ip_whitelist'' := None) in
           case m AcmeExposerHTTPFilterOutAnnotationsAnnotation of
             None \<Rightarrow> Some m
           | Some regexString \<Rightarrow>
               if regexString = [] then Some m
               else case l_regexpCompile L regexString of
                      None \<Rightarrow> Some m
                    | Some matches \<Rightarrow> Some (\<lambda>k. if matches k then None else m k)))"

definition filterOutLabels :: "lib \<Rightarrow> gomap \<Rightarrow> gomap \<Rightarrow> gomap" where
  "filterOutLabels L labels annotations =
     (case labels of
        None \<Rightarrow> None
      | Some m \<Rightarrow>
          (case mget annotations AcmeExposerHTTPFilterOutLabelsAnnotation of
             None \<Rightarrow> Some m
           | Some regexString \<Rightarrow>
               if regexString = [] then Some m
               else case l_regexpCompile L regexString of
                      None \<Rightarrow> Some m
                    | Some matches \<Rightarrow> Some (\<lambda>k. if matches k then None else m k)))"

definition exposerPodSecurityContext :: PodSecurityContext where
  "exposerPodSecurityContext =
     \<lparr>psc_RunAsNonRoot = Some True, psc_SeccompProfileType = Some ''RuntimeDefault''\<rparr>"

definition exposerContainerSecurityContext :: SecurityContext where
  "exposerContainerSecurityContext =
     \<lparr>sc_AllowPrivilegeEscalation = Some False, sc_ReadOnlyRootFilesystem = Some True,
      sc_CapabilitiesDrop = Some [''ALL'']\<rparr>"

text \<open>The owner reference to a Route, as \<^verbatim>\<open>sync\<close> and \<^verbatim>\<open>syncRouteToSecret\<close> write it.\<close>

definition ownerRefTo :: "lib \<Rightarrow> ObjectMeta \<Rightarrow> OwnerReference" where
  "ownerRefTo L m =
     \<lparr>or_APIVersion = l_RouteGroupVersion L, or_Kind = controllerKind_Kind,
      or_Name = om_Name m, or_UID = om_UID m, or_Controller = Some True\<rparr>"

definition ensure_map :: "gomap \<Rightarrow> gomap" where
  "ensure_map m = (case m of None \<Rightarrow> Some Map.empty | Some _ \<Rightarrow> m)"

definition exposerID :: "lib \<Rightarrow> Route \<Rightarrow> string \<Rightarrow> string" where
  "exposerID L route token = Join [spec_Host (rt_Spec route), l_HTTP01ChallengePath L token] '':''"

definition desiredExposerRoute :: "lib \<Rightarrow> string \<Rightarrow> Route \<Rightarrow> string \<Rightarrow> string \<Rightarrow> string \<Rightarrow> Route" where
  "desiredExposerRoute L key route xid tmpName token =
     (let meta0 = rt_Meta route;
          annotations0 = filterOutAnnotations L (om_Annotations meta0);
          labels0 = filterOutLabels L (om_Labels meta0) annotations0;
          meta1 = meta0
            \<lparr>om_Annotations := annotations0, om_Labels := labels0,
             om_Name := tmpName, om_ResourceVersion := [],
             om_OwnerReferences := [ownerRefTo L meta0]\<rparr>;
          meta2 = meta1
            \<lparr>om_Annotations := mput (mput (ensure_map (om_Annotations meta1)) AcmeExposerID xid) AcmeExposerKey key,
             om_Labels := mput (mput (ensure_map (om_Labels meta1)) AcmeTemporaryLabel ''true'')
               AcmeExposerUID (om_UID meta0)\<rparr>
      in route
           \<lparr>rt_Meta := meta2,
            rt_Spec := (rt_Spec route)
              \<lparr>spec_Path := l_HTTP01ChallengePath L token, spec_Port := None,
               spec_TLS := Some
                 \<lparr>tls_Termination = ''edge'', tls_Certificate = [], tls_Key = [], tls_CACertificate = [],
                  tls_DestinationCACertificate = [], tls_InsecureEdgeTerminationPolicy = ''Allow''\<rparr>,
               spec_To := \<lparr>to_Kind = ''Service'', to_Name = tmpName, to_Weight = None\<rparr>\<rparr>\<rparr>)"

text \<open>The metadata the Secret, the ReplicaSet and the Service of a challenge are created with.\<close>

definition exposerMeta :: "lib \<Rightarrow> string \<Rightarrow> Route \<Rightarrow> string \<Rightarrow> string \<Rightarrow> Route \<Rightarrow> ObjectMeta" where
  "exposerMeta L key route xid tmpName exposerRoute =
     \<lparr>om_Name = tmpName, om_Namespace = [], om_UID = [], om_ResourceVersion = [], om_Generation = 0,
      om_CreationTimestamp = zero_time, om_DeletionTimestamp = None,
      om_Annotations = Some [AcmeExposerID \<mapsto> xid, AcmeExposerKey \<mapsto> key],
      om_Labels = Some [AcmeTemporaryLabel \<mapsto> ''true'', AcmeExposerUID \<mapsto> om_UID (rt_Meta route)],
      om_OwnerReferences = [ownerRefTo L (rt_Meta exposerRoute)]\<rparr>"

definition desiredExposerSecret ::
  "lib \<Rightarrow> string \<Rightarrow> Route \<Rightarrow> string \<Rightarrow> string \<Rightarrow> Route \<Rightarrow> string \<Rightarrow> string \<Rightarrow> Secret" where
  "desiredExposerSecret L key route xid tmpName exposerRoute challengePath challengeResponse =
     \<lparr>sec_Meta = exposerMeta L key route xid tmpName exposerRoute,
      sec_Type = [], sec_Data = None,
      sec_StringData = Some [ExposerFileKey \<mapsto> challengePath @ '' '' @ challengeResponse]\<rparr>"

definition exposerRequirements :: "lib \<Rightarrow> ResourceRequirements" where
  "exposerRequirements L =
     \<lparr>rr_Limits =
        [ResourceCPU \<mapsto> l_NewMilliQuantity L 100, ResourceMemory \<mapsto> l_NewQuantity L (50 * (1024 * 1024))],
      rr_Requests =
        [ResourceCPU \<mapsto> l_NewMilliQuantity L 5, ResourceMemory \<mapsto> l_NewQuantity L (50 * (1024 * 1024))]\<rparr>"

definition podLabels :: "string \<Rightarrow> gomap" where
  "podLabels tmpName = Some [''app'' \<mapsto> tmpName]"

definition desiredExposerRS ::
  "lib \<Rightarrow> RouteController \<Rightarrow> string \<Rightarrow> Route \<Rightarrow> string \<Rightarrow> string \<Rightarrow> Route \<Rightarrow> Secret \<Rightarrow> ResourceRequirements \<Rightarrow> ReplicaSet" where
  "desiredExposerRS L rc key route xid tmpName exposerRoute exposerSecret resources =
     \<lparr>rps_Meta = exposerMeta L key route xid tmpName exposerRoute,
      rps_Replicas = 2,
      rps_SelectorMatchLabels = podLabels tmpName,
      rps_TemplateLabels = podLabels tmpName,
      rps_TemplateSpec =
        \<lparr>pod_SecurityContext = exposerPodSecurityContext,
         pod_Containers =
           [\<lparr>ctr_Name = ''exposer'', ctr_Image = rc_exposerImage rc,
             ctr_Command = [''openshift-acme-exposer''],
             ctr_Args = [''--response-file=/etc/openshift-acme-exposer/'' @ ExposerFileKey],
             ctr_Ports = [\<lparr>cp_Name = ''http'', cp_Protocol = ''TCP'', cp_ContainerPort = 5000\<rparr>],
             ctr_VolumeMounts =
               [\<lparr>vm_Name = ''exposer-data'', vm_ReadOnly = True, vm_MountPath = ''/etc/openshift-acme-exposer''\<rparr>],
             ctr_Resources = resources,
             ctr_SecurityContext = exposerContainerSecurityContext\<rparr>],
         pod_Volumes = [\<lparr>vol_Name = ''exposer-data'', vol_SecretName = om_Name (sec_Meta exposerSecret)\<rparr>]\<rparr>,
      rps_ObservedGeneration = 0, rps_StatusReplicas = 0, rps_AvailableReplicas = 0\<rparr>"

definition desiredExposerService :: "lib \<Rightarrow> string \<Rightarrow> Route \<Rightarrow> string \<Rightarrow> string \<Rightarrow> Route \<Rightarrow> Service" where
  "desiredExposerService L key route xid tmpName exposerRoute =
     \<lparr>svc_Meta = exposerMeta L key route xid tmpName exposerRoute,
      svc_Selector = podLabels tmpName,
      svc_Type = ''ClusterIP'',
      svc_Ports = [\<lparr>sp_Name = ''http'', sp_Protocol = ''TCP'', sp_Port = 80, sp_TargetPort = 5000\<rparr>]\<rparr>"

subsection \<open>Read or create, then check\<close>

text \<open>
  The four objects go through the same steps in the code: get from the lister; only on a
  not-found error create; then check the owner, then the id. \<open>msg\<close> tags the errors of one kind of object.
\<close>

definition get_or_create :: "'o io \<Rightarrow> 'o io \<Rightarrow> 'o io" where
  "get_or_create get create =
     bind_io (attempt get) (\<lambda>r.
       case r of
         Inr o0 \<Rightarrow> ret o0
       | Inl err \<Rightarrow> (if err = K8sErr NotFound then create else throw err))"

definition check_exposer :: "lib \<Rightarrow> string \<Rightarrow> ObjectMeta \<Rightarrow> string \<Rightarrow> ObjectMeta \<Rightarrow> unit io" where
  "check_exposer L msg owner xid m =
     (if \<not> l_IsControlledBy L m owner then throw (Errorf (msg @ '' already exists and isn't owned''))
      else case mget (om_Annotations m) AcmeExposerID of
             None \<Rightarrow> throw (Errorf (msg @ '' misses exposer id''))
           | Some gotID \<Rightarrow>
               if gotID \<noteq> xid then throw (Errorf (msg @ '' id missmatch'')) else ret ())"

definition ensure_exposer ::
  "lib \<Rightarrow> string \<Rightarrow> ('o \<Rightarrow> ObjectMeta) \<Rightarrow> ObjectMeta \<Rightarrow> string \<Rightarrow> 'o io \<Rightarrow> 'o io \<Rightarrow> 'o io" where
  "ensure_exposer L msg meta owner xid get create =
     bind_io (get_or_create get create) (\<lambda>o0.
       seq_io (check_exposer L msg owner xid (meta o0)) (ret o0))"

definition ensureExposerRoute :: "lib \<Rightarrow> env \<Rightarrow> RouteController \<Rightarrow> Route \<Rightarrow> string \<Rightarrow> Route \<Rightarrow> Route io" where
  "ensureExposerRoute L E rc route xid desired =
     (let ns = om_Namespace (rt_Meta route) in
      ensure_exposer L ''exposer route'' rt_Meta (rt_Meta route) xid
        (routeLister E (rc_routeInformers rc) ns (om_Name (rt_Meta desired)))
        (createRoute E ns desired))"

definition ensureExposerSecret ::
  "lib \<Rightarrow> env \<Rightarrow> RouteController \<Rightarrow> Route \<Rightarrow> string \<Rightarrow> Route \<Rightarrow> Secret \<Rightarrow> Secret io" where
  "ensureExposerSecret L E rc route xid exposerRoute desired =
     (let ns = om_Namespace (rt_Meta route) in
      ensure_exposer L ''exposer secret'' sec_Meta (rt_Meta exposerRoute) xid
        (secretLister E (rc_kubeInformers rc) ns (om_Name (sec_Meta desired)))
        (createSecret E ns desired))"

definition ensureExposerRS ::
  "lib \<Rightarrow> env \<Rightarrow> RouteController \<Rightarrow> Route \<Rightarrow> string \<Rightarrow> Route \<Rightarrow> ReplicaSet \<Rightarrow> ReplicaSet io" where
  "ensureExposerRS L E rc route xid exposerRoute desired =
     (let ns = om_Namespace (rt_Meta route) in
      ensure_exposer L ''exposer RS'' rps_Meta (rt_Meta exposerRoute) xid
        (replicaSetLister E (rc_kubeInformers rc) ns (om_Name (rps_Meta desired)))
        (createReplicaSet E ns desired))"

definition ensureExposerService ::
  "lib \<Rightarrow> env \<Rightarrow> RouteController \<Rightarrow> Route \<Rightarrow> string \<Rightarrow> Route \<Rightarrow> Service \<Rightarrow> Service io" where
  "ensureExposerService L E rc route xid exposerRoute desired =
     (let ns = om_Namespace (rt_Meta route) in
      ensure_exposer L ''exposer service'' svc_Meta (rt_Meta exposerRoute) xid
        (serviceLister E (rc_kubeInformers rc) ns (om_Name (svc_Meta desired)))
        (createService E ns desired))"

section \<open>The contract of an exposer object\<close>

text \<open>
  \<open>owned_exposer\<close> is what the rest of \<^verbatim>\<open>sync\<close> relies on after an object was ensured. The locale
  states what a kind of object provides: a lister that only reads the cache and a create call
  that issues one request.
\<close>

definition owned_exposer :: "lib \<Rightarrow> ObjectMeta \<Rightarrow> string \<Rightarrow> ObjectMeta \<Rightarrow> bool" where
  "owned_exposer L owner xid m \<longleftrightarrow>
     l_IsControlledBy L m owner \<and> mget (om_Annotations m) AcmeExposerID = Some xid"

lemma check_exposer_eq:
  "check_exposer L msg owner xid m h = (r, h') \<longleftrightarrow>
     h' = h \<and> (if owned_exposer L owner xid m then r = Inr () else r = Inl (Errorf (msg @
       (if \<not> l_IsControlledBy L m owner then '' already exists and isn't owned''
        else if mget (om_Annotations m) AcmeExposerID = None then '' misses exposer id''
        else '' id missmatch''))))"
  by (auto simp: check_exposer_def owned_exposer_def io_defs split: option.splits)

locale exposer_object =
  fixes lister :: "env \<Rightarrow> informers \<Rightarrow> string \<Rightarrow> string \<Rightarrow> 'o io"
    and create :: "env \<Rightarrow> string \<Rightarrow> 'o \<Rightarrow> 'o io"
    and meta :: "'o \<Rightarrow> ObjectMeta"
    and created :: "string \<Rightarrow> 'o \<Rightarrow> k8s_error + 'o \<Rightarrow> ev"
  assumes lister_reads: "emits is_read (lister E i ns n)"
    and create_event: "\<exists>r. create E ns d h = (map_sum K8sErr (\<lambda>x. x) r, h @ [created ns d r])"
begin

abbreviation ensure :: "lib \<Rightarrow> string \<Rightarrow> env \<Rightarrow> informers \<Rightarrow> string \<Rightarrow> string \<Rightarrow> ObjectMeta \<Rightarrow> string \<Rightarrow> 'o \<Rightarrow> 'o io" where
  "ensure L msg E i ns n owner xid d \<equiv> ensure_exposer L msg meta owner xid (lister E i ns n) (create E ns d)"

text \<open>An object that is returned is owned by the expected Route and belongs to this challenge.\<close>

lemma ensure_owned:
  "ensure L msg E i ns n owner xid d h = (Inr x, h') \<Longrightarrow> owned_exposer L owner xid (meta x)"
  by (auto simp: ensure_exposer_def seq_io_def bind_io_Inr check_exposer_eq ret_def split: if_splits)

text \<open>The only request is the creation of the desired object, after the cache reported it missing.\<close>

lemma ensure_trace:
  assumes "ensure L msg E i ns n owner xid d h = (r, h')"
  shows "\<exists>t. list_all is_read t \<and>
    (h' = h @ t \<or> (fst (lister E i ns n h) = Inl (K8sErr NotFound) \<and> (\<exists>a. h' = h @ t @ [created ns d a])))"
proof -
  obtain g t where g: "lister E i ns n h = (g, h @ t)" "list_all is_read t"
    using lister_reads [of E i ns n] unfolding emits_def by (metis prod.collapse)
  have check: "snd (check_exposer L msg owner xid m h) = h" for m h
    using check_exposer_eq by (metis prod.collapse)
  obtain a where a: "create E ns d (h @ t) = (map_sum K8sErr (\<lambda>x. x) a, (h @ t) @ [created ns d a])"
    using create_event by blast
  show ?thesis
  proof (cases g)
    case (Inr x)
    with g assms check have "h' = h @ t"
      by (auto simp: ensure_exposer_def get_or_create_def io_defs split: prod.splits sum.splits)
        (metis snd_conv)+
    with g show ?thesis by blast
  next
    case (Inl e)
    show ?thesis
    proof (cases "e = K8sErr NotFound")
      case True
      with g a Inl assms check have "h' = h @ t @ [created ns d a]"
        by (cases a) (auto simp: ensure_exposer_def get_or_create_def io_defs split: prod.splits sum.splits
            dest: arg_cong [where f = snd] intro: sym [OF trans [OF _ check]] elim: trans [OF sym])
      with g Inl True show ?thesis by auto
    next
      case False
      with g Inl assms have "h' = h @ t"
        by (auto simp: ensure_exposer_def get_or_create_def io_defs split: prod.splits sum.splits if_splits)
      with g show ?thesis by blast
    qed
  qed
qed

lemma emits_ensure:
  assumes "\<And>e. is_read e \<Longrightarrow> Q e" and "\<And>a. Q (created ns d a)"
  shows "emits Q (ensure L msg E i ns n owner xid d)"
  unfolding emits_def
proof
  fix h
  obtain r h' where r: "ensure L msg E i ns n owner xid d h = (r, h')"
    by (cases "ensure L msg E i ns n owner xid d h")
  from ensure_trace [OF r] assms r show "\<exists>t. snd (ensure L msg E i ns n owner xid d h) = h @ t \<and> list_all Q t"
    by (fastforce simp: list_all_iff)
qed

end

lemma create_result:
  "\<exists>r. bind_io (call f e) (of_sum K8sErr) h = (map_sum K8sErr (\<lambda>x. x) r, h @ [e r])"
  by (rule exI [of _ "f h"]) (simp add: io_defs split: sum.splits)

interpretation xroute: exposer_object routeLister createRoute rt_Meta RouteCreate
  by unfold_locales (simp_all add: emits_cache createRoute_def create_result)

interpretation xsecret: exposer_object secretLister createSecret sec_Meta SecretCreate
  by unfold_locales (simp_all add: emits_cache createSecret_def create_result)

interpretation xrs: exposer_object replicaSetLister createReplicaSet rps_Meta ReplicaSetCreate
  by unfold_locales (simp_all add: emits_cache createReplicaSet_def create_result)

interpretation xservice: exposer_object serviceLister createService svc_Meta ServiceCreate
  by unfold_locales (simp_all add: emits_cache createService_def create_result)

section \<open>Properties\<close>

definition filtered_by :: "lib \<Rightarrow> gomap \<Rightarrow> string \<Rightarrow> string \<Rightarrow> bool" where
  "filtered_by L annotations name k \<longleftrightarrow>
     (\<exists>re matches. mget annotations name = Some re \<and> re \<noteq> [] \<and>
        l_regexpCompile L re = Some matches \<and> matches k)"

lemma ip_whitelist_name:
  "AcmeExposerHTTPFilterOutAnnotationsAnnotation \<noteq> ''haproxy.router.openshift.io/ip_whitelist''"
  by (simp add: api_names)

lemma mget_filterOutAnnotations:
  "mget (filterOutAnnotations L a) k =
     (if k = ''haproxy.router.openshift.io/ip_whitelist'' \<or>
         filtered_by L a AcmeExposerHTTPFilterOutAnnotationsAnnotation k
      then None else mget a k)"
  by (auto simp: filterOutAnnotations_def filtered_by_def mget_def Let_def ip_whitelist_name
      split: option.splits)

lemma mget_filterOutLabels:
  "mget (filterOutLabels L l a) k =
     (if filtered_by L a AcmeExposerHTTPFilterOutLabelsAnnotation k then None else mget l k)"
  by (auto simp: filterOutLabels_def filtered_by_def mget_def split: option.splits)

lemma mget_ensure_map [simp]: "mget (ensure_map m) k = mget m k"
  by (simp add: ensure_map_def mget_def split: option.splits)

lemma exposer_names [simp]:
  "AcmeExposerID \<noteq> AcmeExposerKey" "AcmeTemporaryLabel \<noteq> AcmeExposerUID"
  "AcmeExposerID \<noteq> ''haproxy.router.openshift.io/ip_whitelist''"
  "AcmeExposerKey \<noteq> ''haproxy.router.openshift.io/ip_whitelist''"
  by (simp_all add: api_names)

lemma desiredExposerRoute_annotations:
  "mget (om_Annotations (rt_Meta (desiredExposerRoute L key route xid tmpName token))) k =
     (if k = AcmeExposerKey then Some key else if k = AcmeExposerID then Some xid
      else mget (filterOutAnnotations L (om_Annotations (rt_Meta route))) k)"
  by (simp add: desiredExposerRoute_def Let_def mget_mput)

lemma desiredExposerRoute_labels:
  "mget (om_Labels (rt_Meta (desiredExposerRoute L key route xid tmpName token))) k =
     (if k = AcmeExposerUID then Some (om_UID (rt_Meta route))
      else if k = AcmeTemporaryLabel then Some ''true''
      else mget (filterOutLabels L (om_Labels (rt_Meta route))
             (filterOutAnnotations L (om_Annotations (rt_Meta route)))) k)"
  by (simp add: desiredExposerRoute_def Let_def mget_mput)

text \<open>
  None of the exposer objects carries the label \<^verbatim>\<open>ExposerForLabelName\<close>, unless a Route has it itself: a listing that selects by
  it, as the end-to-end tests do to see that the objects are gone, finds none of them at any time.
\<close>

lemma exposer_objects_lack_for_label:
  assumes "mget (om_Labels (rt_Meta route)) ExposerForLabelName = None"
  shows "mget (om_Labels (rt_Meta (desiredExposerRoute L key route xid tmpName token))) ExposerForLabelName = None"
    and "mget (om_Labels (exposerMeta L key route xid tmpName exposerRoute)) ExposerForLabelName = None"
proof -
  have "ExposerForLabelName \<noteq> AcmeExposerUID" "ExposerForLabelName \<noteq> AcmeTemporaryLabel"
    by (simp_all add: ExposerForLabelName_def api_names)
  with assms show "mget (om_Labels (rt_Meta (desiredExposerRoute L key route xid tmpName token))) ExposerForLabelName = None"
    "mget (om_Labels (exposerMeta L key route xid tmpName exposerRoute)) ExposerForLabelName = None"
    by (simp_all add: desiredExposerRoute_labels mget_filterOutLabels) (simp add: exposerMeta_def mget_def)
qed

text \<open>
  The exposer Route copies every annotation of the Route except the IP whitelist and the ones the
  user's expression matches, and every label except the ones the user's label expression matches (an
  empty or invalid expression filters nothing), on top of the ids of the exposer. The label expression is
  looked up after the annotations were filtered.
\<close>

theorem desiredExposerRoute_copies:
  "mget (om_Annotations (rt_Meta (desiredExposerRoute L key route xid tmpName token))) k =
     (if k = AcmeExposerKey then Some key else if k = AcmeExposerID then Some xid
      else if k = ''haproxy.router.openshift.io/ip_whitelist'' \<or>
              filtered_by L (om_Annotations (rt_Meta route)) AcmeExposerHTTPFilterOutAnnotationsAnnotation k
           then None
      else mget (om_Annotations (rt_Meta route)) k) \<and>
   mget (om_Labels (rt_Meta (desiredExposerRoute L key route xid tmpName token))) k =
     (if k = AcmeExposerUID then Some (om_UID (rt_Meta route))
      else if k = AcmeTemporaryLabel then Some ''true''
      else if filtered_by L (om_Annotations (rt_Meta route)) AcmeExposerHTTPFilterOutLabelsAnnotation k \<and>
              \<not> filtered_by L (om_Annotations (rt_Meta route)) AcmeExposerHTTPFilterOutAnnotationsAnnotation
                  AcmeExposerHTTPFilterOutLabelsAnnotation
           then None
      else mget (om_Labels (rt_Meta route)) k)"
proof -
  let ?a = "om_Annotations (rt_Meta route)"
  have "AcmeExposerHTTPFilterOutLabelsAnnotation \<noteq> ''haproxy.router.openshift.io/ip_whitelist''"
    by (simp add: api_names)
  then have "filtered_by L (filterOutAnnotations L ?a) AcmeExposerHTTPFilterOutLabelsAnnotation k \<longleftrightarrow>
      filtered_by L ?a AcmeExposerHTTPFilterOutLabelsAnnotation k \<and>
      \<not> filtered_by L ?a AcmeExposerHTTPFilterOutAnnotationsAnnotation AcmeExposerHTTPFilterOutLabelsAnnotation"
    unfolding filtered_by_def [of L "filterOutAnnotations L ?a"] mget_filterOutAnnotations
    by (auto simp: filtered_by_def)
  then show ?thesis
    by (simp add: desiredExposerRoute_annotations desiredExposerRoute_labels
        mget_filterOutAnnotations mget_filterOutLabels)
qed

text \<open>
  C25: no exposer object is managed. Whatever annotation the controller is configured with and
  whatever the Route carries, the exposer Route is temporary and not managed, so the controller never
  orders a certificate for its own exposer; and it carries the label the cleanup selects
  by, serves the challenge path of the same host, and admits plain HTTP.
\<close>

theorem exposer_never_managed:
  "let r = desiredExposerRoute L key route xid tmpName token in
     \<not> IsManaged (rt_Meta r) annotation \<and> IsTemporary (rt_Meta r) \<and>
     mget (om_Labels (rt_Meta r)) AcmeExposerUID = Some (om_UID (rt_Meta route)) \<and>
     spec_Host (rt_Spec r) = spec_Host (rt_Spec route) \<and>
     spec_Path (rt_Spec r) = l_HTTP01ChallengePath L token \<and>
     map_option tls_InsecureEdgeTerminationPolicy (spec_TLS (rt_Spec r)) = Some ''Allow''"
proof -
  let ?r = "desiredExposerRoute L key route xid tmpName token"
  have temp: "IsTemporary (rt_Meta ?r)"
    by (simp add: IsTemporary_def desiredExposerRoute_labels)
  then have "\<not> IsManaged (rt_Meta ?r) annotation"
    by (simp add: IsManaged_def split: option.splits)
  with temp show ?thesis
    by (simp add: Let_def desiredExposerRoute_labels) (simp add: desiredExposerRoute_def Let_def)
qed

text \<open>
  C24: ensuring an exposer object is safe: an object that is returned is controlled by the expected Route and
  carries the id of this challenge (so no foreign object and no object of another challenge is
  ever used), and the only request is one creation of the desired object, in the
  Route's namespace, after the cache reported it missing.
\<close>

theorem ensureExposerRoute_contract:
  assumes "ensureExposerRoute L E rc route xid desired h = (r, h')"
  shows "(\<forall>x. r = Inr x \<longrightarrow> owned_exposer L (rt_Meta route) xid (rt_Meta x)) \<and>
    (\<exists>t. list_all is_read t \<and>
      (h' = h @ t \<or>
       fst (routeLister E (rc_routeInformers rc) (om_Namespace (rt_Meta route)) (om_Name (rt_Meta desired)) h)
         = Inl (K8sErr NotFound) \<and>
       (\<exists>a. h' = h @ t @ [RouteCreate (om_Namespace (rt_Meta route)) desired a])))"
proof -
  note run = assms [unfolded ensureExposerRoute_def Let_def]
  from xroute.ensure_trace [OF run] show ?thesis
    using xroute.ensure_owned run by blast
qed

theorem ensureExposerRoute_contract_witness:
  "ensureExposerRoute fx_lib fx_env fx_rc fx_route ''id''
     (desiredExposerRoute fx_lib ''ns/web'' fx_route ''id'' ''exposer-1'' ''tok'') [] =
   (Inr (desiredExposerRoute fx_lib ''ns/web'' fx_route ''id'' ''exposer-1'' ''tok''),
    [CacheRead ''routes'' ''ns'' ''exposer-1'',
     RouteCreate ''ns'' (desiredExposerRoute fx_lib ''ns/web'' fx_route ''id'' ''exposer-1'' ''tok'')
       (Inr (desiredExposerRoute fx_lib ''ns/web'' fx_route ''id'' ''exposer-1'' ''tok''))]) \<and>
   owned_exposer fx_lib (rt_Meta fx_route) ''id''
     (rt_Meta (desiredExposerRoute fx_lib ''ns/web'' fx_route ''id'' ''exposer-1'' ''tok''))"
proof -
  let ?d = "desiredExposerRoute fx_lib ''ns/web'' fx_route ''id'' ''exposer-1'' ''tok''"
  have name: "om_Name (rt_Meta ?d) = ''exposer-1''" "om_OwnerReferences (rt_Meta ?d) = [ownerRefTo fx_lib (rt_Meta fx_route)]"
    by (simp_all add: desiredExposerRoute_def Let_def)
  have meta: "om_Namespace (rt_Meta fx_route) = ''ns''" "om_UID (rt_Meta fx_route) = ''web''"
    by (simp_all add: fx_defs)
  have run: "ensureExposerRoute fx_lib fx_env fx_rc fx_route ''id'' ?d [] =
      (Inr ?d, [CacheRead ''routes'' ''ns'' ''exposer-1'', RouteCreate ''ns'' ?d (Inr ?d)])"
    by (simp add: ensureExposerRoute_def Let_def ensure_exposer_def get_or_create_def check_exposer_def
        routeLister_def read_cache_def createRoute_def io_defs route_InformersForOrGlobal_def name
        NamespaceAll_def fx_rc_def fx_GetControllerOf_def ownerRefTo_def desiredExposerRoute_annotations
        meta)
  with ensureExposerRoute_contract [OF run] show ?thesis by blast
qed

end
