(* ===== verification/Route_Status.thy ===== *)
theory Route_Status
  imports Exposer_Objects
begin

text \<open>
  The status annotation of a Route (\<^verbatim>\<open>getStatus\<close>, \<^verbatim>\<open>setStatus\<close>, \<^verbatim>\<open>updateStatus\<close> of
  \<^verbatim>\<open>pkg/controller/route/route.go\<close>), the cleanup of the exposer and the certificate profile
  of a Route. \<^verbatim>\<open>setStatus\<close> modifies the status it is given, so it returns the new one.
\<close>

section \<open>Definitions\<close>

definition getStatus :: "lib \<Rightarrow> Route \<Rightarrow> gerror + Status" where
  "getStatus L routeReadOnly =
     (case om_Annotations (rt_Meta routeReadOnly) of
        None \<Rightarrow> Inr zero_Status
      | Some annotations \<Rightarrow>
          (case l_yamlUnmarshalStatus L (mget0 (Some annotations) AcmeStatusAnnotation) of
             None \<Rightarrow> Inl (Errorf ''can't decode status annotation'')
           | Some status \<Rightarrow> Inr status))"

definition setStatus :: "lib \<Rightarrow> ObjectMeta \<Rightarrow> Status \<Rightarrow> Status \<times> (gerror + ObjectMeta)" where
  "setStatus L obj status0 =
     (let status = status0\<lparr>st_ObservedGeneration := om_Generation obj\<rparr>
      in (status,
          case l_yamlMarshalStatus L status of
            None \<Rightarrow> Inl (Errorf ''can't encode status annotation'')
          | Some bytes \<Rightarrow> Inr (obj\<lparr>om_Annotations := mput (om_Annotations obj) AcmeStatusAnnotation bytes\<rparr>)))"

text \<open>
  The merge patch of \<^verbatim>\<open>updateStatus\<close> sets one annotation; encoding it, a map of strings, cannot fail.
\<close>

definition updateStatus :: "lib \<Rightarrow> env \<Rightarrow> Route \<Rightarrow> Status \<Rightarrow> unit io" where
  "updateStatus L E routeReadOnly status0 =
     (case setStatus L (rt_Meta routeReadOnly) status0 of
        (status, Inl err) \<Rightarrow> throw (Wrapf ''can't set status'' err)
      | (status, Inr newMeta) \<Rightarrow>
          if om_Annotations newMeta = om_Annotations (rt_Meta routeReadOnly) then ret ()
          else (case l_jsonMarshalStatus L status of
             None \<Rightarrow> throw (Wrapf ''can't marshal status for patch'' (LibErr ''json.Marshal''))
           | Some statusBytes \<Rightarrow>
               seq_io
                 (wrap_err ''can't update status''
                   (patchRouteAnnotation E (om_Namespace newMeta) (om_Name newMeta) (AcmeStatusAnnotation, statusBytes)))
                 (ret ())))"

definition CleanupExposerObjects :: "env \<Rightarrow> Route \<Rightarrow> unit io" where
  "CleanupExposerObjects E route =
     deleteRouteCollection E (om_Namespace (rt_Meta route)) (AcmeExposerUID, om_UID (rt_Meta route))"

text \<open>\<^verbatim>\<open>sync\<close> calls the cleanup for its effect: an error is logged and dropped.\<close>

definition cleanup_logged :: "env \<Rightarrow> Route \<Rightarrow> unit io" where
  "cleanup_logged E route = seq_io (attempt (CleanupExposerObjects E route)) (ret ())"

definition certProfileForRoute :: "Route \<Rightarrow> string \<Rightarrow> string" where
  "certProfileForRoute route defaultProfile =
     (case om_Annotations (rt_Meta route) of
        None \<Rightarrow> TrimSpace defaultProfile
      | Some annotations \<Rightarrow>
          (let profile = TrimSpace (mget0 (Some annotations) AcmeCertProfile)
           in if profile \<noteq> [] then profile else TrimSpace defaultProfile))"

definition GetSyncSecretName :: "Route \<Rightarrow> string option" where
  "GetSyncSecretName route =
     (case mget (om_Annotations (rt_Meta route)) AcmeSecretName of
        None \<Rightarrow> None
      | Some secretName \<Rightarrow> if secretName = [] then Some (om_Name (rt_Meta route)) else Some secretName)"

section \<open>Lemmas\<close>

text \<open>The status \<open>updateStatus\<close> stores for a Route.\<close>

definition stored_status :: "Route \<Rightarrow> Status \<Rightarrow> Status" where
  "stored_status route status = status\<lparr>st_ObservedGeneration := om_Generation (rt_Meta route)\<rparr>"

lemma setStatus_eq:
  "setStatus L (rt_Meta route) status =
     (stored_status route status,
      case l_yamlMarshalStatus L (stored_status route status) of
        None \<Rightarrow> Inl (Errorf ''can't encode status annotation'')
      | Some bytes \<Rightarrow> Inr ((rt_Meta route)\<lparr>om_Annotations := mput (om_Annotations (rt_Meta route)) AcmeStatusAnnotation bytes\<rparr>))"
  by (simp add: setStatus_def stored_status_def Let_def)

definition patches_status :: "lib \<Rightarrow> Route \<Rightarrow> Status \<Rightarrow> ev \<Rightarrow> bool" where
  "patches_status L route status e \<longleftrightarrow>
     (\<exists>bytes r. l_jsonMarshalStatus L (stored_status route status) = Some bytes \<and>
        e = RoutePatch (om_Namespace (rt_Meta route)) (om_Name (rt_Meta route)) (AcmeStatusAnnotation, bytes) r)"

lemma emits_updateStatus:
  assumes "\<And>e. patches_status L route status e \<Longrightarrow> Q e"
  shows "emits Q (updateStatus L E route status)"
  using assms
  by (auto simp: updateStatus_def setStatus_eq patches_status_def
      intro!: emits_throw emits_ret emits_seq emits_wrap_err emits_api_calls split: option.splits)

lemma emits_CleanupExposerObjects:
  "(\<And>r. Q (RouteDeleteCollection (om_Namespace (rt_Meta route)) (AcmeExposerUID, om_UID (rt_Meta route)) r)) \<Longrightarrow>
    emits Q (CleanupExposerObjects E route)"
  unfolding CleanupExposerObjects_def by (intro emits_api_calls)

lemma cleanup_logged_eq:
  "cleanup_logged E route h =
     (Inr (), h @ [RouteDeleteCollection (om_Namespace (rt_Meta route)) (AcmeExposerUID, om_UID (rt_Meta route))
        (e_apiRouteDeleteCollection E h (om_Namespace (rt_Meta route)) (AcmeExposerUID, om_UID (rt_Meta route)))])"
  by (auto simp: cleanup_logged_def CleanupExposerObjects_def deleteRouteCollection_def io_defs split: sum.splits)

lemma emits_cleanup_logged:
  "(\<And>r. Q (RouteDeleteCollection (om_Namespace (rt_Meta route)) (AcmeExposerUID, om_UID (rt_Meta route)) r)) \<Longrightarrow>
    emits Q (cleanup_logged E route)"
  unfolding cleanup_logged_def by (intro emits_seq emits_attempt emits_CleanupExposerObjects emits_ret)

section \<open>Properties\<close>

text \<open>
  When the status can be encoded, \<open>updateStatus\<close> leaves the Route alone exactly when its status annotation already
  is the YAML of the status, and otherwise issues one merge patch, for this Route, that sets the
  status annotation to the JSON of the status with the generation of the Route; it succeeds exactly when the patch does.
\<close>

theorem updateStatus_behaviour:
  assumes "l_yamlMarshalStatus L (stored_status route status) = Some yaml"
    and "l_jsonMarshalStatus L (stored_status route status) = Some json"
  shows "updateStatus L E route status h =
    (if mget (om_Annotations (rt_Meta route)) AcmeStatusAnnotation = Some yaml then (Inr (), h)
     else let ns = om_Namespace (rt_Meta route); name = om_Name (rt_Meta route);
              answer = e_apiRoutePatch E h ns name (AcmeStatusAnnotation, json)
          in ((case answer of Inl e \<Rightarrow> Inl (Wrapf ''can't update status'' (K8sErr e)) | Inr _ \<Rightarrow> Inr ()),
              h @ [RoutePatch ns name (AcmeStatusAnnotation, json) answer]))"
  using assms
  by (auto simp: updateStatus_def setStatus_eq mput_idem_iff patchRouteAnnotation_def Let_def io_defs
      split: sum.splits)

theorem updateStatus_behaviour_witness:
  "updateStatus fx_lib fx_env fx_route zero_Status [] =
     (Inl (Wrapf ''can't update status'' (K8sErr NotFound)),
      [RoutePatch ''ns'' ''web'' (AcmeStatusAnnotation, ''{}'') (Inl NotFound)])"
  by (subst updateStatus_behaviour [of _ _ _ "[]" "''{}''"])
    (simp_all add: stored_status_def zero_Status_def fx_defs api_names)

text \<open>
  The comparison that is meant to skip an unchanged status does not recognise what \<open>updateStatus\<close>
  itself stored: it compares with the YAML form but stores the JSON form. After a
  successful update, updating the same Route with the same status issues the patch again, whenever the
  two forms differ.
\<close>

theorem updateStatus_repeats_its_patch:
  assumes "l_yamlMarshalStatus L (stored_status route status) = Some yaml"
    and "l_jsonMarshalStatus L (stored_status route status) = Some json" and "yaml \<noteq> json"
    and "mget (om_Annotations (rt_Meta route)) AcmeStatusAnnotation = Some json"
  shows "\<exists>r. snd (updateStatus L E route status h) =
    h @ [RoutePatch (om_Namespace (rt_Meta route)) (om_Name (rt_Meta route)) (AcmeStatusAnnotation, json) r]"
  using assms
  by (auto simp: updateStatus_def setStatus_eq mput_idem_iff patchRouteAnnotation_def io_defs
      split: sum.splits)

theorem updateStatus_repeats_its_patch_witness:
  "let route = fx_route\<lparr>rt_Meta := (fx_meta ''web'')\<lparr>om_Annotations := Some [AcmeStatusAnnotation \<mapsto> ''{}'']\<rparr>\<rparr>
   in \<exists>r. snd (updateStatus fx_lib fx_env route zero_Status []) =
        [RoutePatch ''ns'' ''web'' (AcmeStatusAnnotation, ''{}'') r]"
proof -
  let ?route = "fx_route\<lparr>rt_Meta := (fx_meta ''web'')\<lparr>om_Annotations := Some [AcmeStatusAnnotation \<mapsto> ''{}'']\<rparr>\<rparr>"
  have "\<exists>r. snd (updateStatus fx_lib fx_env ?route zero_Status []) = [] @
      [RoutePatch (om_Namespace (rt_Meta ?route)) (om_Name (rt_Meta ?route)) (AcmeStatusAnnotation, ''{}'') r]"
    by (rule updateStatus_repeats_its_patch [of _ _ _ "[]"])
      (simp_all add: stored_status_def zero_Status_def)
  then show ?thesis by (simp add: Let_def fx_meta_def)
qed

end
