(* ===== verification/Issuer_Selection.thy ===== *)
theory Issuer_Selection
  imports Informers "HOL-Library.Multiset"
begin

text \<open>
  \<^verbatim>\<open>pkg/controllerutils/controllerutils.go\<close>: which issuer ConfigMap serves an object
  (\<^verbatim>\<open>getIssuerConfigMapsForObject\<close>, \<^verbatim>\<open>IssuerForObject\<close>) and the check of the exposed token
  (\<^verbatim>\<open>ValidateExposedToken\<close>). \<^verbatim>\<open>sort.Slice\<close> runs an insertion sort on up to twelve
  elements, which is modelled; its behaviour on longer slices is the parameter \<open>l_pdqsort\<close>.
\<close>

section \<open>Definitions\<close>

subsection \<open>strconv.Atoi and sort.Slice\<close>

definition is_digit :: "char \<Rightarrow> bool" where
  "is_digit c \<longleftrightarrow> CHR ''0'' \<le> c \<and> c \<le> CHR ''9''"

definition digit_value :: "char \<Rightarrow> int" where
  "digit_value c = of_char c - 48"

definition parse_digits :: "string \<Rightarrow> int option" where
  "parse_digits s =
     (if s \<noteq> [] \<and> list_all is_digit s then Some (foldl (\<lambda>n c. n * 10 + digit_value c) 0 s) else None)"

definition Atoi :: "string \<Rightarrow> int option" where
  "Atoi s =
     (let (neg, ds) = (case s of
             [] \<Rightarrow> (False, [])
           | c # cs \<Rightarrow> if c = CHR ''-'' then (True, cs) else if c = CHR ''+'' then (False, cs) else (False, s))
      in case parse_digits ds of
           None \<Rightarrow> None
         | Some n \<Rightarrow> let v = (if neg then - n else n) in if in_int64 v then Some v else None)"

text \<open>The sorted prefix is kept in reverse: the new element moves left while it is less.\<close>

fun sift :: "('a \<Rightarrow> 'a \<Rightarrow> bool) \<Rightarrow> 'a \<Rightarrow> 'a list \<Rightarrow> 'a list" where
  "sift lt x [] = [x]"
| "sift lt x (y # ys) = (if lt x y then y # sift lt x ys else x # y # ys)"

definition insertion_sort :: "('a \<Rightarrow> 'a \<Rightarrow> bool) \<Rightarrow> 'a list \<Rightarrow> 'a list" where
  "insertion_sort lt xs = rev (foldl (\<lambda>acc x. sift lt x acc) [] xs)"

definition sort_Slice :: "lib \<Rightarrow> (ConfigMap \<Rightarrow> ConfigMap \<Rightarrow> bool) \<Rightarrow> ConfigMap list \<Rightarrow> ConfigMap list" where
  "sort_Slice L lt xs = (if length xs \<le> 12 then insertion_sort lt xs else l_pdqsort L lt xs)"

subsection \<open>Issuer ConfigMaps\<close>

definition issuer_priority :: "ConfigMap \<Rightarrow> int" where
  "issuer_priority cm =
     (case mget (om_Annotations (cfg_Meta cm)) AcmePriorityAnnotation of
        None \<Rightarrow> 0
      | Some prio \<Rightarrow> if length prio \<noteq> 0 then (case Atoi prio of Some v \<Rightarrow> v | None \<Rightarrow> 0) else 0)"

definition issuer_less :: "ConfigMap \<Rightarrow> ConfigMap \<Rightarrow> bool" where
  "issuer_less lhs rhs =
     (if issuer_priority lhs < issuer_priority rhs then True
      else if om_CreationTimestamp (cfg_Meta lhs) > om_CreationTimestamp (cfg_Meta rhs) then True
      else False)"

definition getIssuerConfigMapsForObject ::
  "lib \<Rightarrow> env \<Rightarrow> ObjectMeta \<Rightarrow> string \<Rightarrow> informers \<Rightarrow> ConfigMap list io" where
  "getIssuerConfigMapsForObject L E obj globalIssuerNamespace kubeInformers =
     (let issuerName = mget0 (om_Annotations obj) AcmeCertIssuerName
      in if length issuerName > 0
         then bind_io (wrap_err ''can't get issuer'' (configMapLister E kubeInformers (om_Namespace obj) issuerName))
                (\<lambda>issuerConfigMap. ret [issuerConfigMap])
         else
           bind_io (wrap_err ''can't look up local issuers'' (issuerConfigMaps E kubeInformers (om_Namespace obj)))
           (\<lambda>localConfigMapList.
           bind_io (wrap_err ''can't look up global issuers'' (issuerConfigMaps E kubeInformers globalIssuerNamespace))
           (\<lambda>globalConfigMapList.
             let issuerConfigMaps = localConfigMapList @ globalConfigMapList
             in if length issuerConfigMaps < 1 then throw (Errorf ''can't find any issuer'')
                else ret (sort_Slice L issuer_less issuerConfigMaps))))"

definition IssuerForObject ::
  "lib \<Rightarrow> env \<Rightarrow> ObjectMeta \<Rightarrow> string \<Rightarrow> informers \<Rightarrow> (CertIssuer \<times> Secret) io" where
  "IssuerForObject L E obj globalIssuerNamespace kubeInformers =
     bind_io (getIssuerConfigMapsForObject L E obj globalIssuerNamespace kubeInformers)
     (\<lambda>issuerConfigMaps.
        case issuerConfigMaps of
          [] \<Rightarrow> throw (Panic ''index out of range'')
        | certIssuerCM # _ \<Rightarrow>
            (case mget (cfg_Data certIssuerCM) CertIssuerDataKey of
               None \<Rightarrow> throw (Errorf ''configmap is matching CertIssuer selectors but missing key'')
             | Some certIssuerData \<Rightarrow>
                 (case l_yamlUnmarshalCertIssuer L certIssuerData of
                    None \<Rightarrow> throw (Wrapf ''configmap is matching CertIssuer selectors but contains invalid object'' (LibErr ''yaml.Unmarshal''))
                  | Some certIssuer \<Rightarrow>
                      if length (ci_SecretName certIssuer) = 0
                      then throw (Errorf ''cert issuer is missing required secret'')
                      else bind_io (secretLister E kubeInformers (om_Namespace (cfg_Meta certIssuerCM)) (ci_SecretName certIssuer))
                             (\<lambda>secret. ret (certIssuer, secret)))))"

subsection \<open>The exposed token\<close>

text \<open>The body is what one \<^verbatim>\<open>Read\<close> into a buffer of 2048 bytes returns.\<close>

definition ValidateExposedToken :: "env \<Rightarrow> string \<Rightarrow> string \<Rightarrow> unit io" where
  "ValidateExposedToken E url expectedData =
     bind_io (call (\<lambda>h. e_httpGet E h url) (HttpGet url))
     (\<lambda>answer. case answer of
          Inl err \<Rightarrow> throw (Wrapf ''can't GET'' err)
        | Inr response \<Rightarrow>
            if hr_ReadError response then throw (Errorf ''can't read response body into buffer'')
            else
              let body = take 2048 (hr_FirstRead response)
              in if hr_StatusCode response \<noteq> 200
                 then throw (Errorf (''unexpected status code: content head: '' @ FirstNLines (MaxNCharacters body 160) 5))
                 else if body \<noteq> expectedData
                 then throw (Errorf ''response body doesn't match expected data'')
                 else ret ())"

section \<open>Sorting\<close>

lemma mset_sift: "mset (sift lt x ys) = add_mset x (mset ys)"
  by (induction ys) auto

lemma mset_insertion: "mset (foldl (\<lambda>acc x. sift lt x acc) acc xs) = mset acc + mset xs"
  by (induction xs arbitrary: acc) (auto simp: mset_sift)

lemma mset_insertion_sort: "mset (insertion_sort lt xs) = mset xs"
  by (simp add: insertion_sort_def mset_insertion)

lemma set_sift [simp]: "set (sift lt x ys) = insert x (set ys)"
  by (induction ys) auto

definition weak_order_on :: "'a set \<Rightarrow> ('a \<Rightarrow> 'a \<Rightarrow> bool) \<Rightarrow> bool" where
  "weak_order_on S lt \<longleftrightarrow>
     (\<forall>x \<in> S. \<forall>y \<in> S. lt x y \<longrightarrow> \<not> lt y x) \<and>
     (\<forall>x \<in> S. \<forall>y \<in> S. \<forall>z \<in> S. \<not> lt x y \<longrightarrow> \<not> lt y z \<longrightarrow> \<not> lt x z)"

lemma sift_sorted:
  assumes "weak_order_on S lt" and "set (x # ys) \<subseteq> S" and "sorted_wrt (\<lambda>a b. \<not> lt a b) ys"
  shows "sorted_wrt (\<lambda>a b. \<not> lt a b) (sift lt x ys)"
  using assms(2,3)
proof (induction ys)
  case Nil
  then show ?case by simp
next
  case (Cons y ys)
  show ?case
  proof (cases "lt x y")
    case True
    with assms(1) Cons.prems(1) have "\<not> lt y x"
      unfolding weak_order_on_def by auto
    with True Cons show ?thesis by simp
  next
    case False
    have "\<not> lt x z" if "z \<in> set ys" for z
    proof -
      have "\<not> lt y z" using Cons.prems(2) that by simp
      with False that Cons.prems(1) assms(1) show ?thesis
        unfolding weak_order_on_def by (meson list.set_intros subsetD)
    qed
    with False Cons.prems show ?thesis by simp
  qed
qed

lemma insertion_sorted:
  assumes "weak_order_on S lt" and "set acc \<union> set xs \<subseteq> S" and "sorted_wrt (\<lambda>a b. \<not> lt a b) acc"
  shows "sorted_wrt (\<lambda>a b. \<not> lt a b) (foldl (\<lambda>acc x. sift lt x acc) acc xs)"
  using assms(2,3)
proof (induction xs arbitrary: acc)
  case (Cons x xs)
  then show ?case
    using sift_sorted [OF assms(1), of x acc] by simp
qed simp

text \<open>Under a strict weak order the first element is not beaten by any other.\<close>

lemma insertion_sort_hd:
  assumes "weak_order_on (set xs) lt" and "insertion_sort lt xs = c # cs" and "x \<in> set xs"
  shows "\<not> lt x c"
proof -
  let ?acc = "foldl (\<lambda>acc x. sift lt x acc) [] xs"
  have acc: "?acc = rev cs @ [c]"
    using assms(2) by (simp add: insertion_sort_def rev_eq_Cons_iff)
  have "sorted_wrt (\<lambda>a b. \<not> lt a b) ?acc"
    using insertion_sorted [OF assms(1), of "[]" xs] by simp
  then have "\<forall>y \<in> set cs. \<not> lt y c"
    by (simp add: acc sorted_wrt_append)
  moreover have "set (c # cs) = set xs"
    using mset_insertion_sort [of lt xs] assms(2) by (metis set_mset_mset)
  moreover from this have "c \<in> set xs"
    by auto
  with assms(1) have "\<not> lt c c"
    unfolding weak_order_on_def by blast
  ultimately show ?thesis
    using assms(3) by auto
qed

section \<open>Selection\<close>

text \<open>The two criteria do not pull in opposite directions: no issuer of smaller priority number
  is older than one of a larger number.\<close>

definition consistent_issuers :: "ConfigMap list \<Rightarrow> bool" where
  "consistent_issuers cms \<longleftrightarrow>
     (\<forall>x \<in> set cms. \<forall>y \<in> set cms. issuer_priority x < issuer_priority y \<longrightarrow>
        om_CreationTimestamp (cfg_Meta y) \<le> om_CreationTimestamp (cfg_Meta x))"

lemma issuer_less_iff:
  "issuer_less x y \<longleftrightarrow> issuer_priority x < issuer_priority y \<or>
     om_CreationTimestamp (cfg_Meta y) < om_CreationTimestamp (cfg_Meta x)"
  by (simp add: issuer_less_def)

lemma issuer_less_weak_order:
  assumes "consistent_issuers cms"
  shows "weak_order_on (set cms) issuer_less"
proof -
  have "\<not> issuer_less y x" if "x \<in> set cms" "y \<in> set cms" "issuer_less x y" for x y
  proof -
    have "issuer_priority x < issuer_priority y \<longrightarrow>
        om_CreationTimestamp (cfg_Meta y) \<le> om_CreationTimestamp (cfg_Meta x)"
      and "issuer_priority y < issuer_priority x \<longrightarrow>
        om_CreationTimestamp (cfg_Meta x) \<le> om_CreationTimestamp (cfg_Meta y)"
      using assms that(1,2) by (simp_all add: consistent_issuers_def)
    with that(3) show ?thesis
      unfolding issuer_less_iff by linarith
  qed
  moreover have "\<not> issuer_less x z" if "\<not> issuer_less x y" "\<not> issuer_less y z" for x y z
    using that unfolding issuer_less_iff by linarith
  ultimately show ?thesis
    unfolding weak_order_on_def by blast
qed

definition best_issuer :: "ConfigMap \<Rightarrow> ConfigMap list \<Rightarrow> bool" where
  "best_issuer c cms \<longleftrightarrow> c \<in> set cms \<and>
     (\<forall>x \<in> set cms. issuer_priority c \<le> issuer_priority x \<and>
        (issuer_priority x = issuer_priority c \<longrightarrow>
           om_CreationTimestamp (cfg_Meta x) \<le> om_CreationTimestamp (cfg_Meta c)))"

lemma sort_Slice_best:
  assumes "length cms \<le> 12" and "consistent_issuers cms" and "sort_Slice L issuer_less cms = c # cs"
  shows "best_issuer c cms"
proof -
  have srt: "insertion_sort issuer_less cms = c # cs"
    using assms(1,3) by (simp add: sort_Slice_def)
  have "c \<in> set cms"
    using mset_insertion_sort [of issuer_less cms] srt by (metis list.set_intros(1) set_mset_mset)
  moreover have "\<not> issuer_less x c" if "x \<in> set cms" for x
    using insertion_sort_hd [OF issuer_less_weak_order [OF assms(2)] srt that] .
  ultimately show ?thesis
    by (auto simp: best_issuer_def issuer_less_iff not_less)
qed

lemma getIssuer_default:
  assumes "mget0 (om_Annotations obj) AcmeCertIssuerName = []"
    and "kube_InformersForOrGlobal i (om_Namespace obj) = Some fl" and "kube_InformersForOrGlobal i g = Some fg"
    and "\<And>h. e_configMapList E h (fac_Namespace fl) (om_Namespace obj) = Inr ls"
    and "\<And>h. e_configMapList E h (fac_Namespace fg) g = Inr gs"
  shows "fst (getIssuerConfigMapsForObject L E obj g i h) =
    (if ls @ gs = [] then Inl (Errorf ''can't find any issuer'')
     else Inr (sort_Slice L issuer_less (ls @ gs)))"
  using assms
  by (simp add: getIssuerConfigMapsForObject_def Let_def issuerConfigMaps_def read_cache_def io_defs)

text \<open>C30: an object that names no issuer is served by the best issuer among those of its own namespace
  and the global ones: the smallest priority number, the newest among equals. This needs at most twelve
  candidates whose priorities and ages do not contradict each other.\<close>

theorem getIssuerConfigMapsForObject_best:
  assumes "mget0 (om_Annotations obj) AcmeCertIssuerName = []"
    and "kube_InformersForOrGlobal i (om_Namespace obj) = Some fl" and "kube_InformersForOrGlobal i g = Some fg"
    and "\<And>h. e_configMapList E h (fac_Namespace fl) (om_Namespace obj) = Inr ls"
    and "\<And>h. e_configMapList E h (fac_Namespace fg) g = Inr gs"
    and "ls @ gs \<noteq> []" and "length (ls @ gs) \<le> 12" and "consistent_issuers (ls @ gs)"
  shows "\<exists>c cs. fst (getIssuerConfigMapsForObject L E obj g i h) = Inr (c # cs)
    \<and> best_issuer c (ls @ gs) \<and> mset (c # cs) = mset (ls @ gs)"
proof -
  have m: "mset (sort_Slice L issuer_less (ls @ gs)) = mset (ls @ gs)"
    using assms(7) by (simp add: sort_Slice_def mset_insertion_sort)
  with assms(6) obtain c cs where c: "sort_Slice L issuer_less (ls @ gs) = c # cs"
    by (cases "sort_Slice L issuer_less (ls @ gs)") auto
  with getIssuer_default [OF assms(1-5), of L h] assms(6) m sort_Slice_best [OF assms(7,8) c]
  show ?thesis by auto
qed

definition fx_cm :: "string \<Rightarrow> string \<Rightarrow> time \<Rightarrow> ConfigMap" where
  "fx_cm name prio created =
     \<lparr>cfg_Meta = (fx_meta name)\<lparr>om_CreationTimestamp := created,
        om_Annotations := Some [AcmePriorityAnnotation \<mapsto> prio]\<rparr>,
      cfg_Data = Some [CertIssuerDataKey \<mapsto> ''account'']\<rparr>"

lemma fx_cm_priority: "issuer_priority (fx_cm name ''5'' t) = 5" "issuer_priority (fx_cm name ''1'' t) = 1"
  by (simp_all add: issuer_priority_def fx_cm_def Atoi_def parse_digits_def is_digit_def digit_value_def
      in_int64_def int64_min_def int64_max_def less_eq_char_def)

lemma fx_cm_created: "om_CreationTimestamp (cfg_Meta (fx_cm name prio t)) = t"
  by (simp add: fx_cm_def)

theorem getIssuerConfigMapsForObject_best_witness:
  "\<exists>c cs. fst (getIssuerConfigMapsForObject fx_lib
       (fx_env\<lparr>e_configMapList := (\<lambda>h f ns. Inr [fx_cm ''live'' ''5'' 10, fx_cm ''staging'' ''1'' 20])\<rparr>)
       (fx_meta ''web'') ''ns'' (NewKubeInformersForNamespaces [''ns'']) []) = Inr (c # cs)
     \<and> issuer_priority c = 1"
proof -
  let ?ls = "[fx_cm ''live'' ''5'' 10, fx_cm ''staging'' ''1'' 20]"
  have "consistent_issuers (?ls @ ?ls)"
    by (simp add: consistent_issuers_def fx_cm_priority fx_cm_created)
  then have "\<exists>c cs. fst (getIssuerConfigMapsForObject fx_lib (fx_env\<lparr>e_configMapList := (\<lambda>h f ns. Inr ?ls)\<rparr>)
       (fx_meta ''web'') ''ns'' (NewKubeInformersForNamespaces [''ns'']) []) = Inr (c # cs)
     \<and> best_issuer c (?ls @ ?ls) \<and> mset (c # cs) = mset (?ls @ ?ls)"
    by (intro getIssuerConfigMapsForObject_best)
      (simp_all add: kube_InformersForOrGlobal_def NewKubeInformersForNamespaces_def fx_meta_def
        mget0_def api_names)
  then show ?thesis
    by (force simp: best_issuer_def fx_cm_priority)
qed

text \<open>The comparison is not an ordering when an older issuer has the smaller priority number: each of the two issuers
  is less than the other, and the one that is chosen depends only on the order in which the cache lists them.\<close>

theorem issuer_choice_depends_on_list_order:
  "\<exists>a b. issuer_less a b \<and> issuer_less b a
     \<and> hd (sort_Slice L issuer_less [a, b]) = b \<and> hd (sort_Slice L issuer_less [b, a]) = a
     \<and> a \<noteq> b \<and> issuer_priority a < issuer_priority b"
proof (intro exI conjI)
  let ?a = "fx_cm ''staging'' ''1'' 10" and ?b = "fx_cm ''live'' ''5'' 20"
  have ab: "issuer_less ?a ?b" and ba: "issuer_less ?b ?a"
    by (simp_all add: issuer_less_def fx_cm_priority fx_cm_created)
  then show "issuer_less ?a ?b" and "issuer_less ?b ?a" .
  show "hd (sort_Slice L issuer_less [?a, ?b]) = ?b" and "hd (sort_Slice L issuer_less [?b, ?a]) = ?a"
    using ab ba by (simp_all add: sort_Slice_def insertion_sort_def)
  show "?a \<noteq> ?b" by (simp add: fx_cm_def fx_meta_def)
  show "issuer_priority ?a < issuer_priority ?b" by (simp add: fx_cm_priority)
qed

text \<open>The exposed token is accepted exactly when the request succeeds, the body can be read, the status is 200 and
  the first 2048 bytes are the expected data; and the request is the only effect.\<close>

theorem ValidateExposedToken_accepts_iff:
  "(fst (ValidateExposedToken E url expected h) = Inr () \<longleftrightarrow>
      (\<exists>r. e_httpGet E h url = Inr r \<and> \<not> hr_ReadError r \<and> hr_StatusCode r = 200
         \<and> take 2048 (hr_FirstRead r) = expected))
   \<and> snd (ValidateExposedToken E url expected h) = h @ [HttpGet url (e_httpGet E h url)]"
  by (cases "e_httpGet E h url") (auto simp: ValidateExposedToken_def io_defs Let_def)

lemma emits_ValidateExposedToken [io_intro]:
  "(\<And>r. Q (HttpGet url r)) \<Longrightarrow> emits Q (ValidateExposedToken E url expected)"
  unfolding ValidateExposedToken_def by (intro io_intro) 

lemma emits_IssuerForObject [io_intro]:
  "(\<And>e. is_read e \<Longrightarrow> Q e) \<Longrightarrow> emits Q (IssuerForObject L E obj g i)"
  unfolding IssuerForObject_def getIssuerConfigMapsForObject_def
  by (intro io_intro allI) (auto intro!: io_intro split: list.splits)

end
