(* ===== verification/Challenge.thy ===== *)
theory Challenge
  imports Route_Status Issuer_Selection
begin

text \<open>
  The pending order of \<^verbatim>\<open>sync\<close> (\<^verbatim>\<open>pkg/controller/route/route.go\<close>): for each pending authorization the http-01
  challenge is exposed, checked by the controller itself and only then accepted. In the code this is one
  nested loop; here each level is a definition. The one \<^verbatim>\<open>return nil\<close> inside the loop, after the
  resources of the exposer pod could not be adjusted, ends \<^verbatim>\<open>sync\<close> without updating the
  status: the steps return \<open>ReturnNil\<close> for it and \<open>NextAuthz\<close> where the loop goes on.
\<close>

section \<open>Definitions\<close>

datatype loop_step = NextAuthz | ReturnNil

definition requeue15 :: "string \<Rightarrow> unit io" where
  "requeue15 key = log_ev (QueueAddAfter RouteQueue key (15 * 10 ^ 9))"

text \<open>
  The exposer of a pending challenge: Route, Secret, ReplicaSet and Service, in this order;
  \<open>exposePods\<close> is the part from the ReplicaSet on. \<open>None\<close> is the \<^verbatim>\<open>return nil\<close> after the event about the
  resource requirements.
\<close>

definition exposePods ::
  "lib \<Rightarrow> env \<Rightarrow> RouteController \<Rightarrow> string \<Rightarrow> Route \<Rightarrow> string \<Rightarrow> string \<Rightarrow> Route \<Rightarrow> Secret \<Rightarrow>
    (Route \<times> ReplicaSet) option io" where
  "exposePods L E rc key route xid tmpName exposerRoute exposerSecret =
     bind_io (limitRangeLister E (rc_kubeInformers rc) (om_Namespace (rt_Meta route)))
     (\<lambda>limitRanges.
       let adjusted = adjustContainerResourceRequirements L (exposerRequirements L) limitRanges in
       case snd adjusted of
         Some err \<Rightarrow>
           seq_io (log_ev (RecordEvent (om_Namespace (rt_Meta route)) (om_Name (rt_Meta route)) ''Warning''
               ''ExposerPodResourceRequirementsError''))
             (ret None)
       | None \<Rightarrow>
           bind_io (ensureExposerRS L E rc route xid exposerRoute
               (desiredExposerRS L rc key route xid tmpName exposerRoute exposerSecret (fst adjusted)))
           (\<lambda>exposerRS.
           seq_io (ensureExposerService L E rc route xid exposerRoute
               (desiredExposerService L key route xid tmpName exposerRoute))
             (ret (Some (exposerRoute, exposerRS)))))"

definition exposeChallenge ::
  "lib \<Rightarrow> env \<Rightarrow> RouteController \<Rightarrow> string \<Rightarrow> Route \<Rightarrow> Challenge \<Rightarrow> string \<Rightarrow> (Route \<times> ReplicaSet) option io" where
  "exposeChallenge L E rc key route challenge challengeResponse =
     (let challengePath = l_HTTP01ChallengePath L (ch_Token challenge);
          xid = exposerID L route (ch_Token challenge);
          tmpName = getTemporaryName L xid
      in bind_io (ensureExposerRoute L E rc route xid (desiredExposerRoute L key route xid tmpName (ch_Token challenge)))
         (\<lambda>exposerRoute.
         bind_io (ensureExposerSecret L E rc route xid exposerRoute
             (desiredExposerSecret L key route xid tmpName exposerRoute challengePath challengeResponse))
         (\<lambda>exposerSecret.
           exposePods L E rc key route xid tmpName exposerRoute exposerSecret)))"

definition challengeURL :: "lib \<Rightarrow> string \<Rightarrow> string \<Rightarrow> string" where
  "challengeURL L domain token = ''http://'' @ domain @ l_HTTP01ChallengePath L token"

text \<open>What follows once the objects exist; every \<^verbatim>\<open>break\<close> leaves the switch, and the loop goes on.\<close>

definition acceptChallenge ::
  "env \<Rightarrow> string \<Rightarrow> AcmeClient \<Rightarrow> Challenge \<Rightarrow> string \<Rightarrow> string \<Rightarrow> Route \<Rightarrow> ReplicaSet \<Rightarrow> unit io" where
  "acceptChallenge E key acmeClient challenge url challengeResponse exposerRoute exposerRS =
     (if \<not> IsAdmitted exposerRoute then requeue15 key
      else if rps_ObservedGeneration exposerRS \<noteq> om_Generation (rps_Meta exposerRS) \<or>
              rps_AvailableReplicas exposerRS \<noteq> rps_StatusReplicas exposerRS then requeue15 key
      else bind_io (attempt (ValidateExposedToken E url challengeResponse)) (\<lambda>r.
        case r of
          Inl err \<Rightarrow> requeue15 key
        | Inr _ \<Rightarrow> seq_io (acme_Accept E acmeClient challenge) (requeue15 key)))"

definition handleChallenge ::
  "lib \<Rightarrow> env \<Rightarrow> RouteController \<Rightarrow> string \<Rightarrow> Route \<Rightarrow> AcmeClient \<Rightarrow> Challenge \<Rightarrow> loop_step io" where
  "handleChallenge L E rc key route acmeClient challenge =
     (if ch_Status challenge = StatusPending then
        (case l_HTTP01ChallengeResponse L (cl_Key acmeClient) (ch_Token challenge) of
           None \<Rightarrow> throw (LibErr ''HTTP01ChallengeResponse'')
         | Some challengeResponse \<Rightarrow>
             bind_io (exposeChallenge L E rc key route challenge challengeResponse) (\<lambda>exposed.
               case exposed of
                 None \<Rightarrow> ret ReturnNil
               | Some (exposerRoute, exposerRS) \<Rightarrow>
                   seq_io
                     (acceptChallenge E key acmeClient challenge
                       (challengeURL L (spec_Host (rt_Spec route)) (ch_Token challenge))
                       challengeResponse exposerRoute exposerRS)
                     (ret NextAuthz)))
      else if ch_Status challenge \<in> {StatusProcessing, StatusValid, StatusInvalid} then
        seq_io (requeue15 key) (ret NextAuthz)
      else throw (Errorf ''invalid status for challenge''))"

text \<open>The loop over the challenges keeps the last one of type http-01.\<close>

definition pickChallenge :: "Challenge list \<Rightarrow> Challenge option" where
  "pickChallenge challenges =
     foldl (\<lambda>challenge c. if ch_Type c = ''http-01'' then Some c else challenge) None challenges"

definition handleAuthz ::
  "lib \<Rightarrow> env \<Rightarrow> RouteController \<Rightarrow> string \<Rightarrow> Route \<Rightarrow> AcmeClient \<Rightarrow> string \<Rightarrow> loop_step io" where
  "handleAuthz L E rc key route acmeClient authzURL =
     bind_io (acme_GetAuthorization E acmeClient authzURL) (\<lambda>authz.
       if az_Status authz = StatusPending then
         (case pickChallenge (az_Challenges authz) of
            None \<Rightarrow> throw (Errorf ''no viable challenge type found'')
          | Some challenge \<Rightarrow> handleChallenge L E rc key route acmeClient challenge)
       else if az_Status authz \<in> {StatusValid, StatusInvalid, StatusDeactivated, StatusExpired, StatusRevoked}
       then ret NextAuthz
       else throw (Errorf ''authz has invalid status''))"

fun authzLoop ::
  "lib \<Rightarrow> env \<Rightarrow> RouteController \<Rightarrow> string \<Rightarrow> Route \<Rightarrow> AcmeClient \<Rightarrow> string list \<Rightarrow> loop_step io" where
  "authzLoop L E rc key route acmeClient [] = ret NextAuthz"
| "authzLoop L E rc key route acmeClient (authzURL # urls) =
     bind_io (handleAuthz L E rc key route acmeClient authzURL) (\<lambda>s.
       case s of
         ReturnNil \<Rightarrow> ret ReturnNil
       | NextAuthz \<Rightarrow> authzLoop L E rc key route acmeClient urls)"

definition syncPending ::
  "lib \<Rightarrow> env \<Rightarrow> RouteController \<Rightarrow> string \<Rightarrow> Route \<Rightarrow> AcmeClient \<Rightarrow> Status \<Rightarrow> Order \<Rightarrow> unit io" where
  "syncPending L E rc key route acmeClient status order =
     bind_io (authzLoop L E rc key route acmeClient (ord_AuthzURLs order)) (\<lambda>s.
       case s of
         ReturnNil \<Rightarrow> ret ()
       | NextAuthz \<Rightarrow> updateStatus L E route status)"

section \<open>The scope of the requests\<close>

text \<open>
  \<open>exposer_meta\<close> is what marks an object as a part of the exposer of a Route. \<open>route_scope\<close> says what
  processing one Route may do to the outside: patch the status annotation of that Route, create
  objects that are marked as its exposer in its namespace, delete by its own exposer
  label, requeue its own key; it never touches a Secret, a ConfigMap or an ACME account.
\<close>

definition exposer_meta :: "string \<Rightarrow> Route \<Rightarrow> ObjectMeta \<Rightarrow> bool" where
  "exposer_meta key route m \<longleftrightarrow>
     IsTemporary m \<and>
     mget (om_Labels m) AcmeExposerUID = Some (om_UID (rt_Meta route)) \<and>
     mget (om_Annotations m) AcmeExposerKey = Some key"

fun route_scope :: "string \<Rightarrow> Route \<Rightarrow> ev \<Rightarrow> bool" where
  "route_scope key route (RoutePatch ns name kv r) \<longleftrightarrow>
     ns = om_Namespace (rt_Meta route) \<and> name = om_Name (rt_Meta route) \<and> fst kv = AcmeStatusAnnotation"
| "route_scope key route (RouteGet ns name r) \<longleftrightarrow> ns = om_Namespace (rt_Meta route) \<and> name = om_Name (rt_Meta route)"
| "route_scope key route (RouteCreate ns x r) \<longleftrightarrow> ns = om_Namespace (rt_Meta route) \<and> exposer_meta key route (rt_Meta x)"
| "route_scope key route (SecretCreate ns x r) \<longleftrightarrow> ns = om_Namespace (rt_Meta route) \<and> exposer_meta key route (sec_Meta x)"
| "route_scope key route (ReplicaSetCreate ns x r) \<longleftrightarrow> ns = om_Namespace (rt_Meta route) \<and> exposer_meta key route (rps_Meta x)"
| "route_scope key route (ServiceCreate ns x r) \<longleftrightarrow> ns = om_Namespace (rt_Meta route) \<and> exposer_meta key route (svc_Meta x)"
| "route_scope key route (RouteUpdate ns x r) \<longleftrightarrow> ns = om_Namespace (rt_Meta route) \<and>
     om_Namespace (rt_Meta x) = om_Namespace (rt_Meta route) \<and> om_Name (rt_Meta x) = om_Name (rt_Meta route)"
| "route_scope key route (RouteDeleteCollection ns sel r) \<longleftrightarrow>
     ns = om_Namespace (rt_Meta route) \<and> sel = (AcmeExposerUID, om_UID (rt_Meta route))"
| "route_scope key route (QueueAddAfter q k d) \<longleftrightarrow> q = RouteQueue \<and> k = key"
| "route_scope key route (RecordEvent ns name t reason) \<longleftrightarrow> ns = om_Namespace (rt_Meta route) \<and> name = om_Name (rt_Meta route)"
| "route_scope key route (SecretUpdate ns x r) \<longleftrightarrow> False"
| "route_scope key route (ConfigMapUpdate ns x r) \<longleftrightarrow> False"
| "route_scope key route (Register c cs r) \<longleftrightarrow> False"
| "route_scope key route (UpdateReg c a r) \<longleftrightarrow> False"
| "route_scope key route (GetReg c r) \<longleftrightarrow> False"
| "route_scope key route (QueueGet q k) \<longleftrightarrow> False"
| "route_scope key route (QueueAdd q k) \<longleftrightarrow> False"
| "route_scope key route (QueueAddRateLimited q k) \<longleftrightarrow> False"
| "route_scope key route (QueueForget q k) \<longleftrightarrow> False"
| "route_scope key route (QueueDone q k) \<longleftrightarrow> False"
| "route_scope key route _ \<longleftrightarrow> True"

lemma exposer_meta_Route: "exposer_meta key route (rt_Meta (desiredExposerRoute L key route xid tmpName token))"
  by (simp add: exposer_meta_def IsTemporary_def desiredExposerRoute_annotations desiredExposerRoute_labels)

lemma exposer_meta_other: "exposer_meta key route (exposerMeta L key route xid tmpName exposerRoute)"
  using exposer_names by (simp add: exposer_meta_def IsTemporary_def exposerMeta_def)

lemma read_scope: "is_read e \<Longrightarrow> route_scope key route e"
  by (cases e) simp_all

lemma emits_scope_cache [io_intro]:
  "emits (route_scope key route) (limitRangeLister E i ns)"
  "emits (route_scope key route) (routeByKey E i ns k)"
  by (simp_all add: emits_cache read_scope)

lemma emits_scope_ensure [io_intro]:
  "exposer_meta key route (rt_Meta d) \<Longrightarrow> emits (route_scope key route) (ensureExposerRoute L E rc route xid d)"
  "exposer_meta key route (sec_Meta ds) \<Longrightarrow> emits (route_scope key route) (ensureExposerSecret L E rc route xid xr ds)"
  "exposer_meta key route (rps_Meta dr) \<Longrightarrow> emits (route_scope key route) (ensureExposerRS L E rc route xid xr dr)"
  "exposer_meta key route (svc_Meta dv) \<Longrightarrow> emits (route_scope key route) (ensureExposerService L E rc route xid xr dv)"
  by (simp_all add: ensureExposerRoute_def ensureExposerSecret_def ensureExposerRS_def ensureExposerService_def
      Let_def xroute.emits_ensure xsecret.emits_ensure xrs.emits_ensure xservice.emits_ensure read_scope)

lemma emits_scope_requeue15 [io_intro]: "emits (route_scope key route) (requeue15 key)"
  unfolding requeue15_def by (rule emits_log_ev) simp

lemma emits_scope_exposePods [io_intro]:
  "emits (route_scope key route) (exposePods L E rc key route xid tmpName xr xs)"
  unfolding exposePods_def Let_def
  by (auto intro!: io_intro simp: exposer_meta_other desiredExposerRS_def desiredExposerService_def)

lemma emits_scope_exposeChallenge [io_intro]:
  "emits (route_scope key route) (exposeChallenge L E rc key route challenge resp)"
  unfolding exposeChallenge_def Let_def
  by (auto intro!: io_intro simp: exposer_meta_Route exposer_meta_other desiredExposerSecret_def)

lemma emits_scope_acceptChallenge [io_intro]:
  "emits (route_scope key route) (acceptChallenge E key c challenge url resp xr rs)"
  unfolding acceptChallenge_def by (auto intro!: io_intro)

lemma emits_scope_updateStatus [io_intro]: "emits (route_scope key route) (updateStatus L E route status)"
  by (rule emits_updateStatus) (auto simp: patches_status_def)

lemma emits_scope_handleChallenge [io_intro]:
  "emits (route_scope key route) (handleChallenge L E rc key route c challenge)"
  unfolding handleChallenge_def by (auto intro!: io_intro split: option.splits)

lemma emits_scope_handleAuthz [io_intro]: "emits (route_scope key route) (handleAuthz L E rc key route c url)"
  unfolding handleAuthz_def by (auto intro!: io_intro split: option.splits)

lemma emits_scope_authzLoop [io_intro]: "emits (route_scope key route) (authzLoop L E rc key route c urls)"
  by (induction urls) (auto intro!: io_intro split: loop_step.splits)

lemma emits_scope_syncPending [io_intro]:
  "emits (route_scope key route) (syncPending L E rc key route c status order)"
  unfolding syncPending_def by (auto intro!: io_intro split: loop_step.splits)

subsection \<open>The kinds of events of a pending order\<close>

fun pending_event :: "ev \<Rightarrow> bool" where
  "pending_event (CacheRead k ns n) = True"
| "pending_event (CacheList k ns) = True"
| "pending_event (RouteCreate ns x r) = True"
| "pending_event (SecretCreate ns x r) = True"
| "pending_event (ReplicaSetCreate ns x r) = True"
| "pending_event (ServiceCreate ns x r) = True"
| "pending_event (RecordEvent ns n t reason) = True"
| "pending_event (GetAuthorization c u r) = True"
| "pending_event (HttpGet u r) = True"
| "pending_event (Accept c ch r) = True"
| "pending_event (QueueAddAfter q k d) = True"
| "pending_event (RoutePatch ns n kv r) = True"
| "pending_event _ = False"

lemma read_pending: "is_read e \<Longrightarrow> pending_event e"
  by (cases e) simp_all

lemma emits_pending_ensure [io_intro]:
  "emits pending_event (ensureExposerRoute L E rc route xid d)"
  "emits pending_event (ensureExposerSecret L E rc route xid xr ds)"
  "emits pending_event (ensureExposerRS L E rc route xid xr dr)"
  "emits pending_event (ensureExposerService L E rc route xid xr dv)"
  "emits pending_event (limitRangeLister E i ns)"
  "emits pending_event (requeue15 key)"
  by (simp_all add: ensureExposerRoute_def ensureExposerSecret_def ensureExposerRS_def ensureExposerService_def
      Let_def xroute.emits_ensure xsecret.emits_ensure xrs.emits_ensure xservice.emits_ensure read_pending
      emits_cache requeue15_def emits_log_ev)

lemma emits_pending_updateStatus [io_intro]: "emits pending_event (updateStatus L E route status)"
  by (rule emits_updateStatus) (auto simp: patches_status_def)

lemma emits_pending_handleChallenge [io_intro]:
  "emits pending_event (handleChallenge L E rc key route c challenge)"
  unfolding handleChallenge_def exposeChallenge_def exposePods_def acceptChallenge_def Let_def
  by (auto intro!: io_intro split: option.splits)

lemma emits_pending_handleAuthz [io_intro]: "emits pending_event (handleAuthz L E rc key route c url)"
  unfolding handleAuthz_def by (auto intro!: io_intro split: option.splits)

lemma emits_pending_authzLoop [io_intro]: "emits pending_event (authzLoop L E rc key route c urls)"
  by (induction urls) (auto intro!: io_intro split: loop_step.splits)

lemma emits_syncPending: "emits pending_event (syncPending L E rc key route c status ord)"
  unfolding syncPending_def by (auto intro!: io_intro split: loop_step.splits)

section \<open>Accepting a challenge\<close>

text \<open>
  \<open>self_checked\<close>: each acceptance in a history comes right after the controller's own request to the
  challenge URL of the domain, answered with status 200 and the response the account key gives
  for the token.
\<close>

definition self_check :: "lib \<Rightarrow> string \<Rightarrow> AcmeClient \<Rightarrow> Challenge \<Rightarrow> ev \<Rightarrow> bool" where
  "self_check L host c ch e \<longleftrightarrow>
     (\<exists>response expected. l_HTTP01ChallengeResponse L (cl_Key c) (ch_Token ch) = Some expected \<and>
        e = HttpGet (challengeURL L host (ch_Token ch)) (Inr response) \<and>
        hr_StatusCode response = 200 \<and> take 2048 (hr_FirstRead response) = expected)"

fun is_accept :: "ev \<Rightarrow> bool" where
  "is_accept (Accept c ch r) = True"
| "is_accept _ = False"

definition self_checked :: "lib \<Rightarrow> string \<Rightarrow> trace \<Rightarrow> bool" where
  "self_checked L host =
     preceded is_accept (\<lambda>e previous. \<exists>c ch r. e = Accept c ch r \<and> self_check L host c ch previous)"

lemma self_checked_append: "closed_append (self_checked L host)"
  by (simp add: self_checked_def preceded_append)

lemma self_checked_no_accept: "list_all (\<lambda>e. \<not> is_accept e) t \<Longrightarrow> self_checked L host t"
  by (simp add: self_checked_def preceded_none)

lemma produces_no_accept: "emits (\<lambda>e. \<not> is_accept e) m \<Longrightarrow> produces (self_checked L host) m"
  by (simp add: self_checked_def produces_none)

lemma produces_acceptChallenge:
  assumes "l_HTTP01ChallengeResponse L (cl_Key c) (ch_Token ch) = Some resp"
  shows "produces (self_checked L host)
    (acceptChallenge E key c ch (challengeURL L host (ch_Token ch)) resp xr rs)"
proof -
  let ?url = "challengeURL L host (ch_Token ch)"
  have "produces (self_checked L host) (bind_io (attempt (ValidateExposedToken E ?url resp)) (\<lambda>r.
      case r of Inl err \<Rightarrow> requeue15 key | Inr _ \<Rightarrow> seq_io (acme_Accept E c ch) (requeue15 key)))"
    unfolding produces_def
  proof
    fix h
    let ?g = "HttpGet ?url (e_httpGet E h ?url)"
    let ?q = "QueueAddAfter RouteQueue key (15 * 10 ^ 9)"
    let ?a = "Accept c ch (e_Accept E (h @ [?g]) c ch)"
    show "\<exists>t. snd (bind_io (attempt (ValidateExposedToken E ?url resp)) (\<lambda>r.
        case r of Inl err \<Rightarrow> requeue15 key | Inr _ \<Rightarrow> seq_io (acme_Accept E c ch) (requeue15 key)) h) = h @ t
        \<and> self_checked L host t"
    proof (cases "e_httpGet E h ?url")
      case (Inl err)
      then show ?thesis
        by (cases "is_panic err")
          (auto simp: ValidateExposedToken_def requeue15_def io_defs intro!: self_checked_no_accept)
    next
      case (Inr response)
      show ?thesis
      proof (cases "\<not> hr_ReadError response \<and> hr_StatusCode response = 200 \<and> take 2048 (hr_FirstRead response) = resp")
        case True
        then have "self_check L host c ch ?g"
          using assms Inr by (simp add: self_check_def)
        then have "self_checked L host [?g, ?a]" "self_checked L host [?g, ?a, ?q]"
          by (auto simp: self_checked_def intro!: preceded_pair)
        with True Inr show ?thesis
          by (cases "e_Accept E (h @ [?g]) c ch")
            (auto simp: ValidateExposedToken_def requeue15_def acme_Accept_def io_defs Let_def)
      next
        case False
        with Inr show ?thesis
          by (auto simp: ValidateExposedToken_def requeue15_def io_defs Let_def intro!: self_checked_no_accept)
      qed
    qed
  qed
  then show ?thesis
    by (auto simp: acceptChallenge_def requeue15_def intro!: produces_no_accept emits_log_ev)
qed

lemma read_no_accept: "is_read e \<Longrightarrow> \<not> is_accept e"
  by (cases e) simp_all

lemma emits_no_accept_ensure [io_intro]:
  "emits (\<lambda>e. \<not> is_accept e) (ensureExposerRoute L E rc route xid d)"
  "emits (\<lambda>e. \<not> is_accept e) (ensureExposerSecret L E rc route xid xr ds)"
  "emits (\<lambda>e. \<not> is_accept e) (ensureExposerRS L E rc route xid xr dr)"
  "emits (\<lambda>e. \<not> is_accept e) (ensureExposerService L E rc route xid xr dv)"
  "emits (\<lambda>e. \<not> is_accept e) (limitRangeLister E i ns)"
  "emits (\<lambda>e. \<not> is_accept e) (routeByKey E i ns k)"
  by (simp_all add: ensureExposerRoute_def ensureExposerSecret_def ensureExposerRS_def ensureExposerService_def
      Let_def xroute.emits_ensure xsecret.emits_ensure xrs.emits_ensure xservice.emits_ensure read_no_accept
      emits_cache)

lemma emits_no_accept_exposeChallenge [io_intro]:
  "emits (\<lambda>e. \<not> is_accept e) (exposeChallenge L E rc key route challenge resp)"
  unfolding exposeChallenge_def exposePods_def Let_def by (auto intro!: io_intro)

lemma emits_no_accept_updateStatus [io_intro]: "emits (\<lambda>e. \<not> is_accept e) (updateStatus L E route status)"
  by (rule emits_updateStatus) (auto simp: patches_status_def)

lemma produces_handleChallenge:
  "produces (self_checked L (spec_Host (rt_Spec route))) (handleChallenge L E rc key route c challenge)"
proof (cases "ch_Status challenge = StatusPending")
  case True
  show ?thesis
  proof (cases "l_HTTP01ChallengeResponse L (cl_Key c) (ch_Token challenge)")
    case None
    with True show ?thesis
      by (auto simp: handleChallenge_def intro!: produces_no_accept emits_throw)
  next
    case (Some resp)
    then show ?thesis
      unfolding handleChallenge_def seq_io_def using True
      by (auto intro!: produces_bind [OF self_checked_append] produces_acceptChallenge
          produces_no_accept [OF emits_no_accept_exposeChallenge] produces_no_accept [OF emits_ret]
          split: option.splits)
  qed
next
  case False
  then show ?thesis
    by (auto simp: handleChallenge_def requeue15_def intro!: produces_no_accept io_intro)
qed

lemma produces_handleAuthz:
  "produces (self_checked L (spec_Host (rt_Spec route))) (handleAuthz L E rc key route c url)"
  unfolding handleAuthz_def
  by (auto intro!: produces_bind [OF self_checked_append] produces_handleChallenge
      produces_no_accept [OF emits_ret] produces_no_accept [OF emits_throw]
      produces_no_accept [OF emits_api_calls(14)] split: option.splits)

lemma produces_authzLoop:
  "produces (self_checked L (spec_Host (rt_Spec route))) (authzLoop L E rc key route c urls)"
  by (induction urls)
    (auto intro!: produces_bind [OF self_checked_append] produces_handleAuthz produces_no_accept [OF emits_ret]
      split: loop_step.splits)

lemma produces_syncPending:
  "produces (self_checked L (spec_Host (rt_Spec route))) (syncPending L E rc key route c status order)"
  unfolding syncPending_def
  by (auto intro!: produces_bind [OF self_checked_append] produces_authzLoop produces_no_accept [OF emits_ret]
      produces_no_accept [OF emits_no_accept_updateStatus] split: loop_step.splits)

section \<open>Requeueing\<close>

text \<open>
  When the loop goes on after a pending authorization, the key has been put back for 15
  seconds later; when it stops early, an event tells why.
\<close>

definition requeued :: "string \<Rightarrow> trace \<Rightarrow> bool" where
  "requeued key t \<longleftrightarrow> QueueAddAfter RouteQueue key (15 * 10 ^ 9) \<in> set t"

definition pending_authz_seen :: "trace \<Rightarrow> bool" where
  "pending_authz_seen t \<longleftrightarrow>
     (\<exists>c url authz. GetAuthorization c url (Inr authz) \<in> set t \<and> az_Status authz = StatusPending)"

definition resource_warning :: "Route \<Rightarrow> trace \<Rightarrow> bool" where
  "resource_warning route t \<longleftrightarrow>
     RecordEvent (om_Namespace (rt_Meta route)) (om_Name (rt_Meta route)) ''Warning''
       ''ExposerPodResourceRequirementsError'' \<in> set t"

lemma exposeChallenge_warns:
  assumes "exposeChallenge L E rc key route ch resp h = (Inr None, h')"
  shows "\<exists>t. h' = h @ t \<and> resource_warning route t"
proof -
  obtain d ds xr h1 xs h2 lrs h3 where
    "ensureExposerRoute L E rc route (exposerID L route (ch_Token ch)) d h = (Inr xr, h1)"
    "ensureExposerSecret L E rc route (exposerID L route (ch_Token ch)) xr ds h1 = (Inr xs, h2)"
    "limitRangeLister E (rc_kubeInformers rc) (om_Namespace (rt_Meta route)) h2 = (Inr lrs, h3)"
    and h': "h' = h3 @ [RecordEvent (om_Namespace (rt_Meta route)) (om_Name (rt_Meta route)) ''Warning''
       ''ExposerPodResourceRequirementsError'']"
    using assms
    by (auto simp: exposeChallenge_def exposePods_def Let_def bind_io_Inr seq_io_def log_ev_def ret_def
        split: option.splits)
  then obtain t u v where "h1 = h @ t" "h2 = h1 @ u" "h3 = h2 @ v"
    by (meson emitsD emits_no_accept_ensure(1,2,5))
  with h' show ?thesis
    by (auto simp: resource_warning_def)
qed

lemma acceptChallenge_requeues:
  "acceptChallenge E key c ch url resp xr rs h = (Inr u, h') \<Longrightarrow> \<exists>t. h' = h @ t @ [QueueAddAfter RouteQueue key (15 * 10 ^ 9)]"
proof -
  assume run: "acceptChallenge E key c ch url resp xr rs h = (Inr u, h')"
  let ?q = "QueueAddAfter RouteQueue key (15 * 10 ^ 9)"
  let ?v = "attempt (ValidateExposedToken E url resp)"
  have v: "\<exists>t. h1 = h @ t" if "?v h = (r, h1)" for r h1
    using emitsD [OF emits_attempt [OF emits_ValidateExposedToken [of "\<lambda>_. True"]], OF _ that] by auto
  have a: "\<exists>t. h2 = h1 @ t" if "acme_Accept E c ch h1 = (r, h2)" for r h1 h2
    using emitsD [OF emits_api_calls(15) [of "\<lambda>_. True"], OF _ that] by auto
  consider "h' = h @ [?q]"
    | r h1 where "?v h = (r, h1)" "h' = h1 @ [?q]"
    | r h1 r' h2 where "?v h = (r, h1)" "acme_Accept E c ch h1 = (r', h2)" "h' = h2 @ [?q]"
    using run
    by (auto simp: acceptChallenge_def requeue15_def bind_io_Inr seq_io_def log_ev_def
        split: if_splits sum.splits) (metis old.unit.exhaust sumE)
  then show ?thesis
    by cases (use v a in fastforce)+
qed

lemma handleChallenge_requeues:
  assumes "handleChallenge L E rc key route c ch h = (Inr s, h')"
  shows "\<exists>t. h' = h @ t \<and> (s = NextAuthz \<longrightarrow> requeued key t) \<and> (s = ReturnNil \<longrightarrow> resource_warning route t)"
proof -
  show ?thesis
  proof (cases s)
    case NextAuthz
    with assms have "\<exists>u. h' = h @ u @ [QueueAddAfter RouteQueue key (15 * 10 ^ 9)]"
      by (fastforce simp: handleChallenge_def bind_io_Inr seq_io_def requeue15_def log_ev_def ret_def throw_def
          dest!: acceptChallenge_requeues emitsD [OF emits_scope_exposeChallenge]
          split: if_splits option.splits)
    with NextAuthz show ?thesis by (auto simp: requeued_def)
  next
    case ReturnNil
    with assms obtain resp where "exposeChallenge L E rc key route ch resp h = (Inr None, h')"
      by (auto simp: handleChallenge_def requeue15_def log_ev_def bind_io_Inr seq_io_def ret_def throw_def
          split: if_splits option.splits) (metis not_None_eq surj_pair)
    with ReturnNil show ?thesis
      using exposeChallenge_warns by auto
  qed
qed

lemma handleAuthz_requeues:
  assumes "handleAuthz L E rc key route c url h = (Inr s, h')"
  shows "\<exists>t. h' = h @ t \<and> (s = NextAuthz \<longrightarrow> pending_authz_seen t \<longrightarrow> requeued key t) \<and>
    (s = ReturnNil \<longrightarrow> resource_warning route t)"
proof -
  obtain a h1 where a: "acme_GetAuthorization E c url h = (Inr a, h1)"
    and rest: "(if az_Status a = StatusPending then
         (case pickChallenge (az_Challenges a) of
            None \<Rightarrow> throw (Errorf ''no viable challenge type found'')
          | Some challenge \<Rightarrow> handleChallenge L E rc key route c challenge)
       else if az_Status a \<in> {StatusValid, StatusInvalid, StatusDeactivated, StatusExpired, StatusRevoked}
       then ret NextAuthz else throw (Errorf ''authz has invalid status'')) h1 = (Inr s, h')"
    using assms by (auto simp: handleAuthz_def bind_io_Inr)
  have h1: "h1 = h @ [GetAuthorization c url (Inr a)]"
    using a by (auto simp: acme_GetAuthorization_def call_sum_eq split: sum.splits)
  show ?thesis
  proof (cases "az_Status a = StatusPending")
    case True
    then obtain ch where "handleChallenge L E rc key route c ch h1 = (Inr s, h')"
      using rest by (auto simp: throw_def split: option.splits)
    then obtain t where "h' = h1 @ t" "s = NextAuthz \<longrightarrow> requeued key t" "s = ReturnNil \<longrightarrow> resource_warning route t"
      using handleChallenge_requeues by blast
    with h1 show ?thesis
      by (auto simp: requeued_def resource_warning_def)
  next
    case False
    with rest h1 show ?thesis
      by (auto simp: ret_def throw_def pending_authz_seen_def split: if_splits)
  qed
qed

lemma authzLoop_requeues:
  "authzLoop L E rc key route c urls h = (Inr s, h') \<Longrightarrow>
    \<exists>t. h' = h @ t \<and> (s = NextAuthz \<longrightarrow> pending_authz_seen t \<longrightarrow> requeued key t) \<and>
    (s = ReturnNil \<longrightarrow> resource_warning route t)"
proof (induction urls arbitrary: h)
  case Nil
  then show ?case by (simp add: ret_def pending_authz_seen_def)
next
  case (Cons url urls)
  then obtain s1 h1 where s1: "handleAuthz L E rc key route c url h = (Inr s1, h1)"
    and rest: "(case s1 of ReturnNil \<Rightarrow> ret ReturnNil | NextAuthz \<Rightarrow> authzLoop L E rc key route c urls) h1 = (Inr s, h')"
    by (auto simp: bind_io_Inr)
  obtain t where t: "h1 = h @ t" "s1 = NextAuthz \<longrightarrow> pending_authz_seen t \<longrightarrow> requeued key t"
    "s1 = ReturnNil \<longrightarrow> resource_warning route t"
    using handleAuthz_requeues [OF s1] by blast
  show ?case
  proof (cases s1)
    case NextAuthz
    then obtain u where u: "h' = h1 @ u" "s = NextAuthz \<longrightarrow> pending_authz_seen u \<longrightarrow> requeued key u"
      "s = ReturnNil \<longrightarrow> resource_warning route u"
      using rest Cons.IH by auto
    have "s = NextAuthz \<longrightarrow> pending_authz_seen (t @ u) \<longrightarrow> requeued key (t @ u)"
      using t(2) u(2) NextAuthz unfolding pending_authz_seen_def requeued_def by auto
    with t u show ?thesis by (auto simp: resource_warning_def)
  next
    case ReturnNil
    with rest t show ?thesis by (auto simp: ret_def)
  qed
qed

end
