(* ===== verification/Renewal.thy ===== *)
theory Renewal
  imports Fixture
begin

text \<open>
  When a Route needs a certificate (\<^verbatim>\<open>pkg/controller/route/route.go\<close>): the renewal point of
  \<^verbatim>\<open>proactiveRenewalThreshold\<close>, the decision of \<^verbatim>\<open>needsCertKey\<close>, and the backoff that \<^verbatim>\<open>sync\<close>
  computes for failed orders. Times and durations are nanoseconds; \<^verbatim>\<open>Time.Sub\<close> saturates at the
  bounds of \<^verbatim>\<open>int64\<close>, and the sums of durations wrap.
\<close>

section \<open>Definitions\<close>

text \<open>\<^verbatim>\<open>binary.BigEndian.Uint64\<close> of the first eight bytes.\<close>

definition BigEndian_Uint64 :: "8 word list \<Rightarrow> int" where
  "BigEndian_Uint64 b = foldl (\<lambda>acc x. acc * 256 + uint x) 0 (take 8 b)"

definition proactiveRenewalThreshold :: "lib \<Rightarrow> Certificate \<Rightarrow> duration \<Rightarrow> duration" where
  "proactiveRenewalThreshold L certificate lifetime =
     (let window = wrap64 (lifetime sdiv 2 - lifetime sdiv 3)
      in if window \<le> 0 then lifetime sdiv 3
         else let sum = l_sha256 L (crt_Raw certificate);
                  offset = BigEndian_Uint64 sum mod window
              in wrap64 (lifetime sdiv 3 + offset))"

definition needsCertKey :: "lib \<Rightarrow> time \<Rightarrow> Route \<Rightarrow> gerror + string \<times> duration" where
  "needsCertKey L t route =
     (case spec_TLS (rt_Spec route) of
        None \<Rightarrow> Inr (''Route is missing CertKey'', 0)
      | Some tls \<Rightarrow>
          if tls_Key tls = [] \<or> tls_Certificate tls = []
          then Inr (''Route is missing CertKey'', 0)
          else (case CertPemData_Certificate L \<lparr>pem_Crt = tls_Certificate tls, pem_Key = tls_Key tls\<rparr> of
             Inl err \<Rightarrow> Inl (Wrapf ''can't decode certificate from Route'' err)
           | Inr certificate \<Rightarrow>
               if \<not> l_VerifyHostname L certificate (spec_Host (rt_Spec route))
               then Inr (''Existing certificate doesn't match hostname'', 0)
               else if \<not> IsValid certificate t then Inr (''Already expired'', 0)
               else
                 let remains = sat64 (crt_NotAfter certificate - t);
                     lifetime = sat64 (crt_NotAfter certificate - crt_NotBefore certificate)
                 in if remains \<le> lifetime sdiv 3 then Inr (''In renewal period'', 0)
                    else
                      let threshold = proactiveRenewalThreshold L certificate lifetime
                      in if remains \<le> threshold then Inr (''Proactive renewal'', 0)
                         else Inr ([], wrap64 (remains - threshold))))"

text \<open>The loop of \<^verbatim>\<open>sync\<close> over \<^verbatim>\<open>Failures\<close>, with the \<^verbatim>\<open>break\<close> at the maximum.\<close>

fun backoff_loop :: "nat \<Rightarrow> duration \<Rightarrow> duration \<Rightarrow> duration \<Rightarrow> duration" where
  "backoff_loop 0 certOrderBackoffInitial certOrderBackoffMax backoff = backoff"
| "backoff_loop (Suc n) certOrderBackoffInitial certOrderBackoffMax backoff =
     (let backoff' = wrap64 (backoff * certOrderBackoffInitial)
      in if backoff' \<ge> certOrderBackoffMax then certOrderBackoffMax
         else backoff_loop n certOrderBackoffInitial certOrderBackoffMax backoff')"

definition order_backoff :: "int \<Rightarrow> duration \<Rightarrow> duration \<Rightarrow> duration" where
  "order_backoff failures certOrderBackoffInitial certOrderBackoffMax =
     backoff_loop (nat failures) certOrderBackoffInitial certOrderBackoffMax 0"

section \<open>The renewal point\<close>

lemma lifetime_window:
  assumes "0 \<le> l" and "in_int64 l"
  shows "wrap64 (l div 2 - l div 3) = l div 2 - l div 3"
proof -
  have "0 \<le> l div 2 - l div 3" and "l div 2 - l div 3 \<le> l"
    using assms(1) by presburger+
  with assms show ?thesis
    by (simp add: wrap64_between)
qed

lemma proactiveRenewalThreshold_bounds_aux:
  assumes "0 \<le> lifetime" and "in_int64 lifetime"
  shows "lifetime div 3 \<le> proactiveRenewalThreshold L c lifetime
    \<and> proactiveRenewalThreshold L c lifetime \<le> lifetime div 2
    \<and> (lifetime div 3 < lifetime div 2 \<longrightarrow> proactiveRenewalThreshold L c lifetime < lifetime div 2)"
proof (cases "lifetime div 3 < lifetime div 2")
  case True
  let ?w = "lifetime div 2 - lifetime div 3"
  let ?o = "BigEndian_Uint64 (l_sha256 L (crt_Raw c)) mod ?w"
  have off: "0 \<le> ?o" "?o < ?w"
    using True by simp_all
  then have "0 \<le> lifetime div 3 + ?o" and "lifetime div 3 + ?o \<le> lifetime"
    using assms(1) by linarith+
  then have "wrap64 (lifetime div 3 + ?o) = lifetime div 3 + ?o"
    using assms(2) by (rule wrap64_between)
  with True off assms show ?thesis
    by (simp add: proactiveRenewalThreshold_def lifetime_window Let_def sdiv_nonneg)
next
  case False
  then have "lifetime div 2 = lifetime div 3"
    using assms(1) by linarith
  with assms show ?thesis
    by (simp add: proactiveRenewalThreshold_def lifetime_window Let_def sdiv_nonneg)
qed


section \<open>The decision\<close>

text \<open>What \<open>needsCertKey\<close> computes once the Route carries a certificate it can decode.\<close>

definition route_certificate :: "lib \<Rightarrow> Route \<Rightarrow> Certificate \<Rightarrow> bool" where
  "route_certificate L r c \<longleftrightarrow>
     (\<exists>tls. spec_TLS (rt_Spec r) = Some tls \<and> tls_Key tls \<noteq> [] \<and> tls_Certificate tls \<noteq> [] \<and>
        CertPemData_Certificate L \<lparr>pem_Crt = tls_Certificate tls, pem_Key = tls_Key tls\<rparr> = Inr c)"

definition cert_lifetime :: "Certificate \<Rightarrow> duration" where
  "cert_lifetime c = sat64 (crt_NotAfter c - crt_NotBefore c)"

definition healthy_at :: "lib \<Rightarrow> Route \<Rightarrow> Certificate \<Rightarrow> time \<Rightarrow> bool" where
  "healthy_at L r c t \<longleftrightarrow>
     l_VerifyHostname L c (spec_Host (rt_Spec r)) \<and> crt_NotBefore c \<le> t \<and> t \<le> crt_NotAfter c
     \<and> proactiveRenewalThreshold L c (cert_lifetime c) < sat64 (crt_NotAfter c - t)"

lemma threshold_nonneg:
  "crt_NotBefore c \<le> crt_NotAfter c \<Longrightarrow> 0 \<le> proactiveRenewalThreshold L c (cert_lifetime c)"
proof -
  assume "crt_NotBefore c \<le> crt_NotAfter c"
  then have l: "0 \<le> cert_lifetime c" "in_int64 (cert_lifetime c)"
    by (simp_all add: cert_lifetime_def sat64_nonneg sat64_range)
  then have "0 \<le> cert_lifetime c div 3"
    by simp
  with proactiveRenewalThreshold_bounds_aux [OF l, of L c] show ?thesis
    by linarith
qed

lemma third_below_threshold:
  "crt_NotBefore c \<le> crt_NotAfter c \<Longrightarrow>
     cert_lifetime c sdiv 3 \<le> proactiveRenewalThreshold L c (cert_lifetime c)"
  using proactiveRenewalThreshold_bounds_aux [of "cert_lifetime c" L c]
  by (simp add: cert_lifetime_def sat64_nonneg sat64_range sdiv_nonneg)

lemma needsCertKey_healthy:
  assumes "route_certificate L r c" and "healthy_at L r c t"
  shows "needsCertKey L t r =
    Inr ([], sat64 (crt_NotAfter c - t) - proactiveRenewalThreshold L c (cert_lifetime c))"
proof -
  let ?thr = "proactiveRenewalThreshold L c (cert_lifetime c)"
  let ?rem = "sat64 (crt_NotAfter c - t)"
  from assms(2) have "crt_NotBefore c \<le> crt_NotAfter c" and lt: "?thr < ?rem"
    by (auto simp: healthy_at_def)
  then have "0 \<le> ?thr" and third: "cert_lifetime c sdiv 3 \<le> ?thr"
    by (simp_all add: threshold_nonneg third_below_threshold)
  with lt have "wrap64 (?rem - ?thr) = ?rem - ?thr"
    by (intro wrap64_between [of _ ?rem]) (simp_all add: sat64_range)
  with assms lt third show ?thesis
    by (auto simp: needsCertKey_def route_certificate_def healthy_at_def IsValid_def Let_def
        cert_lifetime_def)
qed

lemma needsCertKey_unhealthy:
  assumes "route_certificate L r c" and "\<not> healthy_at L r c t"
  shows "\<exists>reason. needsCertKey L t r = Inr (reason, 0) \<and> reason \<noteq> []"
  using assms
  by (auto simp: needsCertKey_def route_certificate_def healthy_at_def IsValid_def Let_def
      cert_lifetime_def)


lemma healthy_at_earlier:
  assumes "healthy_at L r c t" and "crt_NotAfter c - t \<le> int64_max"
    and "t \<le> t'" and "t' < t + (sat64 (crt_NotAfter c - t) - proactiveRenewalThreshold L c (cert_lifetime c))"
  shows "healthy_at L r c t' \<and> sat64 (crt_NotAfter c - t') = crt_NotAfter c - t'"
proof -
  let ?thr = "proactiveRenewalThreshold L c (cert_lifetime c)"
  from assms(1) have valid: "crt_NotBefore c \<le> t" "t \<le> crt_NotAfter c"
    by (simp_all add: healthy_at_def)
  then have thr: "0 \<le> ?thr"
    by (simp add: threshold_nonneg)
  from valid assms(2) have "sat64 (crt_NotAfter c - t) = crt_NotAfter c - t"
    by (intro sat64_id) (simp add: in_int64_def int64_min_def)
  with assms(4) have lt: "?thr < crt_NotAfter c - t'"
    by simp
  moreover from lt thr assms(2,3) have "sat64 (crt_NotAfter c - t') = crt_NotAfter c - t'"
    by (intro sat64_id) (simp add: in_int64_def int64_min_def)
  ultimately show ?thesis
    using assms(1,3) thr by (simp add: healthy_at_def)
qed

section \<open>Properties\<close>

text \<open>The Route carries a key and a certificate, but the certificate cannot be read.\<close>

definition route_undecodable :: "lib \<Rightarrow> Route \<Rightarrow> gerror \<Rightarrow> bool" where
  "route_undecodable L r err \<longleftrightarrow>
     (\<exists>tls. spec_TLS (rt_Spec r) = Some tls \<and> tls_Key tls \<noteq> [] \<and> tls_Certificate tls \<noteq> [] \<and>
        CertPemData_Certificate L \<lparr>pem_Crt = tls_Certificate tls, pem_Key = tls_Key tls\<rparr> = Inl err)"

definition certificate_missing :: "Route \<Rightarrow> bool" where
  "certificate_missing r \<longleftrightarrow>
     (case spec_TLS (rt_Spec r) of None \<Rightarrow> True | Some tls \<Rightarrow> tls_Key tls = [] \<or> tls_Certificate tls = [])"

lemma route_certificate_cases:
  obtains (missing) "certificate_missing r" | (undecodable) err where "route_undecodable L r err"
    | (present) c where "route_certificate L r c"
proof (cases "certificate_missing r")
  case False
  then obtain tls where "spec_TLS (rt_Spec r) = Some tls" "tls_Key tls \<noteq> []" "tls_Certificate tls \<noteq> []"
    by (auto simp: certificate_missing_def split: option.splits)
  then show thesis
    using undecodable present
    by (cases "CertPemData_Certificate L \<lparr>pem_Crt = tls_Certificate tls, pem_Key = tls_Key tls\<rparr>")
      (auto simp: route_undecodable_def route_certificate_def)
qed

lemma needsCertKey_undecodable:
  "route_undecodable L r err \<Longrightarrow> needsCertKey L t r = Inl (Wrapf ''can't decode certificate from Route'' err)"
  by (auto simp: needsCertKey_def route_undecodable_def)

lemma needsCertKey_missing:
  "certificate_missing r \<Longrightarrow> needsCertKey L t r = Inr (''Route is missing CertKey'', 0)"
  by (auto simp: needsCertKey_def certificate_missing_def split: option.splits)

lemma route_certificate_exclusive:
  "route_certificate L r c \<Longrightarrow> \<not> certificate_missing r \<and> \<not> route_undecodable L r err \<and> (route_certificate L r c' \<longrightarrow> c' = c)"
  "route_undecodable L r err \<Longrightarrow> \<not> certificate_missing r \<and> \<not> route_certificate L r c"
  "certificate_missing r \<Longrightarrow> \<not> route_certificate L r c \<and> \<not> route_undecodable L r err"
  by (auto simp: route_certificate_def route_undecodable_def certificate_missing_def)

text \<open>C22: the decision on every Route. A Route gets an empty reason, and a delay, exactly when it carries a certificate that
  matches the host, is valid now and has more validity left than its renewal point; the delay is positive and is what remains until that
  point. There is an error exactly when a key and a certificate are there but the certificate cannot be decoded. In every other
  case, a missing TLS section, key or certificate among them, there is a reason and no delay, and a renewal starts.\<close>

theorem needsCertKey_decision:
  "(needsCertKey L t r = Inr ([], d) \<longleftrightarrow>
      (\<exists>c. route_certificate L r c \<and> healthy_at L r c t \<and>
        d = sat64 (crt_NotAfter c - t) - proactiveRenewalThreshold L c (cert_lifetime c) \<and> 0 < d)) \<and>
   (isl (needsCertKey L t r) \<longleftrightarrow> (\<exists>err. route_undecodable L r err)) \<and>
   (certificate_missing r \<or> (\<exists>c. route_certificate L r c \<and> \<not> healthy_at L r c t) \<longleftrightarrow>
      (\<exists>reason. needsCertKey L t r = Inr (reason, 0) \<and> reason \<noteq> []))"
proof (cases rule: route_certificate_cases [where r = r and L = L])
  case missing
  then show ?thesis
    using route_certificate_exclusive(3) by (auto simp: needsCertKey_missing)
next
  case (undecodable err)
  then show ?thesis
    using route_certificate_exclusive(2) by (auto simp: needsCertKey_undecodable)
next
  case (present c)
  have only: "(\<exists>c'. route_certificate L r c' \<and> P c') \<longleftrightarrow> P c" "\<not> route_undecodable L r err" "\<not> certificate_missing r" for P err
    using route_certificate_exclusive(1) [OF present] present by blast+
  show ?thesis
  proof (cases "healthy_at L r c t")
    case True
    then have "0 < sat64 (crt_NotAfter c - t) - proactiveRenewalThreshold L c (cert_lifetime c)"
      by (simp add: healthy_at_def)
    with needsCertKey_healthy [OF present True] True show ?thesis
      unfolding only(1) by (auto simp: only(2,3))
  next
    case False
    then obtain reason where "needsCertKey L t r = Inr (reason, 0)" "reason \<noteq> []"
      using needsCertKey_unhealthy [OF present] by blast
    with False show ?thesis
      unfolding only(1) by (simp add: only(2,3))
  qed
qed

lemma fx_route_certificate: "route_certificate fx_lib fx_route fx_certificate"
  by (simp add: route_certificate_def fx_route_def fx_tls_def fx_certificate_decodes)

lemma fx_threshold: "proactiveRenewalThreshold fx_lib fx_certificate 90 = 39"
proof -
  have "replicate 8 (3 :: 8 word) = [3, 3, 3, 3, 3, 3, 3, 3]"
    by (simp add: eval_nat_numeral)
  then have "take 8 (l_sha256 fx_lib (crt_Raw fx_certificate)) = [3, 3, 3, 3, 3, 3, 3, 3]"
    by (simp add: fx_certificate_def)
  then have "BigEndian_Uint64 (l_sha256 fx_lib (crt_Raw fx_certificate)) mod 15 = 9"
    by (simp add: BigEndian_Uint64_def del: fx_lib_sel)
  then show ?thesis
    by (simp add: proactiveRenewalThreshold_def signed_divide_int_def wrap64_def)
qed

lemma fx_cert_lifetime [simp]: "cert_lifetime fx_certificate = 90"
  by (simp add: cert_lifetime_def fx_certificate_def sat64_def int64_max_def int64_min_def)

lemma fx_healthy: "healthy_at fx_lib fx_route fx_certificate 20"
  by (simp add: healthy_at_def fx_threshold)
    (simp add: fx_route_def fx_certificate_def sat64_def int64_max_def int64_min_def)

lemma fx_needsCertKey: "needsCertKey fx_lib 20 fx_route = Inr ([], 31)"
  using needsCertKey_healthy [OF fx_route_certificate fx_healthy]
  by (simp add: fx_threshold) (simp add: fx_certificate_def sat64_def int64_max_def int64_min_def)

theorem needsCertKey_decision_witness:
  "healthy_at fx_lib fx_route fx_certificate 20 \<and> needsCertKey fx_lib 20 fx_route = Inr ([], 31) \<and>
   (\<exists>reason. needsCertKey fx_lib 20 (fx_route\<lparr>rt_Spec := (rt_Spec fx_route)\<lparr>spec_TLS := None\<rparr>\<rparr>) = Inr (reason, 0) \<and> reason \<noteq> [])"
proof -
  have "certificate_missing (fx_route\<lparr>rt_Spec := (rt_Spec fx_route)\<lparr>spec_TLS := None\<rparr>\<rparr>)"
    by (simp add: certificate_missing_def)
  then show ?thesis
    using needsCertKey_decision [of fx_lib 20 "fx_route\<lparr>rt_Spec := (rt_Spec fx_route)\<lparr>spec_TLS := None\<rparr>\<rparr>" 0] fx_healthy fx_needsCertKey
    by simp
qed

text \<open>C23: the delay scheduled for a healthy certificate is exact: at every moment before it has passed the
  certificate is still healthy and the same moment is scheduled, and at that moment
  a renewal starts. (The remaining validity is assumed to fit a Duration, about 292 years.)\<close>

theorem needsCertKey_requeue_exact:
  assumes "route_certificate L r c" and "needsCertKey L t r = Inr ([], d)"
    and "crt_NotAfter c - t \<le> int64_max"
  shows "(\<forall>t'. t \<le> t' \<and> t' < t + d \<longrightarrow> needsCertKey L t' r = Inr ([], t + d - t'))
    \<and> (\<exists>reason. needsCertKey L (t + d) r = Inr (reason, 0) \<and> reason \<noteq> [])"
proof -
  let ?thr = "proactiveRenewalThreshold L c (cert_lifetime c)"
  have h: "healthy_at L r c t"
    using needsCertKey_unhealthy [OF assms(1), of t] assms(2) by auto
  then have d: "d = sat64 (crt_NotAfter c - t) - ?thr" "0 < d"
    using needsCertKey_healthy [OF assms(1) h] assms(2) by (auto simp: healthy_at_def)
  have rem: "sat64 (crt_NotAfter c - t) = crt_NotAfter c - t"
    using healthy_at_earlier [OF h assms(3), of t] d by simp
  have "needsCertKey L t' r = Inr ([], t + d - t')" if "t \<le> t'" "t' < t + d" for t'
    using healthy_at_earlier [OF h assms(3) that(1)] that needsCertKey_healthy [OF assms(1), of t']
    by (simp add: d rem)
  moreover have "\<not> healthy_at L r c (t + d)"
  proof
    assume "healthy_at L r c (t + d)"
    then have "t + d \<le> crt_NotAfter c" and lt: "?thr < sat64 (crt_NotAfter c - (t + d))"
      by (simp_all add: healthy_at_def)
    with assms(3) d have "sat64 (crt_NotAfter c - (t + d)) = crt_NotAfter c - (t + d)"
      by (intro sat64_id) (simp add: in_int64_def int64_min_def)
    with lt d rem show False by simp
  qed
  ultimately show ?thesis
    using needsCertKey_unhealthy [OF assms(1)] by blast
qed

theorem needsCertKey_requeue_exact_witness:
  "needsCertKey fx_lib 20 fx_route = Inr ([], 31)
   \<and> needsCertKey fx_lib 50 fx_route = Inr ([], 1)
   \<and> (\<exists>reason. needsCertKey fx_lib 51 fx_route = Inr (reason, 0) \<and> reason \<noteq> [])"
  using needsCertKey_requeue_exact [OF fx_route_certificate fx_needsCertKey] fx_needsCertKey
  by (simp add: fx_certificate_def int64_max_def)

text \<open>The renewal point of a certificate lies in the proactive window: at a third of the
  lifetime at the earliest, and before one half of it whenever the window is not empty.\<close>

theorem proactiveRenewalThreshold_bounds:
  assumes "0 \<le> lifetime" and "in_int64 lifetime"
  shows "lifetime div 3 \<le> proactiveRenewalThreshold L c lifetime
    \<and> proactiveRenewalThreshold L c lifetime \<le> lifetime div 2
    \<and> (lifetime div 3 < lifetime div 2 \<longrightarrow> proactiveRenewalThreshold L c lifetime < lifetime div 2)"
  using assms by (rule proactiveRenewalThreshold_bounds_aux)

theorem proactiveRenewalThreshold_bounds_witness:
  "(0 :: int) \<le> 90 \<and> in_int64 90 \<and> 30 \<le> proactiveRenewalThreshold fx_lib fx_certificate 90
    \<and> proactiveRenewalThreshold fx_lib fx_certificate 90 < 45"
  using proactiveRenewalThreshold_bounds [of 90 fx_lib fx_certificate]
  by (simp add: in_int64_def int64_min_def int64_max_def)

lemma backoff_loop_zero: "0 < mx \<Longrightarrow> backoff_loop n init mx 0 = 0"
  by (induction n) simp_all

text \<open>The backoff of failed orders is always zero: the loop multiplies a duration that starts
  at zero, so neither the initial value nor the number of failures ever delays an attempt.\<close>

theorem order_backoff_zero:
  assumes "0 < certOrderBackoffMax"
  shows "order_backoff failures certOrderBackoffInitial certOrderBackoffMax = 0"
  using assms by (simp add: order_backoff_def backoff_loop_zero)

theorem order_backoff_zero_witness:
  "(0 :: int) < 86400000000000 \<and> order_backoff 7 300000000000 86400000000000 = 0"
  using order_backoff_zero [of 86400000000000 7 300000000000] by simp

end
