(* ===== verification/Route_Sync.thy ===== *)
theory Route_Sync
  imports Challenge Renewal
begin

text \<open>
  \<^verbatim>\<open>sync\<close> of \<^verbatim>\<open>pkg/controller/route/route.go\<close>: one pass over a Route. The function is cut at the points
  where it can return, in the order of the code; a part that may end \<^verbatim>\<open>sync\<close> with \<^verbatim>\<open>return nil\<close>
  returns \<open>None\<close> for it. The status is a pointer the code keeps modifying; the parts hand it on.
  The context with its timeout shows as errors of the calls.
\<close>

section \<open>Definitions\<close>

abbreviation order_status :: "Status \<Rightarrow> string" where
  "order_status s \<equiv> ps_OrderStatus (st_ProvisioningStatus s)"

abbreviation order_uri :: "Status \<Rightarrow> string" where
  "order_uri s \<equiv> ps_OrderURI (st_ProvisioningStatus s)"

abbreviation upd_prov :: "(CertProvisioningStatus \<Rightarrow> CertProvisioningStatus) \<Rightarrow> Status \<Rightarrow> Status" where
  "upd_prov f s \<equiv> s\<lparr>st_ProvisioningStatus := f (st_ProvisioningStatus s)\<rparr>"

definition clear_order :: "Status \<Rightarrow> Status" where
  "clear_order = upd_prov (\<lambda>p. p\<lparr>ps_OrderURI := [], ps_OrderStatus := []\<rparr>)"

definition count_failure :: "string \<Rightarrow> Status \<Rightarrow> Status" where
  "count_failure previousOrderStatus s =
     (if order_status s \<noteq> previousOrderStatus
      then upd_prov (\<lambda>p. p\<lparr>ps_Failures := wrap64 (ps_Failures p + 1)\<rparr>) s else s)"

subsection \<open>Which Routes are synced\<close>

definition syncLoad :: "lib \<Rightarrow> env \<Rightarrow> RouteController \<Rightarrow> string \<Rightarrow> Route option io" where
  "syncLoad L E rc key =
     (case l_SplitMetaNamespaceKey L key of
        None \<Rightarrow> throw (LibErr ''cache.SplitMetaNamespaceKey'')
      | Some (namespace, _) \<Rightarrow>
          bind_io (routeByKey E (rc_routeInformers rc) namespace key) (\<lambda>obj.
            case obj of
              None \<Rightarrow> ret None
            | Some routeReadOnly \<Rightarrow>
                if om_DeletionTimestamp (rt_Meta routeReadOnly) \<noteq> None then ret None
                else if \<not> IsManaged (rt_Meta routeReadOnly) (rc_annotation rc) then ret None
                else if \<not> IsAdmitted routeReadOnly then ret None
                else ret (Some routeReadOnly)))"

subsection \<open>What there is to do\<close>

definition syncStatus :: "lib \<Rightarrow> RouteController \<Rightarrow> Route \<Rightarrow> Status io" where
  "syncStatus L rc route =
     (case getStatus L route of
        Inl err \<Rightarrow> throw (Errorf ''can't get status'')
      | Inr status \<Rightarrow>
          let backoff = order_backoff (ps_Failures (st_ProvisioningStatus status))
                (rc_certOrderBackoffInitial rc) (rc_certOrderBackoffMax rc)
          in ret (upd_prov (\<lambda>p. p\<lparr>ps_EarliestAttemptAt := ps_StartedAt p + backoff\<rparr>) status))"

definition syncNeeds :: "lib \<Rightarrow> env \<Rightarrow> string \<Rightarrow> Route \<Rightarrow> Status \<Rightarrow> Status option io" where
  "syncNeeds L E key route status =
     bind_io (time_Now E) (\<lambda>now.
       case needsCertKey L now route of
         Inl err \<Rightarrow> throw err
       | Inr (reason, requeueAfter) \<Rightarrow>
           if reason \<noteq> [] \<or> order_status status \<in> {StatusPending, StatusProcessing, StatusReady}
           then ret (Some status)
           else
             seq_io (if requeueAfter > 0 then log_ev (QueueAddAfter RouteQueue key requeueAfter) else ret ())
               (if order_uri status \<noteq> [] \<or> order_status status \<noteq> []
                then seq_io (updateStatus L E route (clear_order status)) (ret None)
                else ret None))"

text \<open>The second \<^verbatim>\<open>time.Now()\<close> is an argument of the log line.\<close>

definition syncCleanOrder :: "lib \<Rightarrow> env \<Rightarrow> string \<Rightarrow> Route \<Rightarrow> Status \<Rightarrow> Status option io" where
  "syncCleanOrder L E key route status =
     (if order_status status \<in> {[], StatusValid} then ret (Some (clear_order status))
      else if order_status status \<in> {StatusInvalid, StatusExpired, StatusRevoked, StatusDeactivated} then
        bind_io (time_Now E) (\<lambda>now.
        seq_io (time_Now E)
          (let delay = sat64 (ps_EarliestAttemptAt (st_ProvisioningStatus status) - now)
           in if delay > 0
              then seq_io (log_ev (QueueAddAfter RouteQueue key delay))
                     (seq_io (updateStatus L E route status) (ret None))
              else ret (Some (clear_order status))))
      else ret (Some status))"

subsection \<open>The ACME client and the order\<close>

definition syncClient :: "lib \<Rightarrow> env \<Rightarrow> RouteController \<Rightarrow> Route \<Rightarrow> AcmeClient io" where
  "syncClient L E rc route =
     bind_io (wrap_err ''can't get cert issuer''
       (IssuerForObject L E (rt_Meta route) (rc_controllerNamespace rc) (rc_kubeInformers rc)))
     (\<lambda>(certIssuer, certIssuerSecret).
        if ci_Type certIssuer \<noteq> CertIssuerTypeAcme then throw (Errorf ''unsupported cert issuer type'')
        else case ci_AcmeCertIssuer certIssuer of
          None \<Rightarrow> throw (Errorf ''ACME issuer is missing AcmeCertIssuer spec'')
        | Some acmeIssuer \<Rightarrow>
            bind_io (of_sum (\<lambda>e. e) (PrivateKeyFromSecret L certIssuerSecret)) (\<lambda>privateKey.
              let profile = certProfileForRoute route (rc_certDefaultProfile rc)
              in ret \<lparr>cl_DirectoryURL = ac_DirectoryURL acmeIssuer, cl_Key = privateKey,
                      cl_Profile = (if profile \<noteq> [] then Some profile else None)\<rparr>))"

definition syncNewOrder :: "lib \<Rightarrow> env \<Rightarrow> Route \<Rightarrow> AcmeClient \<Rightarrow> Status \<Rightarrow> unit io" where
  "syncNewOrder L E route acmeClient status =
     bind_io (acme_AuthorizeOrder E acmeClient (spec_Host (rt_Spec route))) (\<lambda>order.
     bind_io (time_Now E) (\<lambda>now.
       updateStatus L E route
         (upd_prov (\<lambda>p. p\<lparr>ps_StartedAt := now, ps_OrderURI := ord_URI order, ps_OrderStatus := ord_Status order\<rparr>) status)))"

text \<open>\<open>None\<close>: the order is gone and the status has been updated.\<close>

definition syncGetOrder :: "lib \<Rightarrow> env \<Rightarrow> Route \<Rightarrow> AcmeClient \<Rightarrow> Status \<Rightarrow> Order option io" where
  "syncGetOrder L E route acmeClient status =
     bind_io (attempt (acme_GetOrder E acmeClient (order_uri status))) (\<lambda>r.
       case r of
         Inl err \<Rightarrow>
           if err = AcmeErr (AcmeProblem 404)
           then seq_io (updateStatus L E route (upd_prov (\<lambda>p. p\<lparr>ps_OrderURI := []\<rparr>) status)) (ret None)
           else throw err
       | Inr order \<Rightarrow> ret (Some (order\<lparr>ord_URI := order_uri status\<rparr>)))"

subsection \<open>The states of an order\<close>

definition syncProcessing :: "lib \<Rightarrow> env \<Rightarrow> string \<Rightarrow> Route \<Rightarrow> Status \<Rightarrow> unit io" where
  "syncProcessing L E key route status = seq_io (requeue15 key) (updateStatus L E route status)"

text \<open>One attempt to store the certificate: the body of the closure given to \<^verbatim>\<open>RetryOnConflict\<close>.\<close>

definition install_certificate :: "CertPemData \<Rightarrow> Route \<Rightarrow> Route" where
  "install_certificate certPemData route =
     (let tls = (case spec_TLS (rt_Spec route) of
            None \<Rightarrow> \<lparr>tls_Termination = ''edge'', tls_Certificate = [], tls_Key = [], tls_CACertificate = [],
                     tls_DestinationCACertificate = [], tls_InsecureEdgeTerminationPolicy = ''Redirect''\<rparr>
          | Some tls \<Rightarrow> tls)
      in route\<lparr>rt_Spec := (rt_Spec route)
           \<lparr>spec_TLS := Some (tls\<lparr>tls_Key := pem_Key certPemData, tls_Certificate := pem_Crt certPemData\<rparr>)\<rparr>\<rparr>)"

definition updateRouteCertificate :: "lib \<Rightarrow> env \<Rightarrow> Route \<Rightarrow> Status \<Rightarrow> CertPemData \<Rightarrow> unit io" where
  "updateRouteCertificate L E route status certPemData =
     bind_io (getRoute E (om_Namespace (rt_Meta route)) (om_Name (rt_Meta route))) (\<lambda>freshRoute.
       case setStatus L (rt_Meta freshRoute) status of
         (_, Inl statusErr) \<Rightarrow> throw (Wrapf ''can't set status'' statusErr)
       | (_, Inr newMeta) \<Rightarrow>
           seq_io (updateRouteObject E (om_Namespace newMeta)
               (install_certificate certPemData (freshRoute\<lparr>rt_Meta := newMeta\<rparr>)))
             (ret ()))"

definition syncReady :: "lib \<Rightarrow> env \<Rightarrow> RouteController \<Rightarrow> Route \<Rightarrow> AcmeClient \<Rightarrow> Status \<Rightarrow> Order \<Rightarrow> unit io" where
  "syncReady L E rc route acmeClient status0 order =
     bind_io (wrap_err ''failed to generate RSA key'' (rsa_GenerateKey E (rc_certDefaultRSAKeyBitSize rc))) (\<lambda>privateKey.
     bind_io (wrap_err ''failed to create certificate request''
         (x509_CreateCertificateRequest E (spec_Host (rt_Spec route)) privateKey)) (\<lambda>csr.
     bind_io (wrap_err ''can't create cert order'' (acme_CreateOrderCert E acmeClient (ord_FinalizeURL order) csr)) (\<lambda>der.
     bind_io (wrap_err ''can't convert certificate from DER to PEM''
         (of_sum (\<lambda>e. e) (NewCertificateFromDER L der privateKey))) (\<lambda>certPemData.
       let status = upd_prov (\<lambda>p. p\<lparr>ps_OrderStatus := StatusValid, ps_Failures := 0, ps_OrderError := None\<rparr>) status0
       in seq_io (wrap_err ''can't update route with new certificates after retries''
              (e_RetryOnConflict E (updateRouteCertificate L E route status certPemData)))
            (cleanup_logged E route)))))"

definition syncValid :: "lib \<Rightarrow> env \<Rightarrow> Route \<Rightarrow> string \<Rightarrow> Status \<Rightarrow> unit io" where
  "syncValid L E route previousOrderStatus status =
     seq_io (cleanup_logged E route)
       (updateStatus L E route (clear_order (count_failure previousOrderStatus status)))"

definition syncInvalid :: "lib \<Rightarrow> env \<Rightarrow> Route \<Rightarrow> string \<Rightarrow> Status \<Rightarrow> unit io" where
  "syncInvalid L E route previousOrderStatus status =
     seq_io (log_ev (RecordEvent (om_Namespace (rt_Meta route)) (om_Name (rt_Meta route)) ''Warning'' ''AcmeFailedOrder''))
       (seq_io (cleanup_logged E route)
         (updateStatus L E route (count_failure previousOrderStatus status)))"

definition syncExpired :: "lib \<Rightarrow> env \<Rightarrow> Route \<Rightarrow> string \<Rightarrow> Status \<Rightarrow> unit io" where
  "syncExpired L E route previousOrderStatus status =
     seq_io (cleanup_logged E route)
       (updateStatus L E route (count_failure previousOrderStatus status))"

definition syncOrder ::
  "lib \<Rightarrow> env \<Rightarrow> RouteController \<Rightarrow> string \<Rightarrow> Route \<Rightarrow> AcmeClient \<Rightarrow> Status \<Rightarrow> Order \<Rightarrow> unit io" where
  "syncOrder L E rc key route acmeClient status0 order =
     (let previousOrderStatus = order_status status0;
          status = upd_prov (\<lambda>p. p\<lparr>ps_OrderStatus := ord_Status order\<rparr>) status0
      in if ord_Status order = StatusPending then syncPending L E rc key route acmeClient status order
         else if ord_Status order = StatusProcessing then syncProcessing L E key route status
         else if ord_Status order = StatusReady then syncReady L E rc route acmeClient status order
         else if ord_Status order = StatusValid then syncValid L E route previousOrderStatus status
         else if ord_Status order = StatusInvalid then syncInvalid L E route previousOrderStatus status
         else if ord_Status order \<in> {StatusExpired, StatusRevoked, StatusDeactivated}
           then syncExpired L E route previousOrderStatus status
         else throw (Errorf ''invalid new order status''))"

subsection \<open>The whole pass\<close>

definition syncProvision :: "lib \<Rightarrow> env \<Rightarrow> RouteController \<Rightarrow> string \<Rightarrow> Route \<Rightarrow> Status \<Rightarrow> unit io" where
  "syncProvision L E rc key route status =
     bind_io (syncClient L E rc route) (\<lambda>acmeClient.
       if length (order_uri status) = 0 then syncNewOrder L E route acmeClient status
       else bind_io (syncGetOrder L E route acmeClient status) (\<lambda>found.
         case found of
           None \<Rightarrow> ret ()
         | Some order \<Rightarrow> syncOrder L E rc key route acmeClient status order))"

definition syncRoute :: "lib \<Rightarrow> env \<Rightarrow> RouteController \<Rightarrow> string \<Rightarrow> Route \<Rightarrow> unit io" where
  "syncRoute L E rc key route =
     bind_io (syncStatus L rc route) (\<lambda>status0.
     bind_io (syncNeeds L E key route status0) (\<lambda>needed.
       case needed of
         None \<Rightarrow> ret ()
       | Some status1 \<Rightarrow>
           bind_io (syncCleanOrder L E key route status1) (\<lambda>cleaned.
             case cleaned of
               None \<Rightarrow> ret ()
             | Some status \<Rightarrow> syncProvision L E rc key route status)))"

definition sync :: "lib \<Rightarrow> env \<Rightarrow> RouteController \<Rightarrow> string \<Rightarrow> unit io" where
  "sync L E rc key =
     bind_io (syncLoad L E rc key) (\<lambda>loaded.
       case loaded of
         None \<Rightarrow> ret ()
       | Some route \<Rightarrow> syncRoute L E rc key route)"

section \<open>Composition\<close>

text \<open>
  The events a pass is judged by (accepting a challenge, opening an order, obtaining a
  certificate, storing a Route) come from one part each; everything else is \<open>plain\<close>. A property of event sequences
  that holds of plain events and of these parts holds of a pass.
\<close>

fun plain :: "ev \<Rightarrow> bool" where
  "plain (Accept c ch r) = False"
| "plain (AuthorizeOrder c d r) = False"
| "plain (RouteUpdate ns x r) = False"
| "plain (CreateOrderCert c u csr r) = False"
| "plain _ = True"

lemma read_plain: "is_read e \<Longrightarrow> plain e"
  by (cases e) simp_all

lemma emits_plain_updateStatus [io_intro]: "emits plain (updateStatus L E route status)"
  by (rule emits_updateStatus) (auto simp: patches_status_def)

lemma emits_plain_cleanup [io_intro]: "emits plain (cleanup_logged E route)"
  by (rule emits_cleanup_logged) simp

lemma emits_plain_requeue15 [io_intro]: "emits plain (requeue15 key)"
  unfolding requeue15_def by (rule emits_log_ev) simp

lemma emits_plain_IssuerForObject [io_intro]: "emits plain (IssuerForObject L E m ns i)"
  by (intro emits_IssuerForObject read_plain)

lemma emits_plain_syncLoad [io_intro]: "emits plain (syncLoad L E rc key)"
  unfolding syncLoad_def by (auto intro!: io_intro read_plain split: option.splits)

lemma emits_plain_parts [io_intro]:
  "emits plain (syncStatus L rc route)" "emits plain (syncNeeds L E key route s)"
  "emits plain (syncCleanOrder L E key route s)" "emits plain (syncClient L E rc route)"
  "emits plain (syncGetOrder L E route c s)" "emits plain (syncProcessing L E key route s)"
  "emits plain (syncValid L E route p s)" "emits plain (syncInvalid L E route p s)"
  "emits plain (syncExpired L E route p s)"
  unfolding syncStatus_def syncNeeds_def syncCleanOrder_def syncClient_def syncGetOrder_def syncProcessing_def
    syncValid_def syncInvalid_def syncExpired_def Let_def
  by (auto intro!: io_intro split: option.splits prod.splits sum.splits)

lemma produces_syncRoute:
  assumes closed: "closed_append Q" and plain: "\<And>t. list_all plain t \<Longrightarrow> Q t"
    and pending: "\<And>c s ord. produces Q (syncPending L E rc key route c s ord)"
    and new: "\<And>c s. produces Q (syncNewOrder L E route c s)"
    and ready: "\<And>c s ord. produces Q (syncReady L E rc route c s ord)"
  shows "produces Q (syncRoute L E rc key route)"
proof -
  have p: "emits plain m \<Longrightarrow> produces Q m" for m :: "'b io"
    by (erule produces_emits) (rule plain)
  have order: "produces Q (syncOrder L E rc key route c s ord)" for c s ord
    unfolding syncOrder_def Let_def
    by (auto intro!: pending ready p emits_plain_parts emits_throw)
  have prov: "produces Q (syncProvision L E rc key route s)" for s
    unfolding syncProvision_def
    by (auto intro!: produces_bind [OF closed] p [OF emits_plain_parts(4)] p [OF emits_plain_parts(5)] new order
        p [OF emits_ret] split: option.splits)
  show ?thesis
    unfolding syncRoute_def
    by (auto intro!: produces_bind [OF closed] p [OF emits_plain_parts(1)] p [OF emits_plain_parts(2)]
        p [OF emits_plain_parts(3)] prov p [OF emits_ret] split: option.splits)
qed

lemma sync_cases:
  assumes "sync L E rc key h = (r, h')"
  obtains (skipped) e where "syncLoad L E rc key h = (Inl e, h')" "r = Inl e"
    | (ignored) "syncLoad L E rc key h = (Inr None, h')" "r = Inr ()"
    | (synced) route h1 where "syncLoad L E rc key h = (Inr (Some route), h1)" "syncRoute L E rc key route h1 = (r, h')"
  using assms
  by (auto simp: sync_def bind_io_def ret_def split: prod.splits sum.splits option.splits)

lemma syncLoad_reads: "emits is_read (syncLoad L E rc key)"
  unfolding syncLoad_def by (auto intro!: io_intro split: option.splits)

lemma produces_sync:
  assumes "sync L E rc key h = (r, h')"
    and "closed_append Q" and "\<And>t. list_all is_read t \<Longrightarrow> Q t"
    and "\<And>route h1. syncLoad L E rc key h = (Inr (Some route), h1) \<Longrightarrow> produces Q (syncRoute L E rc key route)"
  shows "\<exists>t. h' = h @ t \<and> Q t"
  using assms(1)
proof (cases rule: sync_cases)
  case skipped
  with assms(3) emitsD [OF syncLoad_reads] show ?thesis by blast
next
  case ignored
  with assms(3) emitsD [OF syncLoad_reads] show ?thesis by blast
next
  case (synced route h1)
  then obtain t u where "h1 = h @ t" "Q t" "h' = h1 @ u" "Q u"
    using assms(3,4) emitsD [OF syncLoad_reads] producesD by (metis (no_types, opaque_lifting))
  with assms(2) show ?thesis
    by (auto simp: closed_append_def)
qed

lemma emits_scope_cleanup [io_intro]: "emits (route_scope key route) (cleanup_logged E route)"
  by (rule emits_cleanup_logged) simp

lemma emits_scope_IssuerForObject [io_intro]: "emits (route_scope key route) (IssuerForObject L E m ns i)"
  by (intro emits_IssuerForObject read_scope)

text \<open>What the API server answers to a read of a Route is the Route of that namespace and name.\<close>

definition gets_named :: "env \<Rightarrow> bool" where
  "gets_named E \<longleftrightarrow> (\<forall>h ns n route. e_apiRouteGet E h ns n = Inr route \<longrightarrow>
     om_Namespace (rt_Meta route) = ns \<and> om_Name (rt_Meta route) = n)"

lemma getRoute_named:
  "gets_named E \<Longrightarrow> yields (\<lambda>r. om_Namespace (rt_Meta r) = ns \<and> om_Name (rt_Meta r) = n) (getRoute E ns n)"
  unfolding yields_def getRoute_def by (auto simp: gets_named_def bind_io_Inr call_def of_sum_def throw_def ret_def split: sum.splits)

lemma emits_scope_updateRouteCertificate:
  assumes "gets_named E"
  shows "emits (route_scope key route) (updateRouteCertificate L E route s pem)"
  unfolding updateRouteCertificate_def
  by (rule emits_bind_yields [OF _ getRoute_named [OF assms]])
    (auto intro!: io_intro simp: setStatus_def install_certificate_def Let_def split: option.splits)

lemma emits_scope_parts [io_intro]:
  "emits (route_scope key route) (syncStatus L rc route)" "emits (route_scope key route) (syncNeeds L E key route s)"
  "emits (route_scope key route) (syncCleanOrder L E key route s)" "emits (route_scope key route) (syncClient L E rc route)"
  "emits (route_scope key route) (syncGetOrder L E route c s)" "emits (route_scope key route) (syncProcessing L E key route s)"
  "emits (route_scope key route) (syncValid L E route p s)" "emits (route_scope key route) (syncInvalid L E route p s)"
  "emits (route_scope key route) (syncExpired L E route p s)" "emits (route_scope key route) (syncNewOrder L E route c s)"
  unfolding syncStatus_def syncNeeds_def syncCleanOrder_def syncClient_def syncGetOrder_def syncProcessing_def
    syncValid_def syncInvalid_def syncExpired_def syncNewOrder_def Let_def
  by (auto intro!: io_intro split: option.splits prod.splits sum.splits)

text \<open>All of a pass but the update of the Route is in scope whatever the server answers.\<close>

lemma emits_updateRouteCertificate:
  assumes "\<And>ns n r. P (RouteGet ns n r)" and "\<And>ns x r. P (RouteUpdate ns x r)"
  shows "emits P (updateRouteCertificate L E route s pem)"
  unfolding updateRouteCertificate_def
  by (auto intro!: io_intro assms split: prod.splits sum.splits)

lemma emits_syncReady:
  assumes "retry_contract (e_RetryOnConflict E)" and update: "\<And>s pem. emits P (updateRouteCertificate L E route s pem)"
    and scope: "\<And>e. route_scope key route e \<Longrightarrow> P e"
  shows "emits P (syncReady L E rc route c s ord)"
  unfolding syncReady_def Let_def
  by (auto intro!: io_intro emits_retry [OF assms(1)] update emits_mono [OF emits_scope_cleanup scope] scope)

lemma emits_syncRoute:
  assumes "retry_contract (e_RetryOnConflict E)" and update: "\<And>s pem. emits P (updateRouteCertificate L E route s pem)"
    and scope: "\<And>e. route_scope key route e \<Longrightarrow> P e"
  shows "emits P (syncRoute L E rc key route)"
proof -
  note parts = emits_scope_parts [THEN emits_mono, OF scope]
  show ?thesis
    unfolding syncRoute_def syncProvision_def syncOrder_def Let_def
    by (auto intro!: io_intro parts emits_scope_syncPending [THEN emits_mono, OF scope] emits_syncReady [OF assms] split: option.splits)
qed

lemma emits_scope_syncRoute:
  assumes "retry_contract (e_RetryOnConflict E)" and "gets_named E"
  shows "emits (route_scope key route) (syncRoute L E rc key route)"
  using assms(1) emits_scope_updateRouteCertificate [OF assms(2)] by (rule emits_syncRoute)

section \<open>How far a pass goes\<close>

definition in_progress :: "Status \<Rightarrow> bool" where
  "in_progress s \<longleftrightarrow> order_uri s \<noteq> [] \<and> order_status s \<in> {StatusPending, StatusProcessing, StatusReady}"

fun opens_order :: "ev \<Rightarrow> bool" where
  "opens_order (AuthorizeOrder c d r) = True"
| "opens_order _ = False"

lemma plain_opens: "plain e \<Longrightarrow> \<not> opens_order e"
  by (cases e) simp_all

lemma syncStatus_order:
  "syncStatus L rc route h = (Inr s, h') \<Longrightarrow>
    h' = h \<and> (\<exists>s0. getStatus L route = Inr s0 \<and> order_uri s = order_uri s0 \<and> order_status s = order_status s0)"
  by (auto simp: syncStatus_def throw_def ret_def Let_def split: sum.splits)

lemma syncNeeds_eq:
  "syncNeeds L E key route s h =
     (case needsCertKey L (e_Now E h) route of
        Inl err \<Rightarrow> throw err
      | Inr decision \<Rightarrow>
          if fst decision \<noteq> [] \<or> order_status s \<in> {StatusPending, StatusProcessing, StatusReady} then ret (Some s)
          else seq_io (if snd decision > 0 then log_ev (QueueAddAfter RouteQueue key (snd decision)) else ret ())
            (if order_uri s \<noteq> [] \<or> order_status s \<noteq> []
             then seq_io (updateStatus L E route (clear_order s)) (ret None) else ret None))
       (h @ [Clock (e_Now E h)])"
  by (auto simp: syncNeeds_def time_Now_def bind_io_def call_def split: sum.splits)

lemma syncNeeds_same: "syncNeeds L E key route s h = (Inr (Some s'), h') \<Longrightarrow> s' = s"
  by (auto simp: syncNeeds_eq bind_io_Inr seq_io_def throw_def ret_def split: sum.splits if_splits)

lemma in_progress_kept:
  assumes "in_progress s"
  shows "syncNeeds L E key route s h \<noteq> (Inr None, h')"
    and "syncCleanOrder L E key route s = ret (Some s)"
  using assms
  by (auto simp: in_progress_def syncNeeds_eq throw_def ret_def split: sum.splits)
    (auto simp: syncCleanOrder_def acme_status_names)

text \<open>A pass after the Route was loaded: it ends early, or reaches the order with a client.\<close>

lemma syncProvision_cases:
  assumes "syncProvision L E rc key route s h = (r, h')"
  obtains (early) t where "h' = h @ t" "list_all plain t"
    | (new_order) c t where "list_all plain t" "order_uri s = []" "syncNewOrder L E route c s (h @ t) = (r, h')"
    | (order) c ord t where "list_all plain t" "order_uri s \<noteq> []" "syncOrder L E rc key route c s ord (h @ t) = (r, h')"
proof -
  note run = assms [unfolded syncProvision_def]
  from run emits_plain_parts(4) show thesis
  proof (cases rule: bind_io_emitsE)
    case client: (went_on c t1)
    show thesis
    proof (cases "order_uri s = []")
      case True
      with new_order client show thesis by simp
    next
      case False
      with client(3) have "bind_io (syncGetOrder L E route c s) (\<lambda>found. case found of None \<Rightarrow> ret ()
          | Some order \<Rightarrow> syncOrder L E rc key route c s order) (h @ t1) = (r, h')"
        by simp
      from this emits_plain_parts(5) show thesis
      proof (cases rule: bind_io_emitsE)
        case found: (went_on o' t2)
        with early [of "t1 @ t2"] order [of "t1 @ t2"] False client show thesis
          by (cases o') (auto simp: ret_def)
      qed (use early client in auto)
    qed
  qed (use early in auto)
qed

lemma syncRoute_cases:
  assumes "syncRoute L E rc key route h = (r, h')"
  obtains (early) t where "h' = h @ t" "list_all plain t"
    | (provision) s s0 t where "list_all plain t" "getStatus L route = Inr s0" "in_progress s0 \<Longrightarrow> order_uri s \<noteq> []"
        "syncProvision L E rc key route s (h @ t) = (r, h')"
proof -
  note run = assms [unfolded syncRoute_def]
  from run emits_plain_parts(1) show thesis
  proof (cases rule: bind_io_emitsE)
    case (went_on s1 t1)
    then obtain s0 where s0: "getStatus L route = Inr s0" "t1 = []" "order_uri s1 = order_uri s0" "order_status s1 = order_status s0"
      using syncStatus_order by fastforce
    from went_on(3) emits_plain_parts(2) show thesis
    proof (cases rule: bind_io_emitsE)
      case needs: (went_on needed t2)
      show thesis
      proof (cases needed)
        case None
        with needs early went_on s0 show thesis by (auto simp: ret_def)
      next
        case (Some s2)
        then have s2: "s2 = s1" using needs(1) syncNeeds_same by blast
        from needs(3) [unfolded Some option.case] emits_plain_parts(3) show thesis
        proof (cases rule: bind_io_emitsE)
          case clean: (went_on cleaned t3)
          have "in_progress s0 \<Longrightarrow> cleaned = Some s1"
            using clean(1) s2 s0 in_progress_kept(2) [of s1 L E key route] by (auto simp: in_progress_def ret_def)
          then have "cleaned = Some a \<Longrightarrow> in_progress s0 \<Longrightarrow> order_uri a \<noteq> []" for a
            using s0 by (auto simp: in_progress_def)
          then show thesis
            using early [of "t2 @ t3"] provision [of "t2 @ t3" s0, OF _ s0(1)] clean(2,3) needs(2) s0(2)
            by (cases cleaned) (auto simp: ret_def)
        qed (use early needs went_on in auto)
      qed
    qed (use early went_on in auto)
  qed (use early in auto)
qed

lemma opens_order_syncOrder:
  assumes "retry_contract (e_RetryOnConflict E)"
  shows "emits (\<lambda>e. \<not> opens_order e) (syncOrder L E rc key route c s ord)"
proof -
  have "emits (\<lambda>e. \<not> opens_order e) (syncReady L E rc route c st ord)" for st
    unfolding syncReady_def updateRouteCertificate_def Let_def
    by (auto intro!: io_intro emits_retry [OF assms] emits_cleanup_logged split: prod.splits sum.splits)
  moreover have "emits (\<lambda>e. \<not> opens_order e) (syncPending L E rc key route c st ord)" for st
    using emits_syncPending by (rule emits_mono) (auto elim!: opens_order.elims)
  moreover have plain: "emits plain m \<Longrightarrow> emits (\<lambda>e. \<not> opens_order e) m" for m :: "'b io"
    by (erule emits_mono) (rule plain_opens)
  ultimately show ?thesis
    unfolding syncOrder_def Let_def by (auto intro!: plain emits_plain_parts emits_throw)
qed

text \<open>An event that is not plain shows how far the pass went.\<close>

lemma reads_plain: "list_all is_read t \<Longrightarrow> list_all plain t"
  using read_plain by (auto simp: list_all_iff)

lemma sync_reaches:
  assumes "sync L E rc key h = (r, h @ t)" and "e \<in> set t" and "\<not> plain e"
  obtains (new_order) route h1 c s t1 where "syncLoad L E rc key h = (Inr (Some route), h1)" "list_all plain t1"
        "syncNewOrder L E route c s (h @ t1) = (r, h @ t)"
    | (order) route h1 c s ord t1 where "syncLoad L E rc key h = (Inr (Some route), h1)" "list_all plain t1"
        "syncOrder L E rc key route c s ord (h @ t1) = (r, h @ t)"
proof -
  have none: False if "h @ t = h @ u" "list_all plain u" for u
    using that assms(2,3) by (auto simp: list_all_iff)
  from assms(1) obtain route h1 where route: "syncLoad L E rc key h = (Inr (Some route), h1)"
      "syncRoute L E rc key route h1 = (r, h @ t)"
    using none reads_plain emitsD [OF syncLoad_reads] by (metis sync_cases)
  obtain t0 where t0: "h1 = h @ t0" "list_all plain t0"
    using route(1) emitsD [OF syncLoad_reads] reads_plain by blast
  from route(2) obtain s t1 where s: "list_all plain t1" "syncProvision L E rc key route s (h1 @ t1) = (r, h @ t)"
  proof (cases rule: syncRoute_cases)
    case (early u)
    then show thesis using none [of "t0 @ u"] t0 by simp
  qed (use that in blast)
  from s(2) show thesis
  proof (cases rule: syncProvision_cases)
    case (early u)
    then show thesis using none [of "t0 @ t1 @ u"] t0 s(1) by simp
  next
    case (new_order c u)
    then show thesis using that(1) [of route h1 "t0 @ t1 @ u" c s] route t0 s(1) by simp
  next
    case (order c ord u)
    then show thesis using that(2) [of route h1 "t0 @ t1 @ u" c s ord] route t0 s(1) by simp
  qed
qed

lemma syncNewOrder_records:
  assumes "syncNewOrder L E route c s h = (r, h')"
  shows "(\<exists>e. h' = h @ [AuthorizeOrder c (spec_Host (rt_Spec route)) (Inl e)]) \<or>
    (\<exists>ord now s'. updateStatus L E route s' (h @ [AuthorizeOrder c (spec_Host (rt_Spec route)) (Inr ord), Clock now]) = (r, h') \<and>
       order_uri s' = ord_URI ord \<and> order_status s' = ord_Status ord \<and> ps_StartedAt (st_ProvisioningStatus s') = now)"
proof -
  let ?a = "e_AuthorizeOrder E h c (spec_Host (rt_Spec route))"
  show ?thesis
  proof (cases ?a)
    case (Inl e)
    with assms show ?thesis
      by (auto simp: syncNewOrder_def acme_AuthorizeOrder_def io_defs)
  next
    case (Inr ord)
    let ?h = "h @ [AuthorizeOrder c (spec_Host (rt_Spec route)) (Inr ord)]"
    have "updateStatus L E route (upd_prov (\<lambda>p. p\<lparr>ps_StartedAt := e_Now E ?h, ps_OrderURI := ord_URI ord,
        ps_OrderStatus := ord_Status ord\<rparr>) s) (?h @ [Clock (e_Now E ?h)]) = (r, h')"
      using assms Inr by (simp add: syncNewOrder_def acme_AuthorizeOrder_def time_Now_def io_defs)
    then show ?thesis
      by (intro disjI2 exI conjI) (assumption | simp)+
  qed
qed

end
