(* ===== verification/Sync_Scenario.thy ===== *)
theory Sync_Scenario
  imports Route_Sync
begin

text \<open>
  A concrete cluster for the witnesses: one managed and admitted Route whose certificate is due,
  an issuer with its account key, and an ACME server whose order is in the state \<open>st\<close>. The exposer objects do
  not exist yet; the exposed endpoint answers with the right response.
\<close>

definition sc_route :: "string \<Rightarrow> Route" where
  "sc_route status = fx_route\<lparr>rt_Meta := (fx_meta ''web'')\<lparr>om_Annotations :=
     Some [''kubernetes.io/tls-acme'' \<mapsto> ''true'', AcmeStatusAnnotation \<mapsto> status]\<rparr>\<rparr>"

definition sc_issuer :: ConfigMap where
  "sc_issuer = \<lparr>cfg_Meta = fx_meta ''issuer'', cfg_Data = Some [CertIssuerDataKey \<mapsto> ''account'']\<rparr>"

definition sc_account :: Secret where
  "sc_account = \<lparr>sec_Meta = fx_meta ''account'', sec_Type = ''Opaque'', sec_Data = Some [''tls.key'' \<mapsto> ''1110key''],
     sec_StringData = None\<rparr>"

definition sc_challenge :: Challenge where
  "sc_challenge = \<lparr>ch_Type = ''http-01'', ch_URI = ''ch'', ch_Token = ''tok'', ch_Status = ''pending''\<rparr>"

definition sc_order :: "string \<Rightarrow> Order" where
  "sc_order st = \<lparr>ord_URI = ''uri'', ord_Status = st, ord_AuthzURLs = [''authz''], ord_FinalizeURL = ''finalize''\<rparr>"

definition sc_client :: AcmeClient where
  "sc_client = \<lparr>cl_DirectoryURL = ''https://acme/directory'', cl_Key = ''key'', cl_Profile = None\<rparr>"

definition sc_response :: HttpResponse where
  "sc_response = \<lparr>hr_StatusCode = 200, hr_FirstRead = ''tok.key'', hr_ReadError = False\<rparr>"

definition sc_env :: "string \<Rightarrow> string \<Rightarrow> env" where
  "sc_env status st = fx_env
     \<lparr>e_routeByKey := (\<lambda>h f k. Inr (Some (sc_route status))),
      e_configMapList := (\<lambda>h f ns. Inr (if ns = ''ns'' then [sc_issuer] else [])),
      e_secretGet := (\<lambda>h f ns n. if n = ''account'' then Inr sc_account else Inl NotFound),
      e_apiRoutePatch := (\<lambda>h ns n kv. Inr (sc_route status)),
      e_apiRouteGet := (\<lambda>h ns n. if ns = ''ns'' \<and> n = ''web'' then Inr (sc_route status) else Inl NotFound),
      e_queueGet := (\<lambda>h q. Some ''ns/web''),
      e_AuthorizeOrder := (\<lambda>h c d. Inr (sc_order ''pending'')),
      e_GetOrder := (\<lambda>h c u. Inr (sc_order st)),
      e_GetAuthorization := (\<lambda>h c u. Inr \<lparr>az_URI = u, az_Status = ''pending'', az_Challenges = [sc_challenge]\<rparr>),
      e_Accept := (\<lambda>h c ch. Inr ch),
      e_CreateOrderCert := (\<lambda>h c u k. Inr [''crt'']),
      e_httpGet := (\<lambda>h u. Inr sc_response)\<rparr>"

lemma sc_env_sel [simp]:
  "e_Now (sc_env status st) = (\<lambda>h. 60)"
  "e_routeByKey (sc_env status st) = (\<lambda>h f k. Inr (Some (sc_route status)))"
  "e_routeGet (sc_env status st) = (\<lambda>h f ns n. Inl NotFound)"
  "e_configMapList (sc_env status st) = (\<lambda>h f ns. Inr (if ns = ''ns'' then [sc_issuer] else []))"
  "e_limitRangeList (sc_env status st) = (\<lambda>h f ns. Inr [])"
  "e_secretGet (sc_env status st) = (\<lambda>h f ns n. if n = ''account'' then Inr sc_account else Inl NotFound)"
  "e_replicaSetGet (sc_env status st) = (\<lambda>h f ns n. Inl NotFound)"
  "e_serviceGet (sc_env status st) = (\<lambda>h f ns n. Inl NotFound)"
  "e_apiRouteCreate (sc_env status st) = (\<lambda>h ns r. Inr r)"
  "e_apiSecretCreate (sc_env status st) = (\<lambda>h ns r. Inr r)"
  "e_apiReplicaSetCreate (sc_env status st) = (\<lambda>h ns r. Inr r)"
  "e_apiServiceCreate (sc_env status st) = (\<lambda>h ns r. Inr r)"
  "e_apiRouteUpdate (sc_env status st) = (\<lambda>h ns r. Inr r)"
  "e_apiRouteDeleteCollection (sc_env status st) = (\<lambda>h ns l. Inr ())"
  "e_apiRoutePatch (sc_env status st) = (\<lambda>h ns n kv. Inr (sc_route status))"
  "e_apiRouteGet (sc_env status st) = (\<lambda>h ns n. if ns = ''ns'' \<and> n = ''web'' then Inr (sc_route status) else Inl NotFound)"
  "e_queueGet (sc_env status st) = (\<lambda>h q. Some ''ns/web'')"
  "e_AuthorizeOrder (sc_env status st) = (\<lambda>h c d. Inr (sc_order ''pending''))"
  "e_GetOrder (sc_env status st) = (\<lambda>h c u. Inr (sc_order st))"
  "e_GetAuthorization (sc_env status st) =
     (\<lambda>h c u. Inr \<lparr>az_URI = u, az_Status = ''pending'', az_Challenges = [sc_challenge]\<rparr>)"
  "e_Accept (sc_env status st) = (\<lambda>h c ch. Inr ch)"
  "e_CreateOrderCert (sc_env status st) = (\<lambda>h c u k. Inr [''crt''])"
  "e_httpGet (sc_env status st) = (\<lambda>h u. Inr sc_response)"
  "e_generateKey (sc_env status st) = (\<lambda>h n. Some ''key'')"
  "e_createCSR (sc_env status st) = (\<lambda>h host k. True)"
  "e_RetryOnConflict (sc_env status st) = run_conflicts 4"
  by (simp_all add: sc_env_def)

lemma sc_route_sel [simp]:
  "om_Namespace (rt_Meta (sc_route status)) = ''ns''" "om_Name (rt_Meta (sc_route status)) = ''web''"
  "om_UID (rt_Meta (sc_route status)) = ''web''" "om_DeletionTimestamp (rt_Meta (sc_route status)) = None"
  "om_Generation (rt_Meta (sc_route status)) = 1" "om_Labels (rt_Meta (sc_route status)) = None"
  "spec_Host (rt_Spec (sc_route status)) = ''example.com''" "spec_TLS (rt_Spec (sc_route status)) = Some fx_tls"
  "mget (om_Annotations (rt_Meta (sc_route status))) k =
     (if k = AcmeStatusAnnotation then Some status else if k = ''kubernetes.io/tls-acme'' then Some ''true'' else None)"
  "IsAdmitted (sc_route status)"
  by (simp_all add: sc_route_def fx_defs IsAdmitted_def admitted_step_def)

lemma fx_rc_lookup [simp]:
  "route_InformersForOrGlobal (rc_routeInformers fx_rc) ns =
     (if ns = [] then rc_routeInformers fx_rc [] else Some \<lparr>fac_Namespace = [], fac_Resync = DefaultResyncPeriod\<rparr>)"
  "kube_InformersForOrGlobal (rc_kubeInformers fx_rc) ns =
     (if ns = [] then rc_kubeInformers fx_rc [] else Some \<lparr>fac_Namespace = [], fac_Resync = 0\<rparr>)"
  by (auto simp: fx_rc_def route_InformersForOrGlobal_def kube_InformersForOrGlobal_def NamespaceAll_def)

lemma sc_load:
  "syncLoad fx_lib (sc_env status st) fx_rc ''ns/web'' h = (Inr (Some (sc_route status)), h @ [CacheRead ''routes'' ''ns'' ''ns/web''])"
  by (simp add: syncLoad_def Cut_def routeByKey_def read_cache_def io_defs IsManaged_def IsTemporary_def)
    (simp add: fx_rc_def api_names)

definition sc_status :: "string \<Rightarrow> Status" where
  "sc_status status = zero_Status\<lparr>st_ProvisioningStatus :=
     (st_ProvisioningStatus zero_Status)\<lparr>ps_OrderStatus := status, ps_OrderURI := status\<rparr>\<rparr>"

lemma sc_getStatus: "getStatus fx_lib (sc_route status) = Inr (sc_status status)"
  by (simp add: getStatus_def sc_route_def mget0_def sc_status_def api_names)

lemma sc_syncStatus: "syncStatus fx_lib fx_rc (sc_route status) h = (Inr (sc_status status), h)"
  by (simp add: syncStatus_def sc_getStatus ret_def Let_def order_backoff_def sc_status_def zero_Status_def)

lemma sc_due: "needsCertKey fx_lib 60 (sc_route status) = Inr (''In renewal period'', 0)"
  using fx_certificate_decodes
  by (simp add: needsCertKey_def fx_tls_def IsValid_def fx_certificate_def sat64_def int64_max_def int64_min_def
      in_int64_def sdiv_nonneg Let_def)

lemma sc_syncNeeds:
  "syncNeeds fx_lib (sc_env status st) key (sc_route status) s h = (Inr (Some s), h @ [Clock 60])"
  by (simp add: syncNeeds_eq sc_due ret_def)

lemma sc_syncCleanOrder:
  "status \<in> {StatusPending, StatusProcessing, StatusReady} \<Longrightarrow>
    syncCleanOrder fx_lib (sc_env status st) key (sc_route status) (sc_status status) h = (Inr (Some (sc_status status)), h)"
  "syncCleanOrder fx_lib (sc_env [] st) key (sc_route []) (sc_status []) h = (Inr (Some (sc_status [])), h)"
  by (auto simp: syncCleanOrder_def sc_status_def acme_status_names clear_order_def zero_Status_def ret_def)

definition sc_client_events :: trace where
  "sc_client_events = [CacheList ''configmaps'' ''ns'', CacheList ''configmaps'' ''acme'', CacheRead ''secrets'' ''ns'' ''account'']"

lemma sc_syncClient:
  "syncClient fx_lib (sc_env status st) fx_rc (sc_route status) h = (Inr sc_client, h @ sc_client_events)"
proof -
  have "PrivateKeyFromSecret fx_lib sc_account = Inr ''key''"
    by (simp add: PrivateKeyFromSecret_def sc_account_def TLSPrivateKeyKey_def fx_pemDecode_def)
  moreover have "certProfileForRoute (sc_route status) (rc_certDefaultProfile fx_rc) = []"
    by (simp add: certProfileForRoute_def sc_route_def mget0_def api_names fx_rc_def TrimSpace_def)
  moreover have "rc_controllerNamespace fx_rc = ''acme''" by (simp add: fx_rc_def)
  moreover have "om_Namespace (cfg_Meta sc_issuer) = ''ns''" "mget (cfg_Data sc_issuer) CertIssuerDataKey = Some ''account''"
    by (simp_all add: sc_issuer_def fx_meta_def)
  moreover have "AcmeCertIssuerName \<noteq> AcmeStatusAnnotation" "AcmeCertIssuerName \<noteq> ''kubernetes.io/tls-acme''"
    by (simp_all add: api_names)
  ultimately show ?thesis
    by (simp add: syncClient_def CertIssuerTypeAcme_def IssuerForObject_def getIssuerConfigMapsForObject_def issuerConfigMaps_def
        secretLister_def read_cache_def io_defs Let_def mget0_def sort_Slice_def insertion_sort_def sc_client_def
        sc_client_events_def)
qed

lemma sc_provision:
  assumes "status \<noteq> []" and "ord = (sc_order st)\<lparr>ord_URI := status\<rparr>"
  shows "syncProvision fx_lib (sc_env status st) fx_rc ''ns/web'' (sc_route status) (sc_status status) h =
    syncOrder fx_lib (sc_env status st) fx_rc ''ns/web'' (sc_route status) sc_client (sc_status status) ord
      (h @ sc_client_events @ [GetOrder sc_client status (Inr (sc_order st))])"
proof -
  have uri: "order_uri (sc_status status) = status"
    by (simp add: sc_status_def)
  then have "syncGetOrder fx_lib (sc_env status st) (sc_route status) sc_client (sc_status status) h1 =
      (Inr (Some ord), h1 @ [GetOrder sc_client status (Inr (sc_order st))])" for h1
    using assms(2) by (simp add: syncGetOrder_def acme_GetOrder_def io_defs)
  then show ?thesis
    using assms(1) uri by (simp add: syncProvision_def bind_io_def sc_syncClient)
qed

lemma sc_sync:
  assumes "status \<in> {StatusPending, StatusProcessing, StatusReady}" and "ord = (sc_order st)\<lparr>ord_URI := status\<rparr>"
  shows "sync fx_lib (sc_env status st) fx_rc ''ns/web'' [] =
    syncOrder fx_lib (sc_env status st) fx_rc ''ns/web'' (sc_route status) sc_client (sc_status status) ord
      (CacheRead ''routes'' ''ns'' ''ns/web'' # Clock 60 # sc_client_events @ [GetOrder sc_client status (Inr (sc_order st))])"
proof -
  have "status \<noteq> []"
    using assms(1) by (auto simp: acme_status_names)
  then show ?thesis
    by (simp add: sync_def syncRoute_def bind_io_def sc_load sc_syncStatus sc_syncNeeds
        sc_syncCleanOrder(1) [OF assms(1)] sc_provision [OF _ assms(2)])
qed

section \<open>A pending order\<close>

lemma ensure_created:
  "get h = (Inl (K8sErr NotFound), h1) \<Longrightarrow> create h1 = (Inr d, h2) \<Longrightarrow> owned_exposer L owner xid (meta d) \<Longrightarrow>
    ensure_exposer L msg meta owner xid get create h = (Inr d, h2)"
  by (simp add: ensure_exposer_def get_or_create_def check_exposer_def owned_exposer_def io_defs)

definition sc_xid :: string where
  "sc_xid = ''example.com:/.well-known/acme-challenge/tok''"

definition sc_name :: string where
  "sc_name = getTemporaryName fx_lib sc_xid"

lemma sc_name_not_account: "sc_name \<noteq> ''account''"
  by (simp add: sc_name_def getTemporaryName_def)

definition sc_xroute :: "string \<Rightarrow> Route" where
  "sc_xroute status = desiredExposerRoute fx_lib ''ns/web'' (sc_route status) sc_xid sc_name ''tok''"

definition sc_xsecret :: "string \<Rightarrow> Secret" where
  "sc_xsecret status = desiredExposerSecret fx_lib ''ns/web'' (sc_route status) sc_xid sc_name (sc_xroute status)
     ''/.well-known/acme-challenge/tok'' ''tok.key''"

definition sc_xrs :: "string \<Rightarrow> ReplicaSet" where
  "sc_xrs status = desiredExposerRS fx_lib fx_rc ''ns/web'' (sc_route status) sc_xid sc_name (sc_xroute status) (sc_xsecret status)
     (exposerRequirements fx_lib)"

definition sc_xservice :: "string \<Rightarrow> Service" where
  "sc_xservice status = desiredExposerService fx_lib ''ns/web'' (sc_route status) sc_xid sc_name (sc_xroute status)"

definition sc_exposer_events :: "string \<Rightarrow> trace" where
  "sc_exposer_events status =
     [CacheRead ''routes'' ''ns'' sc_name, RouteCreate ''ns'' (sc_xroute status) (Inr (sc_xroute status)),
      CacheRead ''secrets'' ''ns'' sc_name, SecretCreate ''ns'' (sc_xsecret status) (Inr (sc_xsecret status)),
      CacheList ''limitranges'' ''ns'',
      CacheRead ''replicasets'' ''ns'' sc_name, ReplicaSetCreate ''ns'' (sc_xrs status) (Inr (sc_xrs status)),
      CacheRead ''services'' ''ns'' sc_name, ServiceCreate ''ns'' (sc_xservice status) (Inr (sc_xservice status))]"

lemma sc_owned:
  "owned_exposer fx_lib (rt_Meta (sc_route status)) sc_xid (rt_Meta (sc_xroute status))"
  "owned_exposer fx_lib (rt_Meta (sc_xroute status)) sc_xid (sec_Meta (sc_xsecret status))"
  "owned_exposer fx_lib (rt_Meta (sc_xroute status)) sc_xid (rps_Meta (sc_xrs status))"
  "owned_exposer fx_lib (rt_Meta (sc_xroute status)) sc_xid (svc_Meta (sc_xservice status))"
  by (simp_all add: owned_exposer_def sc_xroute_def desiredExposerRoute_annotations)
    (simp_all add: desiredExposerRoute_def Let_def fx_GetControllerOf_def ownerRefTo_def sc_xsecret_def sc_xrs_def
      sc_xservice_def desiredExposerSecret_def desiredExposerRS_def desiredExposerService_def exposerMeta_def
      sc_xroute_def)

lemma sc_names:
  "om_Name (rt_Meta (sc_xroute status)) = sc_name" "om_Name (sec_Meta (sc_xsecret status)) = sc_name"
  "om_Name (rps_Meta (sc_xrs status)) = sc_name" "om_Name (svc_Meta (sc_xservice status)) = sc_name"
  by (simp_all add: sc_xroute_def sc_xsecret_def sc_xrs_def sc_xservice_def desiredExposerRoute_def Let_def
      desiredExposerSecret_def desiredExposerRS_def desiredExposerService_def exposerMeta_def)

lemma sc_exposeChallenge:
  "exposeChallenge fx_lib (sc_env status st) fx_rc ''ns/web'' (sc_route status) sc_challenge ''tok.key'' h =
     (Inr (Some (sc_xroute status, sc_xrs status)), h @ sc_exposer_events status)"
proof -
  have xid: "exposerID fx_lib (sc_route status) ''tok'' = sc_xid"
    by (simp add: exposerID_def sc_xid_def)
  have r: "ensureExposerRoute fx_lib (sc_env status st) fx_rc (sc_route status) sc_xid (sc_xroute status) h =
      (Inr (sc_xroute status), h @ [CacheRead ''routes'' ''ns'' sc_name, RouteCreate ''ns'' (sc_xroute status) (Inr (sc_xroute status))])" for h
    unfolding ensureExposerRoute_def Let_def
    by (rule ensure_created)
      (simp_all add: routeLister_def createRoute_def read_cache_def io_defs sc_names sc_owned)
  have s: "ensureExposerSecret fx_lib (sc_env status st) fx_rc (sc_route status) sc_xid (sc_xroute status) (sc_xsecret status) h =
      (Inr (sc_xsecret status), h @ [CacheRead ''secrets'' ''ns'' sc_name, SecretCreate ''ns'' (sc_xsecret status) (Inr (sc_xsecret status))])" for h
    unfolding ensureExposerSecret_def Let_def
    by (rule ensure_created)
      (simp_all add: secretLister_def createSecret_def read_cache_def io_defs sc_names sc_owned sc_name_not_account)
  have rs: "ensureExposerRS fx_lib (sc_env status st) fx_rc (sc_route status) sc_xid (sc_xroute status) (sc_xrs status) h =
      (Inr (sc_xrs status), h @ [CacheRead ''replicasets'' ''ns'' sc_name, ReplicaSetCreate ''ns'' (sc_xrs status) (Inr (sc_xrs status))])" for h
    unfolding ensureExposerRS_def Let_def
    by (rule ensure_created)
      (simp_all add: replicaSetLister_def createReplicaSet_def read_cache_def io_defs sc_names sc_owned)
  have sv: "ensureExposerService fx_lib (sc_env status st) fx_rc (sc_route status) sc_xid (sc_xroute status) (sc_xservice status) h =
      (Inr (sc_xservice status), h @ [CacheRead ''services'' ''ns'' sc_name, ServiceCreate ''ns'' (sc_xservice status) (Inr (sc_xservice status))])" for h
    unfolding ensureExposerService_def Let_def
    by (rule ensure_created)
      (simp_all add: serviceLister_def createService_def read_cache_def io_defs sc_names sc_owned)
  show ?thesis
    by (simp add: exposeChallenge_def exposePods_def Let_def sc_challenge_def xid bind_io_def seq_io_def r s rs sv
        limitRangeLister_def read_cache_def call_def of_sum_def ret_def adjustContainerResourceRequirements_def
        sc_exposer_events_def
        flip: sc_name_def sc_xroute_def sc_xsecret_def sc_xrs_def sc_xservice_def)
qed

definition sc_url :: string where
  "sc_url = ''http://example.com/.well-known/acme-challenge/tok''"

definition sc_accept_events :: trace where
  "sc_accept_events = [HttpGet sc_url (Inr sc_response), Accept sc_client sc_challenge (Inr sc_challenge),
     QueueAddAfter RouteQueue ''ns/web'' (15 * 10 ^ 9)]"

lemma sc_handleChallenge:
  "handleChallenge fx_lib (sc_env status st) fx_rc ''ns/web'' (sc_route status) sc_client sc_challenge h =
     (Inr NextAuthz, h @ sc_exposer_events status @ sc_accept_events)"
proof -
  have ing: "IsAdmitted (sc_xroute status)"
    using sc_route_sel(10) [of status] by (simp add: sc_xroute_def desiredExposerRoute_def Let_def IsAdmitted_def)
  have rs: "rps_ObservedGeneration (sc_xrs status) = om_Generation (rps_Meta (sc_xrs status))"
    "rps_AvailableReplicas (sc_xrs status) = rps_StatusReplicas (sc_xrs status)"
    by (simp_all add: sc_xrs_def desiredExposerRS_def exposerMeta_def)
  have token: "ch_Token sc_challenge = ''tok''" "ch_Status sc_challenge = StatusPending"
    "challengeURL fx_lib ''example.com'' ''tok'' = sc_url" "cl_Key sc_client = ''key''"
    by (simp_all add: sc_challenge_def StatusPending_def challengeURL_def sc_url_def sc_client_def)
  have "ValidateExposedToken (sc_env status st) sc_url ''tok.key'' h = (Inr (), h @ [HttpGet sc_url (Inr sc_response)])" for h
    by (simp add: ValidateExposedToken_def io_defs sc_response_def)
  then show ?thesis
    using ing rs token
    by (simp add: handleChallenge_def acceptChallenge_def requeue15_def sc_exposeChallenge bind_io_def seq_io_def
        attempt_def acme_Accept_def call_def of_sum_def ret_def log_ev_def sc_accept_events_def)
qed

definition sc_patch :: "string \<Rightarrow> ev" where
  "sc_patch status = RoutePatch ''ns'' ''web'' (AcmeStatusAnnotation, ''{pending}'') (Inr (sc_route status))"

lemma sc_syncPending:
  assumes "status \<noteq> ''pending''"
  shows "syncOrder fx_lib (sc_env status ''pending'') fx_rc ''ns/web'' (sc_route status) sc_client (sc_status status)
      ((sc_order ''pending'')\<lparr>ord_URI := status\<rparr>) h =
     (Inr (), h @ GetAuthorization sc_client ''authz''
         (Inr \<lparr>az_URI = ''authz'', az_Status = ''pending'', az_Challenges = [sc_challenge]\<rparr>) #
       sc_exposer_events status @ sc_accept_events @ [sc_patch status])"
proof -
  have pick: "pickChallenge [sc_challenge] = Some sc_challenge"
    by (simp add: pickChallenge_def sc_challenge_def)
  have upd: "updateStatus fx_lib (sc_env status ''pending'') (sc_route status)
      (upd_prov (\<lambda>p. p\<lparr>ps_OrderStatus := ''pending''\<rparr>) (sc_status status)) h = (Inr (), h @ [sc_patch status])" for h
    using assms
    by (simp add: updateStatus_def setStatus_eq mput_idem_iff stored_status_def sc_status_def patchRouteAnnotation_def
        io_defs sc_patch_def)
  show ?thesis
    by (simp add: syncOrder_def StatusPending_def sc_order_def syncPending_def handleAuthz_def
        acme_GetAuthorization_def bind_io_def seq_io_def call_def of_sum_def ret_def pick sc_handleChallenge upd
        del: authzLoop.simps add: authzLoop.simps)
qed

lemma sc_sync_pending:
  "sync fx_lib (sc_env ''processing'' ''pending'') fx_rc ''ns/web'' [] =
    (Inr (), [] @ CacheRead ''routes'' ''ns'' ''ns/web'' # Clock 60 # sc_client_events @
       [GetOrder sc_client ''processing'' (Inr (sc_order ''pending'')),
        GetAuthorization sc_client ''authz''
         (Inr \<lparr>az_URI = ''authz'', az_Status = ''pending'', az_Challenges = [sc_challenge]\<rparr>)] @
       sc_exposer_events ''processing'' @ sc_accept_events @ [sc_patch ''processing''])"
  by (subst sc_sync [OF _ refl]) (simp_all add: acme_status_names sc_syncPending)

section \<open>A new order\<close>

definition sc_new_events :: trace where
  "sc_new_events = [AuthorizeOrder sc_client ''example.com'' (Inr (sc_order ''pending'')), Clock 60,
     RoutePatch ''ns'' ''web'' (AcmeStatusAnnotation, ''{pending}'') (Inr (sc_route []))]"

lemma sc_sync_new:
  "sync fx_lib (sc_env [] ''pending'') fx_rc ''ns/web'' [] =
    (Inr (), [] @ CacheRead ''routes'' ''ns'' ''ns/web'' # Clock 60 # sc_client_events @ sc_new_events)"
proof -
  have uri: "order_uri (sc_status []) = []"
    by (simp add: sc_status_def)
  have upd: "updateStatus fx_lib (sc_env [] ''pending'') (sc_route [])
      (upd_prov (\<lambda>p. p\<lparr>ps_StartedAt := 60, ps_OrderURI := ''uri'', ps_OrderStatus := ''pending''\<rparr>) (sc_status [])) h =
      (Inr (), h @ [RoutePatch ''ns'' ''web'' (AcmeStatusAnnotation, ''{pending}'') (Inr (sc_route []))])" for h
    by (simp add: updateStatus_def setStatus_eq mput_idem_iff stored_status_def sc_status_def patchRouteAnnotation_def
        io_defs)
  show ?thesis
    by (simp add: sync_def syncRoute_def syncProvision_def bind_io_def sc_load sc_syncStatus sc_syncNeeds sc_syncCleanOrder(2)
        sc_syncClient uri syncNewOrder_def acme_AuthorizeOrder_def time_Now_def call_def of_sum_def ret_def sc_new_events_def)
      (simp add: sc_order_def upd)
qed

section \<open>A ready order\<close>

definition sc_pem :: CertPemData where
  "sc_pem = \<lparr>pem_Crt = ''1110crt'', pem_Key = ''1110key''\<rparr>"

definition sc_valid_route :: Route where
  "sc_valid_route = install_certificate sc_pem (sc_route ''processing'')
     \<lparr>rt_Meta := (rt_Meta (sc_route ''processing''))\<lparr>om_Annotations :=
       mput (om_Annotations (rt_Meta (sc_route ''processing''))) AcmeStatusAnnotation ''valid''\<rparr>\<rparr>"

definition sc_ready_events :: trace where
  "sc_ready_events =
     [GenerateKey 4096 (Some ''key''), CreateCertificateRequest ''example.com'' ''key'' True,
      CreateOrderCert sc_client ''finalize'' (''example.com'', ''key'') (Inr [''crt'']),
      RouteGet ''ns'' ''web'' (Inr (sc_route ''processing'')),
      RouteUpdate ''ns'' sc_valid_route (Inr sc_valid_route),
      RouteDeleteCollection ''ns'' (AcmeExposerUID, ''web'') (Inr ())]"

lemma sc_sync_ready:
  "sync fx_lib (sc_env ''processing'' ''ready'') fx_rc ''ns/web'' [] =
    (Inr (), [] @ CacheRead ''routes'' ''ns'' ''ns/web'' # Clock 60 # sc_client_events @
       GetOrder sc_client ''processing'' (Inr (sc_order ''ready'')) # sc_ready_events)"
proof -
  have pem: "NewCertificateFromDER fx_lib [''crt''] ''key'' = Inr sc_pem"
    by (simp add: NewCertificateFromDER_def sc_pem_def fx_pemEncode_def)
  have bits: "rc_certDefaultRSAKeyBitSize fx_rc = 4096" by (simp add: fx_rc_def)
  have "updateRouteCertificate fx_lib (sc_env ''processing'' ''ready'') (sc_route ''processing'')
      (upd_prov (\<lambda>p. p\<lparr>ps_OrderStatus := ''valid'', ps_Failures := 0, ps_OrderError := None\<rparr>)
        (upd_prov (\<lambda>p. p\<lparr>ps_OrderStatus := ''ready''\<rparr>) (sc_status ''processing''))) sc_pem h =
      (Inr (), h @ [RouteGet ''ns'' ''web'' (Inr (sc_route ''processing'')), RouteUpdate ''ns'' sc_valid_route (Inr sc_valid_route)])" for h
    by (simp add: updateRouteCertificate_def getRoute_def updateRouteObject_def setStatus_eq stored_status_def io_defs
        sc_valid_route_def install_certificate_def Let_def)
  moreover have "run_conflicts 4 fn h = (Inr (), h')" if "fn h = (Inr (), h')" for fn h h'
    using that by (simp add: eval_nat_numeral)
  ultimately show ?thesis
    by (subst sc_sync [OF _ refl])
      (simp_all add: acme_status_names syncOrder_def syncReady_def sc_order_def rsa_GenerateKey_def bits pem
        x509_CreateCertificateRequest_def acme_CreateOrderCert_def cleanup_logged_eq io_defs sc_ready_events_def Let_def)
qed

end
