(* ===== verification/Provisioning.thy ===== *)
theory Provisioning
  imports Sync_Scenario
begin

text \<open>
  What a pass of \<open>sync\<close> achieves: which certificate ends up in a Route, when a waiting order is looked
  at again, how failures are counted, and a complete pass of a concrete Route for
  the witnesses.
\<close>

section \<open>The certificate\<close>

fun is_update :: "ev \<Rightarrow> bool" where
  "is_update (RouteUpdate ns x r) = True"
| "is_update _ = False"

lemma plain_update: "plain e \<Longrightarrow> \<not> is_update e"
  by (cases e) simp_all

text \<open>
  \<open>installs\<close>: the stored Route is the one just read, with the certificate and key and with the given status,
  and otherwise unchanged.
\<close>

definition installs :: "lib \<Rightarrow> Route \<Rightarrow> Status \<Rightarrow> CertPemData \<Rightarrow> ev \<Rightarrow> ev \<Rightarrow> bool" where
  "installs L route s pem e previous \<longleftrightarrow>
     (\<exists>fresh meta s' r.
        previous = RouteGet (om_Namespace (rt_Meta route)) (om_Name (rt_Meta route)) (Inr fresh) \<and>
        setStatus L (rt_Meta fresh) s = (s', Inr meta) \<and>
        e = RouteUpdate (om_Namespace (rt_Meta fresh)) (install_certificate pem (fresh\<lparr>rt_Meta := meta\<rparr>)) r)"

lemma setStatus_namespace: "setStatus L m s = (s', Inr meta) \<Longrightarrow> om_Namespace meta = om_Namespace m"
  by (auto simp: setStatus_def Let_def split: option.splits)

lemma produces_updateRouteCertificate:
  "produces (preceded is_update (installs L route s pem)) (updateRouteCertificate L E route s pem)"
  unfolding produces_def
proof
  fix h
  let ?ns = "om_Namespace (rt_Meta route)" and ?name = "om_Name (rt_Meta route)"
  let ?g = "RouteGet ?ns ?name (e_apiRouteGet E h ?ns ?name)"
  show "\<exists>t. snd (updateRouteCertificate L E route s pem h) = h @ t \<and> preceded is_update (installs L route s pem) t"
  proof (cases "e_apiRouteGet E h ?ns ?name")
    case (Inl e)
    then show ?thesis
      by (auto simp: updateRouteCertificate_def getRoute_def io_defs intro!: preceded_none)
  next
    case (Inr fresh)
    obtain s' m where m: "setStatus L (rt_Meta fresh) s = (s', m)" by (cases "setStatus L (rt_Meta fresh) s")
    show ?thesis
    proof (cases m)
      case (Inl e)
      with Inr m show ?thesis
        by (auto simp: updateRouteCertificate_def getRoute_def io_defs intro!: preceded_none)
    next
      case meta: (Inr meta)
      let ?x = "install_certificate pem (fresh\<lparr>rt_Meta := meta\<rparr>)"
      let ?u = "RouteUpdate (om_Namespace (rt_Meta fresh)) ?x (e_apiRouteUpdate E (h @ [?g]) (om_Namespace (rt_Meta fresh)) ?x)"
      have "installs L route s pem ?u ?g"
        using Inr m meta by (auto simp: installs_def)
      then have "preceded is_update (installs L route s pem) [?g, ?u]"
        by (intro preceded_pair) simp_all
      moreover have "snd (updateRouteCertificate L E route s pem h) = h @ [?g, ?u]"
        using Inr m meta setStatus_namespace [of L "rt_Meta fresh" s s' meta]
        by (auto simp: updateRouteCertificate_def getRoute_def updateRouteObject_def io_defs split: sum.splits)
      ultimately show ?thesis by blast
    qed
  qed
qed

lemma updateRouteCertificate_success:
  "updateRouteCertificate L E route s pem h = (Inr u, h') \<Longrightarrow>
    \<exists>g ns y y'. h' = h @ [g, RouteUpdate ns y (Inr y')]"
  by (auto simp: updateRouteCertificate_def getRoute_def updateRouteObject_def io_defs
      split: sum.splits prod.splits)

lemma key_events:
  "rsa_GenerateKey E n h = (Inr k, h') \<Longrightarrow> h' = h @ [GenerateKey n (Some k)]"
  "x509_CreateCertificateRequest E host k h = (Inr csr, h') \<Longrightarrow>
    csr = (host, k) \<and> h' = h @ [CreateCertificateRequest host k True]"
  "acme_CreateOrderCert E c url csr h = (Inr der, h') \<Longrightarrow> h' = h @ [CreateOrderCert c url csr (Inr der)]"
  by (auto simp: rsa_GenerateKey_def x509_CreateCertificateRequest_def acme_CreateOrderCert_def io_defs
      split: option.splits sum.splits if_splits)

lemma wrap_err_Inr: "wrap_err t m h = (Inr a, h') \<longleftrightarrow> m h = (Inr a, h')"
  by (auto simp: wrap_err_def split: prod.splits sum.splits)

lemma bind_wrap_of_sum:
  "bind_io (wrap_err t (of_sum w x)) f = (case x of Inl e \<Rightarrow> throw (Wrapf t (w e)) | Inr a \<Rightarrow> f a)"
  by (auto simp: fun_eq_iff io_defs split: sum.splits)

text \<open>\<open>issued\<close>: the key, the answer of the ACME server and the PEM data of an issuance in a history.\<close>

definition issued :: "lib \<Rightarrow> string \<Rightarrow> trace \<Rightarrow> CertPemData \<Rightarrow> bool" where
  "issued L host t pem \<longleftrightarrow>
     (\<exists>bits key c url der. GenerateKey bits (Some key) \<in> set t \<and>
        CreateOrderCert c url (host, key) (Inr der) \<in> set t \<and> NewCertificateFromDER L der key = Inr pem)"

text \<open>The part of \<open>syncReady\<close> before the Route is stored, by the events it leaves.\<close>

lemma syncReady_cases:
  assumes "retry_contract (e_RetryOnConflict E)" and "syncReady L E rc route c s ord h = (r, h')"
  obtains (failed) t where "h' = h @ t" "list_all (\<lambda>e. \<not> is_update e) t" "r \<noteq> Inr ()"
    | (stored) t pem s' where "list_all (\<lambda>e. \<not> is_update e) t" "issued L (spec_Host (rt_Spec route)) t pem"
        "order_status s' = StatusValid" "ps_Failures (st_ProvisioningStatus s') = 0"
        "seq_io (wrap_err ''can't update route with new certificates after retries''
              (e_RetryOnConflict E (updateRouteCertificate L E route s' pem)))
            (cleanup_logged E route) (h @ t) = (r, h')"
proof -
  let ?N = "\<lambda>e. \<not> is_update e" and ?host = "spec_Host (rt_Spec route)"
  note run = assms(2) [unfolded syncReady_def]
  have "emits ?N (wrap_err m (rsa_GenerateKey E (rc_certDefaultRSAKeyBitSize rc)))" for m
    by (intro io_intro) simp
  with run show thesis
  proof (cases rule: bind_io_emitsE)
    case k: (went_on k t1)
    have "emits ?N (wrap_err m (x509_CreateCertificateRequest E ?host k))" for m
      by (intro io_intro) simp
    with k(3) show thesis
    proof (cases rule: bind_io_emitsE)
      case csr: (went_on csr t2)
      have "emits ?N (wrap_err m (acme_CreateOrderCert E c (ord_FinalizeURL ord) csr))" for m
        by (intro io_intro) simp
      with csr(3) show thesis
      proof (cases rule: bind_io_emitsE)
        case der: (went_on der t3)
        have ev: "t1 = [GenerateKey (rc_certDefaultRSAKeyBitSize rc) (Some k)]" "csr = (?host, k)"
          "t3 = [CreateOrderCert c (ord_FinalizeURL ord) csr (Inr der)]"
          using key_events(1) [OF k(1) [unfolded wrap_err_Inr]] key_events(2) [OF csr(1) [unfolded wrap_err_Inr]]
            key_events(3) [OF der(1) [unfolded wrap_err_Inr]] by simp_all
        show thesis
        proof (cases "NewCertificateFromDER L der k")
          case (Inl e)
          with der k csr failed [of "t1 @ t2 @ t3"] show thesis
            by (auto simp: bind_wrap_of_sum throw_def)
        next
          case (Inr pem)
          then have "issued L ?host (t1 @ t2 @ t3) pem"
            using ev unfolding issued_def
            by (intro exI [of _ "rc_certDefaultRSAKeyBitSize rc"] exI [of _ k] exI [of _ c]
                exI [of _ "ord_FinalizeURL ord"] exI [of _ der]) simp
          with der Inr k csr stored [of "t1 @ t2 @ t3" pem
              "upd_prov (\<lambda>p. p\<lparr>ps_OrderStatus := StatusValid, ps_Failures := 0, ps_OrderError := None\<rparr>) s"]
          show thesis by (simp add: bind_wrap_of_sum Let_def)
        qed
      qed (use failed k csr in auto)
    qed (use failed k in auto)
  qed (use failed in auto)
qed

lemma issued_mono: "issued L host t pem \<Longrightarrow> set t \<subseteq> set u \<Longrightarrow> issued L host u pem"
  unfolding issued_def by blast

lemma cleanup_no_update: "emits (\<lambda>e. \<not> is_update e) (cleanup_logged E route)"
  by (rule emits_cleanup_logged) simp

lemma syncReady_updates:
  assumes "retry_contract (e_RetryOnConflict E)" and "syncReady L E rc route c s ord h = (r, h @ t)"
    and "i < length t" and "is_update (t ! i)"
  shows "0 < i \<and> (\<exists>pem s'. issued L (spec_Host (rt_Spec route)) (take i t) pem \<and>
    order_status s' = StatusValid \<and> ps_Failures (st_ProvisioningStatus s') = 0 \<and>
    installs L route s' pem (t ! i) (t ! (i - 1)))"
  using assms(1,2)
proof (cases rule: syncReady_cases)
  case (failed u)
  with assms(3,4) show ?thesis by (simp add: list_all_length)
next
  case (stored u pem s')
  let ?m = "wrap_err ''can't update route with new certificates after retries''
              (e_RetryOnConflict E (updateRouteCertificate L E route s' pem))"
  let ?Q = "preceded is_update (installs L route s' pem)"
  have "produces ?Q (seq_io ?m (cleanup_logged E route))"
    unfolding seq_io_def
    by (intro produces_bind preceded_append produces_wrap_err produces_retry assms(1)
        produces_updateRouteCertificate produces_none cleanup_no_update)
  then obtain v where v: "h @ t = (h @ u) @ v" "?Q v"
    using stored(5) producesD by blast
  then have t: "t = u @ v" by simp
  have j: "length u \<le> i"
    using assms(3,4) stored(1) t by (metis linorder_not_le list_all_length nth_append)
  then have "i - length u < length v" "t ! i = v ! (i - length u)"
    using assms(3) t by (auto simp: nth_append)
  then have "0 < i - length u" "installs L route s' pem (t ! i) (v ! (i - length u - 1))"
    using v(2) assms(4) unfolding preceded_def by auto
  moreover have "set u \<subseteq> set (take i t)"
    using j t by simp
  ultimately show ?thesis
    using stored(2-4) issued_mono t by (intro conjI exI [of _ pem] exI [of _ s']) (auto simp: nth_append)
qed

fun is_issuance :: "ev \<Rightarrow> bool" where
  "is_issuance (RouteUpdate ns x r) = True"
| "is_issuance (CreateOrderCert c u csr r) = True"
| "is_issuance _ = False"

lemma issuance_not_plain: "is_issuance e \<Longrightarrow> \<not> plain e"
  by (cases e) simp_all

text \<open>Certificates are obtained and stored for a ready order only.\<close>

lemma syncOrder_issuance:
  assumes "syncOrder L E rc key route c s ord h = (r, h')" and "h' = h @ t" and "e \<in> set t" and "is_issuance e"
  shows "\<exists>s'. syncReady L E rc route c s' ord h = (r, h')"
proof (cases "ord_Status ord = StatusReady")
  case True
  with assms(1) show ?thesis
    by (auto simp: syncOrder_def Let_def acme_status_names)
next
  case False
  have pending: "emits (\<lambda>e. \<not> is_issuance e) (syncPending L E rc key route c st ord)" for st
    using emits_syncPending by (rule emits_mono) (auto elim!: is_issuance.elims)
  have plain: "emits plain m \<Longrightarrow> emits (\<lambda>e. \<not> is_issuance e) m" for m :: "'b io"
    by (erule emits_mono) (auto dest: issuance_not_plain)
  have "emits (\<lambda>e. \<not> is_issuance e) (syncOrder L E rc key route c s ord)"
    using False unfolding syncOrder_def Let_def
    by (auto intro!: plain emits_plain_parts emits_throw pending)
  with assms show ?thesis
    by (metis (no_types, lifting) emitsD list_all_iff same_append_eq)
qed

lemma sync_issuance:
  assumes "sync L E rc key h = (r, h @ t)" and "e \<in> set t" and "is_issuance e"
    and "retry_contract (e_RetryOnConflict E)"
  obtains route h1 c s ord t1 u where "syncLoad L E rc key h = (Inr (Some route), h1)" "list_all plain t1"
    "t = t1 @ u" "syncReady L E rc route c s ord (h @ t1) = (r, (h @ t1) @ u)"
  using assms(1,2) issuance_not_plain [OF assms(3)]
proof (cases rule: sync_reaches)
  case (new_order route h1 c s t1)
  have "emits (\<lambda>e. \<not> is_issuance e) (syncNewOrder L E route c s)"
    unfolding syncNewOrder_def
    by (auto intro!: io_intro emits_updateStatus simp: patches_status_def)
  then obtain u where "h @ t = (h @ t1) @ u" "list_all (\<lambda>e. \<not> is_issuance e) u"
    using new_order(3) emitsD by blast
  with new_order(2) assms(2,3) issuance_not_plain show thesis
    by (auto simp: list_all_iff)
next
  case (order route h1 c s ord t1)
  obtain u where u: "h @ t = (h @ t1) @ u"
    using emitsD [OF opens_order_syncOrder [OF assms(4)] order(3)] by blast
  with order(2) assms(2,3) issuance_not_plain have "e \<in> set u"
    by (auto simp: list_all_iff)
  with order(3) u assms(3) obtain s' where "syncReady L E rc route c s' ord (h @ t1) = (r, h @ t)"
    using syncOrder_issuance by blast
  with that [of route h1 t1 u c s' ord] order(1,2) u show thesis by simp
qed

text \<open>What \<open>install_certificate\<close> changes of a Route.\<close>

lemma install_certificate_tls:
  "\<exists>tls. install_certificate pem (fresh\<lparr>rt_Meta := meta\<rparr>) = fresh\<lparr>rt_Meta := meta, rt_Spec := (rt_Spec fresh)\<lparr>spec_TLS := Some tls\<rparr>\<rparr> \<and>
      tls_Key tls = pem_Key pem \<and> tls_Certificate tls = pem_Crt pem \<and>
      (case spec_TLS (rt_Spec fresh) of
         None \<Rightarrow> tls_Termination tls = ''edge'' \<and> tls_InsecureEdgeTerminationPolicy tls = ''Redirect''
       | Some old \<Rightarrow> tls = old\<lparr>tls_Key := pem_Key pem, tls_Certificate := pem_Crt pem\<rparr>)"
proof (cases "spec_TLS (rt_Spec fresh)")
  case None
  then show ?thesis
    by (intro exI [of _ "\<lparr>tls_Termination = ''edge'', tls_Certificate = pem_Crt pem, tls_Key = pem_Key pem, tls_CACertificate = [],
        tls_DestinationCACertificate = [], tls_InsecureEdgeTerminationPolicy = ''Redirect''\<rparr>"]) (simp add: install_certificate_def)
next
  case (Some old)
  then show ?thesis
    by (intro exI [of _ "old\<lparr>tls_Key := pem_Key pem, tls_Certificate := pem_Crt pem\<rparr>"]) (simp add: install_certificate_def)
qed

text \<open>
  C2: a Route is only ever updated with a certificate that was just issued for it. In every pass, an update is preceded
  by the generation of a key, by an answer of the ACME server to a request for the host of
  the Route signed with that key, and directly by a fresh read of the Route; it stores the PEM form of that key
  and chain, marks the order as valid with no failures, and changes nothing else of the fresh Route; a Route without TLS gets
  edge termination with redirection.
\<close>

theorem sync_installs_issued_certificate:
  assumes "retry_contract (e_RetryOnConflict E)" and "sync L E rc key h = (r, h @ t)"
    and "i < length t" and "t ! i = RouteUpdate ns x res"
  shows "\<exists>route h1 fresh pem s s' meta.
    syncLoad L E rc key h = (Inr (Some route), h1) \<and>
    issued L (spec_Host (rt_Spec route)) (take i t) pem \<and>
    0 < i \<and> t ! (i - 1) = RouteGet (om_Namespace (rt_Meta route)) (om_Name (rt_Meta route)) (Inr fresh) \<and>
    order_status s = StatusValid \<and> ps_Failures (st_ProvisioningStatus s) = 0 \<and>
    setStatus L (rt_Meta fresh) s = (s', Inr meta) \<and>
    (\<exists>tls. x = fresh\<lparr>rt_Meta := meta, rt_Spec := (rt_Spec fresh)\<lparr>spec_TLS := Some tls\<rparr>\<rparr> \<and>
      tls_Key tls = pem_Key pem \<and> tls_Certificate tls = pem_Crt pem \<and>
      (case spec_TLS (rt_Spec fresh) of
         None \<Rightarrow> tls_Termination tls = ''edge'' \<and> tls_InsecureEdgeTerminationPolicy tls = ''Redirect''
       | Some old \<Rightarrow> tls = old\<lparr>tls_Key := pem_Key pem, tls_Certificate := pem_Crt pem\<rparr>))"
proof -
  have "is_issuance (t ! i)"
    using assms(4) by simp
  note reach = sync_issuance [OF assms(2) nth_mem [OF assms(3)] this assms(1)]
  obtain route h1 c s ord t1 u where load: "syncLoad L E rc key h = (Inr (Some route), h1)"
    and t: "list_all plain t1" "t = t1 @ u" "syncReady L E rc route c s ord (h @ t1) = (r, (h @ t1) @ u)"
    by (rule reach)
  have i: "length t1 \<le> i"
    using assms(3,4) t(1,2) by (metis linorder_not_le list_all_length nth_append plain.simps(3))
  with assms(3,4) t(2) have "i - length t1 < length u" "is_update (u ! (i - length t1))" "t ! i = u ! (i - length t1)"
    by (auto simp: nth_append)
  then obtain pem s' where pem: "0 < i - length t1" "issued L (spec_Host (rt_Spec route)) (take (i - length t1) u) pem"
    "order_status s' = StatusValid" "ps_Failures (st_ProvisioningStatus s') = 0"
    "installs L route s' pem (t ! i) (u ! (i - length t1 - 1))"
    using syncReady_updates [OF assms(1) t(3)] by metis
  moreover have "u ! (i - length t1 - 1) = t ! (i - 1)" "0 < i"
    using pem(1) t(2) by (auto simp: nth_append)
  moreover have "issued L (spec_Host (rt_Spec route)) (take i t) pem"
    using pem(2) i t(2) by (auto elim: issued_mono)
  ultimately show ?thesis
    using load assms(4) install_certificate_tls unfolding installs_def by fastforce
qed

theorem sync_installs_issued_certificate_witness:
  "\<exists>t i pem. snd (sync fx_lib (sc_env ''processing'' ''ready'') fx_rc ''ns/web'' []) = t \<and>
    t ! i = RouteUpdate ''ns'' sc_valid_route (Inr sc_valid_route) \<and> issued fx_lib ''example.com'' (take i t) pem"
proof -
  let ?t = "snd (sync fx_lib (sc_env ''processing'' ''ready'') fx_rc ''ns/web'' [])"
  have retry: "retry_contract (e_RetryOnConflict (sc_env ''processing'' ''ready''))"
    by (simp add: retry_contract_run)
  have run: "sync fx_lib (sc_env ''processing'' ''ready'') fx_rc ''ns/web'' [] = (Inr (), [] @ ?t)"
    by (simp add: sc_sync_ready)
  have "RouteUpdate ''ns'' sc_valid_route (Inr sc_valid_route) \<in> set ?t"
    by (simp add: sc_sync_ready sc_ready_events_def)
  then obtain i where i: "i < length ?t" "?t ! i = RouteUpdate ''ns'' sc_valid_route (Inr sc_valid_route)"
    by (auto simp: in_set_conv_nth)
  from sync_installs_issued_certificate [OF retry run i]
  obtain route pem where "sc_route ''processing'' = route" "issued fx_lib (spec_Host (rt_Spec route)) (take i ?t) pem"
    unfolding sc_load by auto
  then have "issued fx_lib ''example.com'' (take i ?t) pem" by auto
  with i show ?thesis by blast
qed

text \<open>
  C18: a certificate that was obtained is not lost: a pass that got a certificate from the ACME server and
  reports success has stored it, that is, an update of the Route was accepted by the API server, and the last
  thing it did was to ask for the removal of the exposer objects.
\<close>

theorem sync_keeps_obtained_certificate:
  assumes "retry_contract (e_RetryOnConflict E)" and "sync L E rc key h = (Inr (), h @ t)"
    and "CreateOrderCert c url csr (Inr der) \<in> set t"
  shows "\<exists>route h1 ns x x' a. syncLoad L E rc key h = (Inr (Some route), h1) \<and>
    RouteUpdate ns x (Inr x') \<in> set t \<and>
    last t = RouteDeleteCollection (om_Namespace (rt_Meta route)) (AcmeExposerUID, om_UID (rt_Meta route)) a"
proof -
  have "is_issuance (CreateOrderCert c url csr (Inr der))" by simp
  note reach = sync_issuance [OF assms(2,3) this assms(1)]
  obtain route h1 c' s ord t1 u where load: "syncLoad L E rc key h = (Inr (Some route), h1)" "list_all plain t1"
    and t: "t = t1 @ u" "syncReady L E rc route c' s ord (h @ t1) = (Inr (), (h @ t1) @ u)"
    by (rule reach)
  from assms(1) t(2) show ?thesis
  proof (cases rule: syncReady_cases)
    case (stored v pem s')
    let ?fn = "updateRouteCertificate L E route s' pem"
    obtain h2 x where h2: "e_RetryOnConflict E ?fn ((h @ t1) @ v) = (Inr x, h2)"
      and clean: "cleanup_logged E route h2 = (Inr (), (h @ t1) @ u)"
      using stored(5) by (auto simp: seq_io_def bind_io_Inr wrap_err_Inr)
    have any: "emits (\<lambda>_. True) ?fn"
      by (rule emits_updateRouteCertificate) simp_all
    obtain w where w: "?fn (((h @ t1) @ v) @ w) = (Inr x, h2)"
      using retry_success [OF assms(1) any h2] by blast
    then obtain ns y y' g where "h2 = (((h @ t1) @ v) @ w) @ [g, RouteUpdate ns y (Inr y')]"
      using updateRouteCertificate_success by blast
    with clean load t(1) show ?thesis
      by (auto simp: cleanup_logged_eq) blast
  qed simp
qed

theorem sync_keeps_obtained_certificate_witness:
  "\<exists>t ns x x'. snd (sync fx_lib (sc_env ''processing'' ''ready'') fx_rc ''ns/web'' []) = t \<and>
    CreateOrderCert sc_client ''finalize'' (''example.com'', ''key'') (Inr [''crt'']) \<in> set t \<and>
    RouteUpdate ns x (Inr x') \<in> set t"
proof -
  let ?t = "snd (sync fx_lib (sc_env ''processing'' ''ready'') fx_rc ''ns/web'' [])"
  have retry: "retry_contract (e_RetryOnConflict (sc_env ''processing'' ''ready''))"
    by (simp add: retry_contract_run)
  have run: "sync fx_lib (sc_env ''processing'' ''ready'') fx_rc ''ns/web'' [] = (Inr (), [] @ ?t)"
    by (simp add: sc_sync_ready)
  have mem: "CreateOrderCert sc_client ''finalize'' (''example.com'', ''key'') (Inr [''crt'']) \<in> set ?t"
    by (simp add: sc_sync_ready sc_ready_events_def)
  from sync_keeps_obtained_certificate [OF retry run mem] mem show ?thesis by blast
qed

section \<open>Waiting orders\<close>

lemma pending_requeues:
  assumes "syncPending L E rc key route c s ord h = (Inr (), h')"
  shows "\<exists>t. h' = h @ t \<and> (pending_authz_seen t \<longrightarrow> requeued key t \<or> resource_warning route t)"
proof -
  obtain st h1 where st: "authzLoop L E rc key route c (ord_AuthzURLs ord) h = (Inr st, h1)"
    and rest: "(case st of ReturnNil \<Rightarrow> ret () | NextAuthz \<Rightarrow> updateStatus L E route s) h1 = (Inr (), h')"
    using assms by (auto simp: syncPending_def bind_io_Inr)
  obtain t where t: "h1 = h @ t" "st = NextAuthz \<longrightarrow> pending_authz_seen t \<longrightarrow> requeued key t"
    "st = ReturnNil \<longrightarrow> resource_warning route t"
    using authzLoop_requeues [OF st] by blast
  show ?thesis
  proof (cases st)
    case ReturnNil
    with rest t show ?thesis by (auto simp: ret_def)
  next
    case NextAuthz
    let ?P = "\<lambda>e. \<forall>c u a. e \<noteq> GetAuthorization c u a"
    have "emits ?P (updateStatus L E route s)"
      by (rule emits_updateStatus) (auto simp: patches_status_def)
    then obtain u where u: "h' = h1 @ u" "list_all ?P u"
      using rest NextAuthz emitsD by fastforce
    have "pending_authz_seen (t @ u) \<longrightarrow> pending_authz_seen t"
      using u(2) by (fastforce simp: pending_authz_seen_def list_all_iff)
    with t u NextAuthz show ?thesis
      by (auto simp: requeued_def)
  qed
qed

text \<open>
  A pass that finds the order pending and returns without an error puts the key back for 15 seconds later if any
  authorization is still pending, unless the exposer pod does not fit the limits of the namespace: then an
  event on the Route says so. (In that last case nothing is requeued and the status is not updated.)
\<close>

theorem syncPending_requeues:
  assumes "syncPending L E rc key route c s ord h = (Inr (), h')"
  shows "\<exists>t. h' = h @ t \<and> (pending_authz_seen t \<longrightarrow> requeued key t \<or> resource_warning route t)"
  using assms by (rule pending_requeues)

theorem syncPending_requeues_witness:
  "\<exists>t. snd (syncPending fx_lib (sc_env ''processing'' ''pending'') fx_rc ''ns/web'' (sc_route ''processing'') sc_client
      (upd_prov (\<lambda>p. p\<lparr>ps_OrderStatus := ''pending''\<rparr>) (sc_status ''processing'')) ((sc_order ''pending'')\<lparr>ord_URI := ''processing''\<rparr>) []) = t \<and>
    pending_authz_seen t \<and> (requeued ''ns/web'' t \<or> resource_warning (sc_route ''processing'') t)"
proof -
  have run: "syncPending fx_lib (sc_env ''processing'' ''pending'') fx_rc ''ns/web'' (sc_route ''processing'') sc_client
      (upd_prov (\<lambda>p. p\<lparr>ps_OrderStatus := ''pending''\<rparr>) (sc_status ''processing'')) ((sc_order ''pending'')\<lparr>ord_URI := ''processing''\<rparr>) [] =
    (Inr (), GetAuthorization sc_client ''authz''
         (Inr \<lparr>az_URI = ''authz'', az_Status = ''pending'', az_Challenges = [sc_challenge]\<rparr>) #
       sc_exposer_events ''processing'' @ sc_accept_events @ [sc_patch ''processing''])"
    using sc_syncPending [of "''processing''" "[]"]
    by (simp add: syncOrder_def StatusPending_def) (simp add: sc_order_def)
  have "pending_authz_seen (GetAuthorization sc_client ''authz''
         (Inr \<lparr>az_URI = ''authz'', az_Status = ''pending'', az_Challenges = [sc_challenge]\<rparr>) # u)" for u
    unfolding pending_authz_seen_def by (intro exI conjI) (auto simp: StatusPending_def)
  then show ?thesis
    using syncPending_requeues [OF run] unfolding run by auto
qed

section \<open>Failures\<close>

lemma failed_order_stored:
  assumes "ord_Status ord \<in> {StatusInvalid, StatusExpired, StatusRevoked, StatusDeactivated}"
    and "syncOrder L E rc key route c s ord h = (r, h')"
  shows "\<exists>t a s'. list_all (\<lambda>e. \<exists>ns n ty rs. e = RecordEvent ns n ty rs) t \<and>
    updateStatus L E route s' (h @ t @ [RouteDeleteCollection (om_Namespace (rt_Meta route))
      (AcmeExposerUID, om_UID (rt_Meta route)) a]) = (r, h') \<and>
    order_uri s' = order_uri s \<and> order_status s' = ord_Status ord \<and>
    ps_Failures (st_ProvisioningStatus s') =
      (if ord_Status ord = order_status s then ps_Failures (st_ProvisioningStatus s)
       else wrap64 (ps_Failures (st_ProvisioningStatus s) + 1))"
proof -
  let ?s = "upd_prov (\<lambda>p. p\<lparr>ps_OrderStatus := ord_Status ord\<rparr>) s"
  let ?s' = "count_failure (order_status s) ?s"
  have s': "order_uri ?s' = order_uri s" "order_status ?s' = ord_Status ord"
    "ps_Failures (st_ProvisioningStatus ?s') = (if ord_Status ord = order_status s then ps_Failures (st_ProvisioningStatus s)
       else wrap64 (ps_Failures (st_ProvisioningStatus s) + 1))"
    by (simp_all add: count_failure_def)
  have "\<exists>t a. list_all (\<lambda>e. \<exists>ns n ty rs. e = RecordEvent ns n ty rs) t \<and>
    updateStatus L E route ?s' (h @ t @ [RouteDeleteCollection (om_Namespace (rt_Meta route))
      (AcmeExposerUID, om_UID (rt_Meta route)) a]) = (r, h')"
  proof (cases "ord_Status ord = StatusInvalid")
    case True
    then show ?thesis
      using assms(2)
      by (intro exI [of _ "[RecordEvent (om_Namespace (rt_Meta route)) (om_Name (rt_Meta route)) ''Warning'' ''AcmeFailedOrder'']"] exI conjI)
        (auto simp: syncOrder_def syncInvalid_def Let_def acme_status_names seq_io_def bind_io_def log_ev_def cleanup_logged_eq)
  next
    case False
    then show ?thesis
      using assms
      by (intro exI [of _ "[]"] exI conjI)
        (auto simp: syncOrder_def syncExpired_def Let_def acme_status_names seq_io_def bind_io_def cleanup_logged_eq)
  qed
  with s' show ?thesis by blast
qed

text \<open>
  C21: what a pass does with an order that failed (invalid, expired, revoked or deactivated): it asks for the removal of the
  exposer and then stores the new order status, keeping the order URI; the number of failures grows by
  one exactly when the status is news, so looking at the same failed order again does not count twice.
\<close>

theorem syncOrder_failed:
  assumes "ord_Status ord \<in> {StatusInvalid, StatusExpired, StatusRevoked, StatusDeactivated}"
    and "syncOrder L E rc key route c s ord h = (r, h')"
  shows "\<exists>t a s'. list_all (\<lambda>e. \<exists>ns n ty rs. e = RecordEvent ns n ty rs) t \<and>
    updateStatus L E route s' (h @ t @ [RouteDeleteCollection (om_Namespace (rt_Meta route))
      (AcmeExposerUID, om_UID (rt_Meta route)) a]) = (r, h') \<and>
    order_uri s' = order_uri s \<and> order_status s' = ord_Status ord \<and>
    ps_Failures (st_ProvisioningStatus s') =
      (if ord_Status ord = order_status s then ps_Failures (st_ProvisioningStatus s)
       else wrap64 (ps_Failures (st_ProvisioningStatus s) + 1))"
  using assms by (rule failed_order_stored)

theorem syncOrder_failed_witness:
  "\<exists>r h' t a s'. syncOrder fx_lib (sc_env ''processing'' ''expired'') fx_rc ''ns/web'' (sc_route ''processing'') sc_client
      (sc_status ''processing'') (sc_order ''expired'') [] = (r, h') \<and>
    updateStatus fx_lib (sc_env ''processing'' ''expired'') (sc_route ''processing'') s'
      (t @ [RouteDeleteCollection ''ns'' (AcmeExposerUID, ''web'') a]) = (r, h') \<and>
    order_status s' = ''expired'' \<and> ps_Failures (st_ProvisioningStatus s') = 1"
proof -
  obtain r h' where run: "syncOrder fx_lib (sc_env ''processing'' ''expired'') fx_rc ''ns/web'' (sc_route ''processing'') sc_client
      (sc_status ''processing'') (sc_order ''expired'') [] = (r, h')"
    by (metis surj_pair)
  have "ord_Status (sc_order ''expired'') \<in> {StatusInvalid, StatusExpired, StatusRevoked, StatusDeactivated}"
    by (simp add: sc_order_def acme_status_names)
  from syncOrder_failed [OF this run] run show ?thesis
    by (fastforce simp: sc_order_def sc_status_def zero_Status_def wrap64_def)
qed

lemma orphaned_order_cleared:
  assumes "ord_Status ord = StatusValid" and "syncOrder L E rc key route c s ord h = (r, h')"
  shows "\<exists>a s'. updateStatus L E route s' (h @ [RouteDeleteCollection (om_Namespace (rt_Meta route))
      (AcmeExposerUID, om_UID (rt_Meta route)) a]) = (r, h') \<and>
    order_uri s' = [] \<and> order_status s' = [] \<and>
    (\<forall>E2 route2 h2 later. order_status later = [] \<longrightarrow>
      syncCleanOrder L E2 key route2 later h2 = (Inr (Some (clear_order later)), h2))"
proof -
  let ?s' = "clear_order (count_failure (order_status s) (upd_prov (\<lambda>p. p\<lparr>ps_OrderStatus := ord_Status ord\<rparr>) s))"
  have "\<exists>a. updateStatus L E route ?s' (h @ [RouteDeleteCollection (om_Namespace (rt_Meta route))
      (AcmeExposerUID, om_UID (rt_Meta route)) a]) = (r, h')"
    using assms
    by (intro exI)
      (auto simp: syncOrder_def syncValid_def Let_def acme_status_names seq_io_def bind_io_def cleanup_logged_eq)
  moreover have "order_uri ?s' = []" "order_status ?s' = []"
    by (simp_all add: clear_order_def)
  ultimately show ?thesis
    by (auto simp: syncCleanOrder_def ret_def)
qed

text \<open>
  An order that the server reports as valid while the controller has no key for it is abandoned and counted as a
  failure, but no backoff follows: the status that is stored has neither URI nor order status, and a
  later pass with such a status goes straight on to a new order, without looking at the clock and however
  far in the future the earliest next attempt lies.
\<close>

theorem orphaned_order_restarts_without_backoff:
  assumes "ord_Status ord = StatusValid" and "syncOrder L E rc key route c s ord h = (r, h')"
  shows "\<exists>a s'. updateStatus L E route s' (h @ [RouteDeleteCollection (om_Namespace (rt_Meta route))
      (AcmeExposerUID, om_UID (rt_Meta route)) a]) = (r, h') \<and>
    order_uri s' = [] \<and> order_status s' = [] \<and>
    (\<forall>E2 route2 h2 later. order_status later = [] \<longrightarrow>
      syncCleanOrder L E2 key route2 later h2 = (Inr (Some (clear_order later)), h2))"
  using assms by (rule orphaned_order_cleared)

theorem orphaned_order_restarts_without_backoff_witness:
  "\<exists>r h' a s'. syncOrder fx_lib (sc_env ''processing'' ''valid'') fx_rc ''ns/web'' (sc_route ''processing'') sc_client
      (sc_status ''processing'') (sc_order ''valid'') [] = (r, h') \<and>
    updateStatus fx_lib (sc_env ''processing'' ''valid'') (sc_route ''processing'') s'
      [RouteDeleteCollection ''ns'' (AcmeExposerUID, ''web'') a] = (r, h') \<and>
    order_uri s' = [] \<and> order_status s' = []"
proof -
  obtain r h' where run: "syncOrder fx_lib (sc_env ''processing'' ''valid'') fx_rc ''ns/web'' (sc_route ''processing'') sc_client
      (sc_status ''processing'') (sc_order ''valid'') [] = (r, h')"
    by (metis surj_pair)
  have "ord_Status (sc_order ''valid'') = StatusValid"
    by (simp add: sc_order_def acme_status_names)
  from orphaned_order_restarts_without_backoff [OF this run] run show ?thesis
    by auto
qed

end
