(* ===== verification/Order_Life.thy ===== *)
theory Order_Life
  imports Sync_Scenario
begin

text \<open>
  The life of an order across passes. The Route's status annotation is all that a pass leaves to the next one about the
  order. The abstract specification is a small machine over the phase of the order; the refinement
  says that every status a pass of \<open>sync\<close> stores is one step of the machine from the status it
  loaded.
\<close>

section \<open>The abstract machine\<close>

datatype order_phase = NoOrder | InProgress string | Lost | Failed | Finished | Unknown

text \<open>\<open>opened\<close>: a new order was opened. Only then may the phase become anything the server says, and never from an
  order in progress.\<close>

inductive order_step :: "bool \<Rightarrow> order_phase \<Rightarrow> order_phase \<Rightarrow> bool" for opened where
  poll: "order_step opened (InProgress u) (InProgress u)"
| gone: "order_step opened (InProgress u) Lost"
| fails: "order_step opened (InProgress u) Failed"
| finish: "order_step opened (InProgress u) Finished"
| orphaned: "order_step opened (InProgress u) NoOrder"
| wait: "order_step opened Failed Failed"
| clear: "p \<in> {Failed, Finished, Unknown} \<Longrightarrow> order_step opened p NoOrder"
| unknown: "order_step opened Unknown p"
| new_order: "opened \<Longrightarrow> (\<And>u. p \<noteq> InProgress u) \<Longrightarrow> order_step opened p q"

inductive_cases order_step_InProgressE: "order_step opened (InProgress u) q"

lemma order_step_mono: "order_step False p q \<Longrightarrow> order_step b p q"
  by (erule order_step.cases) (auto intro: order_step.intros)

text \<open>Without a new order the machine never comes to another order.\<close>

lemma order_machine_no_other_order:
  "(order_step False)\<^sup>*\<^sup>* (InProgress u) q \<Longrightarrow> q \<in> {InProgress u, Lost, Failed, Finished, NoOrder}"
  by (induction rule: rtranclp_induct) (auto elim: order_step.cases)

section \<open>Abstraction\<close>

definition phase :: "Status \<Rightarrow> order_phase" where
  "phase s =
     (if order_status s \<in> {StatusPending, StatusProcessing, StatusReady}
      then (if order_uri s = [] then Lost else InProgress (order_uri s))
      else if order_status s \<in> {StatusInvalid, StatusExpired, StatusRevoked, StatusDeactivated} then Failed
      else if order_status s = StatusValid then Finished
      else if order_status s = [] \<and> order_uri s = [] then NoOrder else Unknown)"

text \<open>The events that store a status, and the status they store.\<close>

fun stores_status :: "ev \<Rightarrow> bool" where
  "stores_status (RoutePatch ns n kv r) = True"
| "stores_status (RouteUpdate ns x r) = True"
| "stores_status _ = False"

fun writes_status :: "lib \<Rightarrow> ev \<Rightarrow> Status \<Rightarrow> bool" where
  "writes_status L (RoutePatch ns n kv r) s \<longleftrightarrow> fst kv = AcmeStatusAnnotation \<and> l_jsonMarshalStatus L s = Some (snd kv)"
| "writes_status L (RouteUpdate ns x r) s \<longleftrightarrow>
     (\<exists>b. l_yamlMarshalStatus L s = Some b \<and> mget (om_Annotations (rt_Meta x)) AcmeStatusAnnotation = Some b)"
| "writes_status L _ s \<longleftrightarrow> False"

definition opened :: "trace \<Rightarrow> bool" where
  "opened t \<longleftrightarrow> (\<exists>c d ord. AuthorizeOrder c d (Inr ord) \<in> set t)"

definition step_event :: "lib \<Rightarrow> order_phase \<Rightarrow> bool \<Rightarrow> ev \<Rightarrow> bool" where
  "step_event L p b e \<longleftrightarrow> (stores_status e \<longrightarrow> (\<exists>s. writes_status L e s \<and> order_step b p (phase s)))"

definition steps :: "lib \<Rightarrow> order_phase \<Rightarrow> trace \<Rightarrow> bool" where
  "steps L p t \<longleftrightarrow> list_all (step_event L p (opened t)) t"

section \<open>Refinement\<close>

lemma opened_append [simp]: "opened (s @ t) \<longleftrightarrow> opened s \<or> opened t"
  by (auto simp: opened_def)

lemma step_event_mono: "step_event L p False e \<Longrightarrow> step_event L p b e"
  by (auto simp: step_event_def intro: order_step_mono)

lemma step_event_True: "step_event L p b e \<Longrightarrow> step_event L p True e"
  by (cases b) (auto intro: step_event_mono)

lemma steps_append: "closed_append (steps L p)"
  unfolding closed_append_def steps_def
  by (auto simp: list_all_iff) (metis (full_types) step_event_True)+

lemma steps_quiet: "emits (step_event L p False) m \<Longrightarrow> produces (steps L p) m"
  by (erule produces_emits) (auto simp: steps_def list_all_iff intro: step_event_mono)

lemma steps_none: "emits (\<lambda>e. \<not> stores_status e) m \<Longrightarrow> produces (steps L p) m"
  by (rule steps_quiet, erule emits_mono) (simp add: step_event_def)

lemma produces_bind_yields:
  assumes "closed_append Q" and "produces Q m" and "yields R m" and "\<And>a. R a \<Longrightarrow> produces Q (f a)"
  shows "produces Q (bind_io m f)"
  unfolding produces_def
proof
  fix h
  obtain x t where t: "m h = (x, h @ t)" "Q t"
    using assms(2) unfolding produces_def by (metis prod.collapse)
  show "\<exists>u. snd (bind_io m f h) = h @ u \<and> Q u"
  proof (cases x)
    case (Inl e)
    with t show ?thesis by (simp add: bind_io_def)
  next
    case (Inr a)
    then have "R a" using t assms(3) unfolding yields_def by blast
    then obtain u where "snd (f a (h @ t)) = (h @ t) @ u" "Q u"
      using assms(4) unfolding produces_def by blast
    with t Inr assms(1) show ?thesis
      by (auto simp: bind_io_def closed_append_def intro: exI [of _ "t @ u"])
  qed
qed

lemma phase_stored [simp]: "phase (stored_status route s) = phase s"
  by (simp add: phase_def stored_status_def)

lemma steps_updateStatus:
  assumes "order_step False p (phase s)"
  shows "emits (step_event L p False) (updateStatus L E route s)"
proof (rule emits_updateStatus)
  fix e
  assume "patches_status L route s e"
  then have "writes_status L e (stored_status route s)"
    by (auto simp: patches_status_def)
  with assms show "step_event L p False e"
    unfolding step_event_def by (metis phase_stored)
qed

lemma not_stores: "\<not> stores_status e \<Longrightarrow> step_event L p b e"
  by (simp add: step_event_def)

lemma read_not_stores: "is_read e \<Longrightarrow> \<not> stores_status e"
  by (cases e) simp_all

lemmas phase_names = phase_def clear_order_def count_failure_def acme_status_names

lemma quiet_cleanup: "emits (step_event L p False) (cleanup_logged E route)"
  by (rule emits_cleanup_logged) (simp add: step_event_def)

lemma syncNeeds_step: "emits (step_event L (phase s) False) (syncNeeds L E key route s)"
proof -
  have "order_step False (phase s) (phase (clear_order s))"
    if "order_status s \<notin> {StatusPending, StatusProcessing, StatusReady}" "order_uri s \<noteq> [] \<or> order_status s \<noteq> []"
    using that by (auto simp: phase_names intro!: order_step.clear split: if_splits)
  then show ?thesis
    unfolding syncNeeds_def
    by (auto intro!: io_intro steps_updateStatus not_stores split: sum.splits prod.splits)
qed

lemma syncCleanOrder_step: "emits (step_event L (phase s) False) (syncCleanOrder L E key route s)"
proof -
  have "order_step False (phase s) (phase s)"
    if "order_status s \<in> {StatusInvalid, StatusExpired, StatusRevoked, StatusDeactivated}"
  proof -
    have "phase s = Failed"
      using that by (auto simp: phase_names)
    then show ?thesis by (simp add: order_step.wait)
  qed
  then show ?thesis
    unfolding syncCleanOrder_def Let_def
    by (auto intro!: io_intro steps_updateStatus not_stores)
qed

text \<open>What is left of the status when a pass comes to the order: unless an order in progress is kept, there is none.\<close>

definition kept_order :: "order_phase \<Rightarrow> Status \<Rightarrow> bool" where
  "kept_order p s \<longleftrightarrow> (order_uri s = [] \<and> (\<forall>u. p \<noteq> InProgress u)) \<or>
     (order_uri s \<noteq> [] \<and> (p = InProgress (order_uri s) \<and> phase s = p \<or> p = Unknown))"

lemma syncCleanOrder_keeps: "yields (\<lambda>c. \<forall>s'. c = Some s' \<longrightarrow> kept_order (phase s) s') (syncCleanOrder L E key route s)"
proof -
  have "order_status s \<in> {[], StatusValid} \<or> order_status s \<in> {StatusInvalid, StatusExpired, StatusRevoked, StatusDeactivated} \<Longrightarrow>
      kept_order (phase s) (clear_order s)"
    by (auto simp: kept_order_def phase_names)
  moreover have "order_status s \<notin> {[], StatusValid} \<Longrightarrow>
      order_status s \<notin> {StatusInvalid, StatusExpired, StatusRevoked, StatusDeactivated} \<Longrightarrow> kept_order (phase s) s"
    by (auto simp: kept_order_def phase_def)
  ultimately show ?thesis
    unfolding yields_def syncCleanOrder_def Let_def
    by (auto simp: bind_io_Inr seq_io_def ret_def split: if_splits)
qed

lemma syncNewOrder_step:
  assumes "\<And>u. p \<noteq> InProgress u"
  shows "produces (steps L p) (syncNewOrder L E route c s)"
  unfolding produces_def
proof
  fix h
  obtain r h' where run: "syncNewOrder L E route c s h = (r, h')"
    by fastforce
  from syncNewOrder_records [OF run] show "\<exists>t. snd (syncNewOrder L E route c s h) = h @ t \<and> steps L p t"
  proof (elim disjE exE conjE)
    fix e
    assume "h' = h @ [AuthorizeOrder c (spec_Host (rt_Spec route)) (Inl e)]"
    with run show ?thesis by (simp add: steps_def step_event_def)
  next
    fix ord now s'
    let ?a = "[AuthorizeOrder c (spec_Host (rt_Spec route)) (Inr ord), Clock now]"
    assume "updateStatus L E route s' (h @ ?a) = (r, h')"
    moreover have "emits (step_event L p True) (updateStatus L E route s')"
      by (rule emits_updateStatus)
        (use assms in \<open>auto simp: step_event_def patches_status_def intro!: exI [of _ "stored_status route s'"] order_step.new_order\<close>)
    ultimately obtain u where u: "h' = (h @ ?a) @ u" "list_all (step_event L p True) u"
      using emitsD by blast
    have "opened (?a @ u)"
      by (auto simp: opened_def)
    with u(2) have "steps L p (?a @ u)"
      by (simp add: steps_def step_event_def)
    with u(1) run show ?thesis by auto
  qed
qed

text \<open>The order of a pass that goes on with it.\<close>

definition goes_on :: "order_phase \<Rightarrow> Status \<Rightarrow> bool" where
  "goes_on p s \<longleftrightarrow> order_uri s \<noteq> [] \<and> (p = InProgress (order_uri s) \<or> p = Unknown)"

lemma goes_on_step:
  assumes "goes_on p s" and "phase s' \<in> {InProgress (order_uri s), Lost, Failed, Finished, NoOrder}"
  shows "order_step False p (phase s')"
  using assms order_step.unknown [of False "phase s'"] by (auto simp: goes_on_def intro: order_step.intros)

lemma syncGetOrder_step:
  assumes "goes_on p s" and "p = Unknown \<or> phase s = p"
  shows "emits (step_event L p False) (syncGetOrder L E route c s)"
proof -
  have "order_step False p (phase (upd_prov (\<lambda>x. x\<lparr>ps_OrderURI := []\<rparr>) s))"
  proof (cases "p = Unknown")
    case False
    then have p: "p = InProgress (order_uri s)" "phase s = InProgress (order_uri s)"
      using assms by (auto simp: goes_on_def)
    then have "order_status s \<in> {StatusPending, StatusProcessing, StatusReady}"
      by (auto simp: phase_def split: if_splits)
    then have "phase (upd_prov (\<lambda>x. x\<lparr>ps_OrderURI := []\<rparr>) s) = Lost"
      by (auto simp: phase_def)
    with p show ?thesis by (simp add: order_step.gone)
  qed (simp add: order_step.unknown)
  then show ?thesis
    unfolding syncGetOrder_def by (auto intro!: io_intro steps_updateStatus simp: not_stores split: sum.splits)
qed

lemma authzLoop_quiet: "emits (\<lambda>e. \<not> stores_status e) (authzLoop L E rc key route c urls)"
proof -
  have ensure: "emits (\<lambda>e. \<not> stores_status e) (ensureExposerRoute L E rc route xid d)"
    "emits (\<lambda>e. \<not> stores_status e) (ensureExposerSecret L E rc route xid xr ds)"
    "emits (\<lambda>e. \<not> stores_status e) (ensureExposerRS L E rc route xid xr dr)"
    "emits (\<lambda>e. \<not> stores_status e) (ensureExposerService L E rc route xid xr dv)"
    "emits (\<lambda>e. \<not> stores_status e) (limitRangeLister E i ns)" for xid d xr ds dr dv i ns
    by (simp_all add: ensureExposerRoute_def ensureExposerSecret_def ensureExposerRS_def ensureExposerService_def
        Let_def xroute.emits_ensure xsecret.emits_ensure xrs.emits_ensure xservice.emits_ensure read_not_stores emits_cache)
  have "emits (\<lambda>e. \<not> stores_status e) (handleAuthz L E rc key route c url)" for url
    unfolding handleAuthz_def handleChallenge_def exposeChallenge_def exposePods_def acceptChallenge_def requeue15_def Let_def
    by (auto intro!: io_intro ensure split: option.splits sum.splits)
  then show ?thesis
    by (induction urls) (auto intro!: io_intro split: loop_step.splits)
qed

lemma steps_updateRouteCertificate:
  assumes "order_step False p (phase s)"
  shows "emits (step_event L p False) (updateRouteCertificate L E route s pem)"
proof -
  have "step_event L p False (RouteUpdate ns (install_certificate pem (fresh\<lparr>rt_Meta := m\<rparr>)) r)"
    if "setStatus L (rt_Meta fresh) s = (st, Inr m)" for fresh st m ns r
    using that assms
    by (auto simp: step_event_def setStatus_eq install_certificate_def Let_def mget_mput
        intro!: exI [of _ "stored_status fresh s"] split: option.splits)
  then show ?thesis
    unfolding updateRouteCertificate_def
    by (auto intro!: io_intro simp: not_stores split: prod.splits sum.splits)
qed

lemma syncOrder_step:
  assumes "retry_contract (e_RetryOnConflict E)" and "goes_on p s"
  shows "emits (step_event L p False) (syncOrder L E rc key route c s ord)"
proof -
  let ?s = "upd_prov (\<lambda>x. x\<lparr>ps_OrderStatus := ord_Status ord\<rparr>) s"
  have uri: "order_uri s \<noteq> []"
    using assms(2) by (simp add: goes_on_def)
  have progress: "order_step False p (phase ?s)" if "ord_Status ord \<in> {StatusPending, StatusProcessing, StatusReady}"
    using that uri by (intro goes_on_step [OF assms(2)]) (auto simp: phase_def)
  have failed: "order_step False p (phase (count_failure prev ?s))"
    if "ord_Status ord \<in> {StatusInvalid, StatusExpired, StatusRevoked, StatusDeactivated}" for prev
    using that uri by (intro goes_on_step [OF assms(2)]) (auto simp: phase_names)
  have cleared: "order_step False p (phase (clear_order (count_failure prev ?s)))" for prev
    by (intro goes_on_step [OF assms(2)]) (auto simp: phase_names)
  have valid: "order_step False p (phase (upd_prov (\<lambda>x. x\<lparr>ps_OrderStatus := StatusValid, ps_Failures := 0, ps_OrderError := None\<rparr>) ?s))"
    by (intro goes_on_step [OF assms(2)]) (auto simp: phase_names)
  have loop: "emits (step_event L p False) (authzLoop L E rc key route c urls)" for urls
    using authzLoop_quiet by (rule emits_mono) (rule not_stores)
  have pending: "emits (step_event L p False) (syncPending L E rc key route c ?s ord)"
    and processing: "emits (step_event L p False) (syncProcessing L E key route ?s)"
    if "ord_Status ord \<in> {StatusPending, StatusProcessing, StatusReady}"
    unfolding syncPending_def syncProcessing_def requeue15_def
    by (auto intro!: io_intro steps_updateStatus progress [OF that] loop simp: not_stores split: loop_step.splits)
  have ready: "emits (step_event L p False) (syncReady L E rc route c ?s ord)"
    unfolding syncReady_def Let_def
    by (auto intro!: io_intro quiet_cleanup emits_retry [OF assms(1)] steps_updateRouteCertificate valid [simplified] simp: not_stores)
  have orphan: "emits (step_event L p False) (syncValid L E route prev ?s)" for prev
    unfolding syncValid_def by (auto intro!: io_intro quiet_cleanup steps_updateStatus cleared)
  have bad: "emits (step_event L p False) (syncInvalid L E route prev ?s)"
      "emits (step_event L p False) (syncExpired L E route prev ?s)"
    if "ord_Status ord \<in> {StatusInvalid, StatusExpired, StatusRevoked, StatusDeactivated}" for prev
    unfolding syncInvalid_def syncExpired_def
    by (auto intro!: io_intro quiet_cleanup steps_updateStatus failed [OF that] simp: not_stores)
  show ?thesis
    unfolding syncOrder_def Let_def
    by (intro emits_if emits_throw pending processing ready orphan bad) auto
qed

lemma syncProvision_step:
  assumes "retry_contract (e_RetryOnConflict E)" and "kept_order p s"
  shows "produces (steps L p) (syncProvision L E rc key route s)"
proof -
  have client: "produces (steps L p) (syncClient L E rc route)"
    unfolding syncClient_def Let_def
    by (rule steps_none) (auto intro!: io_intro read_not_stores split: option.splits prod.splits)
  show ?thesis
  proof (cases "order_uri s = []")
    case True
    then have "\<And>u. p \<noteq> InProgress u"
      using assms(2) by (auto simp: kept_order_def)
    with True show ?thesis
      unfolding syncProvision_def by (auto intro!: produces_bind [OF steps_append client] syncNewOrder_step)
  next
    case False
    then have on: "goes_on p s" "p = Unknown \<or> phase s = p"
      using assms(2) by (auto simp: kept_order_def goes_on_def)
    have "emits (step_event L p False) (case found of None \<Rightarrow> ret () | Some order \<Rightarrow> syncOrder L E rc key route c s order)" for c found
      by (cases found) (simp_all add: emits_ret syncOrder_step [OF assms(1) on(1)])
    then have "emits (step_event L p False) (bind_io (syncGetOrder L E route c s)
        (\<lambda>found. case found of None \<Rightarrow> ret () | Some order \<Rightarrow> syncOrder L E rc key route c s order))" for c
      by (intro emits_bind syncGetOrder_step [OF on])
    with False show ?thesis
      unfolding syncProvision_def by (intro produces_bind [OF steps_append client]) (simp add: steps_quiet)
  qed
qed

lemma phase_cong: "order_uri s = order_uri s' \<Longrightarrow> order_status s = order_status s' \<Longrightarrow> phase s = phase s'"
  by (simp add: phase_def)

lemma syncRoute_step:
  assumes "retry_contract (e_RetryOnConflict E)" and "getStatus L route = Inr s0"
  shows "produces (steps L (phase s0)) (syncRoute L E rc key route)"
proof -
  have status: "produces (steps L p) (syncStatus L rc route)" for p
    unfolding syncStatus_def Let_def by (rule steps_none) (auto intro!: io_intro split: sum.splits)
  have known: "yields (\<lambda>s. phase s = phase s0) (syncStatus L rc route)"
    unfolding yields_def using syncStatus_order assms(2) by (metis Inr_inject phase_cong)
  have same: "yields (\<lambda>needed. \<forall>s'. needed = Some s' \<longrightarrow> s' = s) (syncNeeds L E key route s)" for s
    unfolding yields_def using syncNeeds_same by blast
  have clean: "produces (steps L (phase s)) (bind_io (syncCleanOrder L E key route s) (\<lambda>cleaned.
      case cleaned of None \<Rightarrow> ret () | Some s' \<Rightarrow> syncProvision L E rc key route s'))" for s
    by (rule produces_bind_yields [OF steps_append steps_quiet [OF syncCleanOrder_step] syncCleanOrder_keeps])
      (auto intro!: steps_none emits_ret syncProvision_step [OF assms(1)] split: option.splits)
  have "produces (steps L (phase s)) (bind_io (syncNeeds L E key route s) (\<lambda>needed.
      case needed of None \<Rightarrow> ret () | Some s1 \<Rightarrow> bind_io (syncCleanOrder L E key route s1) (\<lambda>cleaned.
      case cleaned of None \<Rightarrow> ret () | Some s' \<Rightarrow> syncProvision L E rc key route s')))" for s
    by (rule produces_bind_yields [OF steps_append steps_quiet [OF syncNeeds_step] same])
      (auto intro!: steps_none emits_ret clean split: option.splits)
  then show ?thesis
    unfolding syncRoute_def
    by (intro produces_bind_yields [OF steps_append status known]) metis
qed

lemma sync_steps:
  assumes "retry_contract (e_RetryOnConflict E)" and "sync L E rc key h = (r, h @ t)"
    and "syncLoad L E rc key h = (Inr (Some route), h1)" and "getStatus L route = Inr s0"
  shows "steps L (phase s0) t"
  using produces_sync [OF assms(2) steps_append, of L "phase s0"] syncRoute_step [OF assms(1,4)] assms(3)
  by (auto simp: steps_def step_event_def list_all_iff read_not_stores)

section \<open>Properties\<close>

text \<open>
  C3: the passes implement the abstract life of an order: every status that a pass stores for a Route, by a patch or together with a
  certificate, is one step of the machine from the status it loaded. An order in progress stays the same order until it is
  finished, failed or gone; only a pass that opened a new order stores another one, and never while one was in progress.
\<close>

theorem sync_refines_order_machine:
  assumes "retry_contract (e_RetryOnConflict E)" and "sync L E rc key h = (r, h @ t)"
    and "syncLoad L E rc key h = (Inr (Some route), h1)" and "getStatus L route = Inr s0"
    and "e \<in> set t" and "stores_status e"
  shows "\<exists>s. writes_status L e s \<and> order_step (opened t) (phase s0) (phase s)"
  using sync_steps [OF assms(1-4)] assms(5,6) by (auto simp: steps_def list_all_iff step_event_def)

theorem sync_refines_order_machine_witness:
  "\<exists>t s. snd (sync fx_lib (sc_env ''processing'' ''pending'') fx_rc ''ns/web'' []) = t \<and> sc_patch ''processing'' \<in> set t \<and>
    writes_status fx_lib (sc_patch ''processing'') s \<and> order_step (opened t) (InProgress ''processing'') (phase s)"
proof -
  let ?t = "snd (sync fx_lib (sc_env ''processing'' ''pending'') fx_rc ''ns/web'' [])"
  have retry: "retry_contract (e_RetryOnConflict (sc_env ''processing'' ''pending''))"
    by (simp add: retry_contract_run)
  have run: "sync fx_lib (sc_env ''processing'' ''pending'') fx_rc ''ns/web'' [] = (Inr (), [] @ ?t)"
    by (simp add: sc_sync_pending)
  have p: "phase (sc_status ''processing'') = InProgress ''processing''"
    by (simp add: phase_def sc_status_def acme_status_names)
  have e: "sc_patch ''processing'' \<in> set ?t" "stores_status (sc_patch ''processing'')"
    by (simp_all add: sc_sync_pending sc_patch_def)
  from sync_refines_order_machine [OF retry run sc_load sc_getStatus e] e(1) p show ?thesis
    by auto
qed

end
