(* ===== verification/Sync_Safety.thy ===== *)
theory Sync_Safety
  imports Sync_Scenario
begin

text \<open>
  What a pass of \<open>sync\<close> never does: act on Routes it must leave alone, act outside the scope of its Route,
  accept a challenge it has not checked, open a second order or lose one it opened. Each witness is a complete
  pass of the concrete Route of \<open>Sync_Scenario\<close>.
\<close>

section \<open>Which Routes are touched\<close>

text \<open>
  C20: a Route that is gone, being deleted, not managed or not admitted is left alone: the pass
  succeeds and all it did was to read the Route from the cache. In particular no certificate is ever ordered for
  a host the Route does not own.
\<close>

theorem sync_leaves_alone:
  assumes "l_SplitMetaNamespaceKey L key = Some (ns, name)"
    and "route_InformersForOrGlobal (rc_routeInformers rc) ns = Some f"
    and "e_routeByKey E h (fac_Namespace f) key = Inr found"
    and "\<forall>route. found = Some route \<longrightarrow>
      om_DeletionTimestamp (rt_Meta route) \<noteq> None \<or> \<not> IsManaged (rt_Meta route) (rc_annotation rc) \<or> \<not> IsAdmitted route"
  shows "sync L E rc key h = (Inr (), h @ [CacheRead ''routes'' ns key])"
  using assms
  by (cases found) (auto simp: sync_def syncLoad_def routeByKey_def read_cache_def io_defs)

theorem sync_leaves_alone_witness:
  "sync fx_lib (fx_env\<lparr>e_routeByKey := \<lambda>h f k. Inr (Some (fx_route\<lparr>rt_Ingress := []\<rparr>))\<rparr>) fx_rc ''ns/web'' [] =
     (Inr (), [CacheRead ''routes'' ''ns'' ''ns/web''])"
  using sync_leaves_alone [of fx_lib "''ns/web''" "''ns''" "''web''" fx_rc
      "\<lparr>fac_Namespace = [], fac_Resync = DefaultResyncPeriod\<rparr>"
      "fx_env\<lparr>e_routeByKey := \<lambda>h f k. Inr (Some (fx_route\<lparr>rt_Ingress := []\<rparr>))\<rparr>" "[]"
      "Some (fx_route\<lparr>rt_Ingress := []\<rparr>)"]
  by (simp add: Cut_def fx_rc_def route_InformersForOrGlobal_def NamespaceAll_def IsAdmitted_def)

text \<open>
  C7: a pass over a key only acts within the scope of the Route it loaded for the key: it patches the status
  annotation of that Route, updates only the Route of that namespace and name, creates exposer objects in its namespace that are labelled
  with its UID and marked temporary, deletes by that label, requeues that key; it never creates or updates any other
  Secret, never writes a ConfigMap and never changes an ACME account. Without a Route it only
  reads caches. It relies on the API server to answer a read with the object that was asked for.
\<close>

theorem sync_scope:
  assumes "retry_contract (e_RetryOnConflict E)" and "gets_named E" and "sync L E rc key h = (r, h')"
  shows "\<exists>t. h' = h @ t \<and>
    (list_all is_read t \<or>
     (\<exists>route h1. syncLoad L E rc key h = (Inr (Some route), h1) \<and> list_all (route_scope key route) t))"
  using assms(3)
proof (cases rule: sync_cases)
  case (synced route h1)
  obtain t where t: "h1 = h @ t" "list_all is_read t"
    using synced(1) emitsD [OF syncLoad_reads] by blast
  obtain u where u: "h' = h1 @ u" "list_all (route_scope key route) u"
    using synced(2) emitsD [OF emits_scope_syncRoute [OF assms(1,2)]] by blast
  have "list_all (route_scope key route) (t @ u)"
    using t u read_scope by (fastforce simp: list_all_iff)
  with synced t u show ?thesis by auto
qed (use emitsD [OF syncLoad_reads] in blast)+

lemma sc_gets_named: "gets_named (sc_env status st)"
  by (simp add: gets_named_def sc_route_def fx_defs)

theorem sync_scope_witness:
  "\<exists>t. snd (sync fx_lib (sc_env ''processing'' ''ready'') fx_rc ''ns/web'' []) = t \<and>
    RouteUpdate ''ns'' sc_valid_route (Inr sc_valid_route) \<in> set t \<and>
    list_all (route_scope ''ns/web'' (sc_route ''processing'')) t"
proof -
  have "retry_contract (e_RetryOnConflict (sc_env ''processing'' ''ready''))"
    by (simp add: retry_contract_run)
  from sync_scope [OF this sc_gets_named sc_sync_ready] show ?thesis
    by (auto simp: sc_sync_ready sc_load sc_ready_events_def sc_client_events_def)
qed

section \<open>Challenges\<close>

text \<open>
  C1: the ACME server is only asked to validate what the controller has just seen itself: in every pass, each
  accepted challenge comes right after a request to the challenge URL of the Route's own host that was answered
  with status 200 and exactly the response the account key gives for the token of that challenge.
\<close>

theorem sync_accepts_only_checked:
  assumes "sync L E rc key h = (r, h')" and "retry_contract (e_RetryOnConflict E)"
  shows "\<exists>t. h' = h @ t \<and>
    (\<forall>i c ch res. i < length t \<longrightarrow> t ! i = Accept c ch res \<longrightarrow>
      (\<exists>route h1. syncLoad L E rc key h = (Inr (Some route), h1) \<and>
        0 < i \<and> self_check L (spec_Host (rt_Spec route)) c ch (t ! (i - 1))))"
proof -
  have plain: "list_all plain t \<Longrightarrow> self_checked L host t" for t host
    by (rule self_checked_no_accept) (auto simp: list_all_iff elim!: is_accept.elims)
  have noaccept: "emits (\<lambda>e. \<not> is_accept e) (syncReady L E rc route c s ord)" for route c s ord
    unfolding syncReady_def updateRouteCertificate_def Let_def
    by (auto intro!: io_intro emits_retry [OF assms(2)] emits_cleanup_logged split: prod.splits sum.splits)
  have checked: "produces (self_checked L (spec_Host (rt_Spec route))) (syncRoute L E rc key route)" for route
    by (intro produces_syncRoute self_checked_append plain produces_syncPending produces_no_accept noaccept)
      (auto simp: syncNewOrder_def intro!: io_intro)
  have reads: "self_checked L host t" if "list_all is_read t" for t host
    using that by (intro plain) (auto simp: list_all_iff read_plain)
  from assms(1) show ?thesis
  proof (cases rule: sync_cases)
    case (synced route h1)
    obtain t where t: "h' = h @ t" "self_checked L (spec_Host (rt_Spec route)) t"
      using produces_sync [OF assms(1) self_checked_append reads] checked synced(1) by force
    with synced(1) show ?thesis
      unfolding self_checked_def preceded_def by fastforce
  next
    case skipped
    then obtain t where "h' = h @ t" "list_all is_read t"
      using emitsD [OF syncLoad_reads] by blast
    then show ?thesis
      by (intro exI [of _ t]) (fastforce simp: list_all_length)
  next
    case ignored
    then obtain t where "h' = h @ t" "list_all is_read t"
      using emitsD [OF syncLoad_reads] by blast
    then show ?thesis
      by (intro exI [of _ t]) (fastforce simp: list_all_length)
  qed
qed

theorem sync_accepts_only_checked_witness:
  "\<exists>t i. snd (sync fx_lib (sc_env ''processing'' ''pending'') fx_rc ''ns/web'' []) = t \<and>
    t ! i = Accept sc_client sc_challenge (Inr sc_challenge) \<and>
    self_check fx_lib ''example.com'' sc_client sc_challenge (t ! (i - 1))"
proof -
  let ?t = "snd (sync fx_lib (sc_env ''processing'' ''pending'') fx_rc ''ns/web'' [])"
  have "retry_contract (e_RetryOnConflict (sc_env ''processing'' ''pending''))"
    by (simp add: retry_contract_run)
  note checked = sync_accepts_only_checked [OF sc_sync_pending this]
  have "Accept sc_client sc_challenge (Inr sc_challenge) \<in> set ?t"
    by (simp add: sc_sync_pending sc_accept_events_def)
  then obtain i where i: "i < length ?t" "?t ! i = Accept sc_client sc_challenge (Inr sc_challenge)"
    by (auto simp: in_set_conv_nth)
  with checked have "self_check fx_lib ''example.com'' sc_client sc_challenge (?t ! (i - 1))"
    by (fastforce simp: sc_sync_pending sc_load)
  with i show ?thesis by blast
qed

section \<open>Orders\<close>

lemma sync_no_second_order:
  assumes "retry_contract (e_RetryOnConflict E)"
    and "sync L E rc key h = (r, h')" and "syncLoad L E rc key h = (Inr (Some route), h1)"
    and "getStatus L route = Inr s" and "in_progress s"
  shows "\<exists>t. h' = h @ t \<and> (\<forall>c d a. AuthorizeOrder c d a \<notin> set t)"
proof -
  obtain t0 where t0: "h1 = h @ t0" "list_all is_read t0"
    using assms(3) emitsD [OF syncLoad_reads] by blast
  from assms(2,3) have "syncRoute L E rc key route h1 = (r, h')"
    by (auto elim!: sync_cases)
  then have "\<exists>t. h' = h1 @ t \<and> list_all (\<lambda>e. \<not> opens_order e) t"
  proof (cases rule: syncRoute_cases)
    case (early t)
    then show ?thesis using plain_opens by (auto simp: list_all_iff)
  next
    case (provision s' s0 t)
    then have uri: "order_uri s' \<noteq> []" using assms(4,5) by simp
    from provision(4) show ?thesis
    proof (cases rule: syncProvision_cases)
      case (order c ord u)
      then obtain v where "h' = ((h1 @ t) @ u) @ v" "list_all (\<lambda>e. \<not> opens_order e) v"
        using emitsD [OF opens_order_syncOrder [OF assms(1)]] by blast
      with order provision(1) plain_opens show ?thesis by (auto simp: list_all_iff)
    next
      case (early u)
      with provision(1) plain_opens show ?thesis by (auto simp: list_all_iff)
    qed (use uri in simp)
  qed
  with t0 show ?thesis
    by (fastforce simp: list_all_iff)
qed

text \<open>
  C5: no order is duplicated: while the status of a Route records an order that is pending, processing or
  ready, a pass over the Route never opens another one, whatever the servers answer.
\<close>

theorem sync_continues_order:
  assumes "retry_contract (e_RetryOnConflict E)"
    and "sync L E rc key h = (r, h')" and "syncLoad L E rc key h = (Inr (Some route), h1)"
    and "getStatus L route = Inr s" and "in_progress s"
  shows "\<exists>t. h' = h @ t \<and> (\<forall>c d a. AuthorizeOrder c d a \<notin> set t)"
  using assms by (rule sync_no_second_order)

theorem sync_continues_order_witness:
  "\<exists>t. snd (sync fx_lib (sc_env ''processing'' ''pending'') fx_rc ''ns/web'' []) = t \<and>
    Accept sc_client sc_challenge (Inr sc_challenge) \<in> set t \<and> (\<forall>c d a. AuthorizeOrder c d a \<notin> set t)"
proof -
  have "retry_contract (e_RetryOnConflict (sc_env ''processing'' ''pending''))"
    by (simp add: retry_contract_run)
  moreover have "in_progress (sc_status ''processing'')"
    by (simp add: in_progress_def sc_status_def acme_status_names)
  ultimately show ?thesis
    using sync_continues_order [OF _ sc_sync_pending sc_load sc_getStatus]
    by (auto simp: sc_sync_pending sc_accept_events_def)
qed

text \<open>
  C6: an order that was opened is recorded at once: when the ACME server accepts a new order, for
  the host of the Route, the very next thing the pass does, after reading the clock, is to store
  the URI and the status of that order, and the start time, in the status of the Route; the pass ends with the
  outcome of that.
\<close>

theorem sync_records_new_order:
  assumes "retry_contract (e_RetryOnConflict E)" and "sync L E rc key h = (r, h @ t)"
    and "AuthorizeOrder c d (Inr ord) \<in> set t"
  shows "\<exists>route h1 t1 now s. syncLoad L E rc key h = (Inr (Some route), h1) \<and> d = spec_Host (rt_Spec route) \<and>
    updateStatus L E route s (h @ t1 @ [AuthorizeOrder c d (Inr ord), Clock now]) = (r, h @ t) \<and>
    order_uri s = ord_URI ord \<and> order_status s = ord_Status ord \<and> ps_StartedAt (st_ProvisioningStatus s) = now"
proof -
  have "\<not> plain (AuthorizeOrder c d (Inr ord))" by simp
  with assms(2,3) show ?thesis
  proof (cases rule: sync_reaches)
    case (order route h1 c' s ord' t1)
    then obtain u where "h @ t = (h @ t1) @ u" "list_all (\<lambda>e. \<not> opens_order e) u"
      using emitsD [OF opens_order_syncOrder [OF assms(1)]] by blast
    with order(2) assms(3) show ?thesis
      by (auto simp: list_all_iff)
  next
    case (new_order route h1 c' s t1)
    have before: "AuthorizeOrder c d (Inr ord) \<notin> set t1"
      using new_order(2) by (auto simp: list_all_iff)
    from syncNewOrder_records [OF new_order(3)] show ?thesis
    proof (elim disjE exE conjE)
      fix e assume "h @ t = (h @ t1) @ [AuthorizeOrder c' (spec_Host (rt_Spec route)) (Inl e)]"
      with before assms(3) show ?thesis by auto
    next
      fix ord' now s'
      let ?a = "[AuthorizeOrder c' (spec_Host (rt_Spec route)) (Inr ord'), Clock now]"
      assume upd: "updateStatus L E route s' ((h @ t1) @ ?a) = (r, h @ t)"
        and s': "order_uri s' = ord_URI ord'" "order_status s' = ord_Status ord'" "ps_StartedAt (st_ProvisioningStatus s') = now"
      obtain w where "h @ t = ((h @ t1) @ ?a) @ w" "list_all plain w"
        using emitsD [OF emits_plain_updateStatus upd] by blast
      with before assms(3) have "AuthorizeOrder c d (Inr ord) = AuthorizeOrder c' (spec_Host (rt_Spec route)) (Inr ord')"
        by (auto simp: list_all_iff)
      with new_order(1) upd s' show ?thesis
        by (intro exI [of _ route] exI [of _ h1] exI [of _ t1] exI [of _ now] exI [of _ s']) simp
    qed
  qed
qed

theorem sync_records_new_order_witness:
  "\<exists>t s. snd (sync fx_lib (sc_env [] ''pending'') fx_rc ''ns/web'' []) = t \<and>
    AuthorizeOrder sc_client ''example.com'' (Inr (sc_order ''pending'')) \<in> set t \<and>
    order_uri s = ''uri'' \<and> order_status s = ''pending'' \<and>
    (\<exists>t1. updateStatus fx_lib (sc_env [] ''pending'') (sc_route []) s
       (t1 @ [AuthorizeOrder sc_client ''example.com'' (Inr (sc_order ''pending'')), Clock 60]) = (Inr (), t))"
proof -
  let ?t = "snd (sync fx_lib (sc_env [] ''pending'') fx_rc ''ns/web'' [])"
  have retry: "retry_contract (e_RetryOnConflict (sc_env [] ''pending''))"
    by (simp add: retry_contract_run)
  have mem: "AuthorizeOrder sc_client ''example.com'' (Inr (sc_order ''pending'')) \<in> set ?t"
    by (simp add: sc_sync_new sc_new_events_def)
  have run: "sync fx_lib (sc_env [] ''pending'') fx_rc ''ns/web'' [] = (Inr (), [] @ ?t)"
    by (simp add: sc_sync_new)
  from sync_records_new_order [OF retry run mem] obtain t1 now s where
    upd: "updateStatus fx_lib (sc_env [] ''pending'') (sc_route []) s
      (t1 @ [AuthorizeOrder sc_client ''example.com'' (Inr (sc_order ''pending'')), Clock now]) = (Inr (), ?t)"
    and s: "order_uri s = ''uri''" "order_status s = ''pending''"
    by (auto simp: sc_load sc_order_def)
  obtain w where "?t = (t1 @ [AuthorizeOrder sc_client ''example.com'' (Inr (sc_order ''pending'')), Clock now]) @ w"
    "list_all plain w"
    using emitsD [OF emits_plain_updateStatus upd] by blast
  then have "now = 60"
    by (auto simp: sc_sync_new sc_new_events_def sc_client_events_def append_eq_Cons_conv Cons_eq_append_conv list_all_iff)
  with upd s mem show ?thesis by blast
qed

end
