(* ===== verification/Order_Passes.thy ===== *)
theory Order_Passes
  imports Order_Life Sync_Safety
begin

text \<open>
  Passes over one Route, one after the other. A pass finds the status annotation that an earlier pass left; what else
  the cluster, the ACME server and the clock do between two passes is arbitrary, and so is the number of passes. Two
  passes over the same key never overlap, since the work queue hands a key to one worker at a time. A pass that finds a stale
  Route in its cache is not part of such a sequence: it may open an order again.
\<close>

section \<open>Definitions\<close>

definition carries_status :: "Route \<Rightarrow> string \<Rightarrow> bool" where
  "carries_status route b \<longleftrightarrow>
     (case om_Annotations (rt_Meta route) of None \<Rightarrow> False | Some m \<Rightarrow> mget0 (Some m) AcmeStatusAnnotation = b)"

text \<open>The status annotation that a request writes.\<close>

fun stored_annotation :: "ev \<Rightarrow> string option" where
  "stored_annotation (RoutePatch ns n kv r) = (if fst kv = AcmeStatusAnnotation then Some (snd kv) else None)"
| "stored_annotation (RouteUpdate ns x r) = mget (om_Annotations (rt_Meta x)) AcmeStatusAnnotation"
| "stored_annotation _ = None"

text \<open>
  \<open>route_life L rc key b T b'\<close>: passes whose events are \<open>T\<close> led from the annotation \<open>b\<close> to \<open>b'\<close>. A pass may leave the annotation as it was
  (its requests failed, or it made none).
\<close>

inductive route_life :: "lib \<Rightarrow> RouteController \<Rightarrow> string \<Rightarrow> string \<Rightarrow> trace \<Rightarrow> string \<Rightarrow> bool" for L rc key b0 where
  no_pass: "route_life L rc key b0 [] b0"
| pass: "route_life L rc key b0 T b \<Longrightarrow> retry_contract (e_RetryOnConflict E) \<Longrightarrow> sync L E rc key h = (r, h @ t) \<Longrightarrow>
    syncLoad L E rc key h = (Inr (Some route), h1) \<Longrightarrow> carries_status route b \<Longrightarrow>
    b' = b \<or> (\<exists>e \<in> set t. stored_annotation e = Some b') \<Longrightarrow> route_life L rc key b0 (T @ t) b'"

text \<open>What the encoders write is read back with the same order.\<close>

definition status_readable :: "lib \<Rightarrow> bool" where
  "status_readable L \<longleftrightarrow>
     (\<forall>s b. l_jsonMarshalStatus L s = Some b \<or> l_yamlMarshalStatus L s = Some b \<longrightarrow>
        (\<exists>s'. l_yamlUnmarshalStatus L b = Some s' \<and> order_uri s' = order_uri s \<and> order_status s' = order_status s))"

section \<open>Lemmas\<close>

lemma in_progress_phase: "in_progress s \<longleftrightarrow> (\<exists>u. phase s = InProgress u)"
  by (simp add: in_progress_def phase_def)

lemma carries_status_getStatus:
  "carries_status route b \<Longrightarrow> l_yamlUnmarshalStatus L b = Some s \<Longrightarrow> getStatus L route = Inr s"
  by (auto simp: carries_status_def getStatus_def split: option.splits)

lemma stored_stores: "stored_annotation e = Some b \<Longrightarrow> writes_status L e s \<Longrightarrow> stores_status e"
  by (cases e) auto

lemma stored_readable:
  assumes "status_readable L" and "stored_annotation e = Some b" and "writes_status L e s"
  shows "\<exists>s'. l_yamlUnmarshalStatus L b = Some s' \<and> phase s' = phase s"
proof -
  have "l_jsonMarshalStatus L s = Some b \<or> l_yamlMarshalStatus L s = Some b"
    using assms(2,3) by (cases e) (auto split: if_splits)
  then obtain s' where "l_yamlUnmarshalStatus L b = Some s'" "order_uri s' = order_uri s" "order_status s' = order_status s"
    using assms(1) unfolding status_readable_def by blast
  then show ?thesis
    by (intro exI [of _ s']) (simp add: phase_def)
qed

lemma stored_annotation_stores: "stored_annotation e = Some b \<Longrightarrow> stores_status e"
  by (cases e) simp_all

text \<open>One pass: the annotation it leaves can be read, and its phase is one step of the machine further, or the same.\<close>

lemma pass_step:
  assumes "status_readable L" and "retry_contract (e_RetryOnConflict E)" and "sync L E rc key h = (r, h @ t)"
    and "syncLoad L E rc key h = (Inr (Some route), h1)" and "getStatus L route = Inr s" and "l_yamlUnmarshalStatus L b = Some s"
    and "b' = b \<or> (\<exists>e \<in> set t. stored_annotation e = Some b')"
  shows "\<exists>s'. l_yamlUnmarshalStatus L b' = Some s' \<and> (phase s' = phase s \<or> order_step (opened t) (phase s) (phase s'))"
  using assms(7)
proof
  assume "b' = b"
  with assms(6) show ?thesis by blast
next
  assume "\<exists>e \<in> set t. stored_annotation e = Some b'"
  then obtain e where e: "e \<in> set t" "stored_annotation e = Some b'"
    by blast
  obtain s1 where "writes_status L e s1" "order_step (opened t) (phase s) (phase s1)"
    using sync_steps [OF assms(2-5)] e(1) stored_annotation_stores [OF e(2)]
    by (auto simp: steps_def list_all_iff step_event_def)
  with stored_readable [OF assms(1) e(2)] show ?thesis
    by metis
qed

lemma life_without_opening:
  assumes "status_readable L" and "route_life L rc key b0 T b" and "l_yamlUnmarshalStatus L b0 = Some s0" and "\<not> opened T"
  shows "\<exists>s. l_yamlUnmarshalStatus L b = Some s \<and> (order_step False)\<^sup>*\<^sup>* (phase s0) (phase s)"
  using assms(2,4)
proof (induction rule: route_life.induct)
  case no_pass
  with assms(3) show ?case by blast
next
  case (pass T b E h r t route h1 b')
  then obtain s where s: "l_yamlUnmarshalStatus L b = Some s" "(order_step False)\<^sup>*\<^sup>* (phase s0) (phase s)"
    by auto
  have t: "opened t = False"
    using pass.prems by simp
  obtain s' where "l_yamlUnmarshalStatus L b' = Some s'" "phase s' = phase s \<or> order_step False (phase s) (phase s')"
    using pass_step [OF assms(1) pass.hyps(2-4) carries_status_getStatus [OF pass.hyps(5) s(1)] s(1) pass.hyps(6)]
    unfolding t by blast
  then show ?case
    using s(2) rtranclp.rtrancl_into_rtrancl [OF s(2), of "phase s'"] by auto
qed

section \<open>Properties\<close>

text \<open>
  C13: one order at a time. However many passes run over a Route, starting with an order in progress: as long as none of them opened an order, the
  status records that order, or that it is lost, failed, finished or cleared, and never another one; and if one of them did open an order, then
  the passes before it had led to a status without an order in progress and had opened none.
\<close>

theorem one_order_at_a_time:
  assumes "status_readable L" and "route_life L rc key b0 T b" and "l_yamlUnmarshalStatus L b0 = Some s0" and "phase s0 = InProgress u"
  shows "(\<not> opened T \<longrightarrow>
      (\<exists>s. l_yamlUnmarshalStatus L b = Some s \<and> phase s \<in> {InProgress u, Lost, Failed, Finished, NoOrder})) \<and>
    (opened T \<longrightarrow>
      (\<exists>T1 T2 b1 s1. T = T1 @ T2 \<and> route_life L rc key b0 T1 b1 \<and> \<not> opened T1 \<and> l_yamlUnmarshalStatus L b1 = Some s1 \<and>
         phase s1 \<in> {Lost, Failed, Finished, NoOrder} \<and> route_life L rc key b1 T2 b))"
proof (intro conjI impI)
  assume "\<not> opened T"
  then obtain s where "l_yamlUnmarshalStatus L b = Some s" "(order_step False)\<^sup>*\<^sup>* (InProgress u) (phase s)"
    using life_without_opening [OF assms(1-3)] assms(4) by auto
  moreover from this(2) have "phase s \<in> {InProgress u, Lost, Failed, Finished, NoOrder}"
    by (rule order_machine_no_other_order)
  ultimately show "\<exists>s. l_yamlUnmarshalStatus L b = Some s \<and> phase s \<in> {InProgress u, Lost, Failed, Finished, NoOrder}"
    by blast
next
  assume "opened T"
  with assms(2) show "\<exists>T1 T2 b1 s1. T = T1 @ T2 \<and> route_life L rc key b0 T1 b1 \<and> \<not> opened T1 \<and>
    l_yamlUnmarshalStatus L b1 = Some s1 \<and> phase s1 \<in> {Lost, Failed, Finished, NoOrder} \<and> route_life L rc key b1 T2 b"
  proof (induction rule: route_life.induct)
    case no_pass
    then show ?case by (simp add: opened_def)
  next
    case (pass T b E h r t route h1 b')
    show ?case
    proof (cases "opened T")
      case True
      with pass.IH obtain T1 T2 b1 s1 where ih: "T = T1 @ T2" "route_life L rc key b0 T1 b1" "\<not> opened T1"
        "l_yamlUnmarshalStatus L b1 = Some s1" "phase s1 \<in> {Lost, Failed, Finished, NoOrder}" "route_life L rc key b1 T2 b"
        by blast
      from route_life.pass [OF ih(6) pass.hyps(2-6)] ih(1-5) show ?thesis
        by (metis append.assoc)
    next
      case False
      obtain s where s: "l_yamlUnmarshalStatus L b = Some s" "(order_step False)\<^sup>*\<^sup>* (phase s0) (phase s)"
        using life_without_opening [OF assms(1) pass.hyps(1) assms(3) False] by blast
      have "\<not> in_progress s"
        using sync_no_second_order [OF pass.hyps(2-4) carries_status_getStatus [OF pass.hyps(5) s(1)]] False pass.prems
        by (auto simp: opened_def)
      then have "phase s \<in> {Lost, Failed, Finished, NoOrder}"
        using order_machine_no_other_order [OF s(2) [unfolded assms(4)]] by (auto simp: in_progress_phase)
      moreover have "route_life L rc key b t b'"
        using route_life.pass [OF route_life.no_pass pass.hyps(2-6)] by simp
      ultimately show ?thesis
        using pass.hyps(1) False s(1) by blast
    qed
  qed
qed

text \<open>
  For the witness: an encoding of the status that keeps the order, a Route whose order is processing, and an ACME server that has declared
  the order invalid.
\<close>

definition op_marshal :: "Status \<Rightarrow> string option" where
  "op_marshal s = (if CHR ''|'' \<in> set (order_status s) then None else Some (order_status s @ CHR ''|'' # order_uri s))"

definition op_unmarshal :: "string \<Rightarrow> Status option" where
  "op_unmarshal b = (case Cut CHR ''|'' b of
     (st, uri, _) \<Rightarrow> Some (zero_Status\<lparr>st_ProvisioningStatus := (st_ProvisioningStatus zero_Status)\<lparr>ps_OrderStatus := st, ps_OrderURI := uri\<rparr>\<rparr>))"

definition op_lib :: lib where
  "op_lib = fx_lib\<lparr>l_yamlMarshalStatus := op_marshal, l_yamlUnmarshalStatus := op_unmarshal, l_jsonMarshalStatus := op_marshal\<rparr>"

lemma op_lib_sel [simp]:
  "l_SplitMetaNamespaceKey op_lib = l_SplitMetaNamespaceKey fx_lib" "l_yamlUnmarshalCertIssuer op_lib = l_yamlUnmarshalCertIssuer fx_lib"
  "l_yamlMarshalStatus op_lib = op_marshal" "l_yamlUnmarshalStatus op_lib = op_unmarshal" "l_jsonMarshalStatus op_lib = op_marshal"
  "l_pemDecode op_lib = l_pemDecode fx_lib" "l_ParseCertificate op_lib = l_ParseCertificate fx_lib"
  "l_VerifyHostname op_lib = l_VerifyHostname fx_lib" "l_sha256 op_lib = l_sha256 fx_lib"
  "l_ParsePKCS1PrivateKey op_lib = l_ParsePKCS1PrivateKey fx_lib" "l_pdqsort op_lib = l_pdqsort fx_lib"
  by (simp_all add: op_lib_def)

lemma op_lib_funs [simp]: "needsCertKey op_lib = needsCertKey fx_lib" "PrivateKeyFromSecret op_lib = PrivateKeyFromSecret fx_lib"
proof -
  have c: "CertPemData_Certificate op_lib = CertPemData_Certificate fx_lib" and t: "proactiveRenewalThreshold op_lib = proactiveRenewalThreshold fx_lib"
    unfolding fun_eq_iff CertPemData_Certificate_def proactiveRenewalThreshold_def op_lib_sel by blast+
  show "needsCertKey op_lib = needsCertKey fx_lib"
    unfolding fun_eq_iff needsCertKey_def op_lib_sel c t by blast
  show "PrivateKeyFromSecret op_lib = PrivateKeyFromSecret fx_lib"
    unfolding fun_eq_iff PrivateKeyFromSecret_def op_lib_sel by blast
qed

lemma Cut_append: "c \<notin> set xs \<Longrightarrow> Cut c (xs @ c # ys) = (xs, ys, True)"
  by (induction xs) (auto simp: Cut_def)

lemma op_readable: "status_readable op_lib"
  unfolding status_readable_def by (auto simp: op_marshal_def op_unmarshal_def Cut_append split: if_splits)

definition op_status :: "string \<Rightarrow> Status" where
  "op_status st = zero_Status\<lparr>st_ProvisioningStatus := (st_ProvisioningStatus zero_Status)\<lparr>ps_OrderStatus := st, ps_OrderURI := ''u''\<rparr>\<rparr>"

lemma op_unmarshal_status: "op_unmarshal ''processing|u'' = Some (op_status ''processing'')"
  by (simp add: op_unmarshal_def op_status_def Cut_def)

lemma op_getStatus: "getStatus op_lib (sc_route ''processing|u'') = Inr (op_status ''processing'')"
  by (simp add: getStatus_def sc_route_def mget0_def api_names op_unmarshal_status)

lemma op_carries: "carries_status (sc_route ''processing|u'') ''processing|u''"
  by (simp add: carries_status_def sc_route_def mget0_def api_names)

lemma op_load:
  "syncLoad op_lib (sc_env status st) fx_rc ''ns/web'' h = (Inr (Some (sc_route status)), h @ [CacheRead ''routes'' ''ns'' ''ns/web''])"
  using sc_load [of status st h] by (simp add: syncLoad_def)

lemma op_client:
  "syncClient op_lib (sc_env status st) fx_rc (sc_route status) h = (Inr sc_client, h @ sc_client_events)"
proof -
  have "sort_Slice op_lib lt xs = sort_Slice fx_lib lt xs" for lt xs
    unfolding sort_Slice_def op_lib_sel by (rule refl)
  note sort = this
  have "syncClient op_lib E rc route = syncClient fx_lib E rc route" for E rc route
    unfolding syncClient_def IssuerForObject_def getIssuerConfigMapsForObject_def op_lib_sel op_lib_funs sort by (rule refl)
  with sc_syncClient [of status st h] show ?thesis by simp
qed

definition op_events :: trace where
  "op_events = CacheRead ''routes'' ''ns'' ''ns/web'' # Clock 60 # sc_client_events @
     [GetOrder sc_client ''u'' (Inr (sc_order ''invalid'')), RecordEvent ''ns'' ''web'' ''Warning'' ''AcmeFailedOrder'',
      RouteDeleteCollection ''ns'' (AcmeExposerUID, ''web'') (Inr ()),
      RoutePatch ''ns'' ''web'' (AcmeStatusAnnotation, ''invalid|u'') (Inr (sc_route ''processing|u''))]"

lemma op_sync: "sync op_lib (sc_env ''processing|u'' ''invalid'') fx_rc ''ns/web'' h = (Inr (), h @ op_events)"
proof -
  let ?E = "sc_env ''processing|u'' ''invalid''" and ?r = "sc_route ''processing|u''" and ?s = "op_status ''processing''"
  let ?f = "upd_prov (\<lambda>p. p\<lparr>ps_OrderStatus := ''invalid''\<rparr>) ?s"
  have status: "syncStatus op_lib fx_rc ?r h = (Inr ?s, h)" for h
    by (simp add: syncStatus_def op_getStatus ret_def Let_def order_backoff_def op_status_def zero_Status_def)
  have needs: "syncNeeds op_lib ?E ''ns/web'' ?r ?s h = (Inr (Some ?s), h @ [Clock 60])" for h
    by (simp add: syncNeeds_eq sc_due ret_def)
  have clean: "syncCleanOrder op_lib ?E ''ns/web'' ?r ?s h = (Inr (Some ?s), h)" for h
    by (simp add: syncCleanOrder_def op_status_def acme_status_names ret_def)
  have upd: "updateStatus op_lib ?E ?r (count_failure ''processing'' ?f) h =
      (Inr (), h @ [RoutePatch ''ns'' ''web'' (AcmeStatusAnnotation, ''invalid|u'') (Inr ?r)])" for h
    by (simp add: updateStatus_def setStatus_eq mput_idem_iff stored_status_def op_status_def op_marshal_def count_failure_def
        patchRouteAnnotation_def io_defs)
  have order: "syncOrder op_lib ?E fx_rc ''ns/web'' ?r sc_client ?s ((sc_order ''invalid'')\<lparr>ord_URI := ''u''\<rparr>) h =
      (Inr (), h @ [RecordEvent ''ns'' ''web'' ''Warning'' ''AcmeFailedOrder'', RouteDeleteCollection ''ns'' (AcmeExposerUID, ''web'') (Inr ()),
        RoutePatch ''ns'' ''web'' (AcmeStatusAnnotation, ''invalid|u'') (Inr ?r)])" for h
    using upd
    by (simp add: syncOrder_def sc_order_def acme_status_names syncInvalid_def cleanup_logged_eq seq_io_def bind_io_def log_ev_def
        op_status_def)
  have "order_uri ?s = ''u''"
    by (simp add: op_status_def)
  then show ?thesis
    by (simp add: sync_def syncRoute_def syncProvision_def syncGetOrder_def acme_GetOrder_def bind_io_def attempt_def call_def of_sum_def
        ret_def op_load status needs clean op_client order op_events_def)
qed

lemma op_life: "route_life op_lib fx_rc ''ns/web'' ''processing|u'' op_events ''invalid|u''"
proof -
  have "retry_contract (e_RetryOnConflict (sc_env ''processing|u'' ''invalid''))"
    by (simp add: retry_contract_run)
  moreover have "\<exists>e \<in> set op_events. stored_annotation e = Some ''invalid|u''"
    by (simp add: op_events_def)
  ultimately show ?thesis
    using route_life.pass [OF route_life.no_pass _ op_sync op_load op_carries] by simp
qed

theorem one_order_at_a_time_witness:
  "\<exists>s. l_yamlUnmarshalStatus op_lib ''invalid|u'' = Some s \<and> phase s \<in> {InProgress ''u'', Lost, Failed, Finished, NoOrder}"
proof -
  have "l_yamlUnmarshalStatus op_lib ''processing|u'' = Some (op_status ''processing'')"
    by (simp add: op_unmarshal_status)
  moreover have "phase (op_status ''processing'') = InProgress ''u''"
    by (simp add: phase_def op_status_def acme_status_names)
  moreover have "\<not> opened op_events"
    by (simp add: opened_def op_events_def sc_client_events_def)
  ultimately show ?thesis
    using one_order_at_a_time [OF op_readable op_life] by blast
qed

end
