(* ===== verification/Route_Events.thy ===== *)
theory Route_Events
  imports Route_Status
begin

text \<open>
  The event handlers of the route controller (\<^verbatim>\<open>pkg/controller/route/route.go\<close>): which keys an informer
  event puts into which queue. A handler is given whatever the informer delivers; a failed
  type assertion is a panic, \<^verbatim>\<open>HandleError\<close> only logs.
\<close>

section \<open>Definitions\<close>

definition queue_Add :: "queue_name \<Rightarrow> string \<Rightarrow> unit io" where
  "queue_Add q key = log_ev (QueueAdd q key)"

definition enqueueRouteToSecret :: "lib \<Rightarrow> Route \<Rightarrow> unit io" where
  "enqueueRouteToSecret L route =
     (case l_KeyFunc L (rt_Meta route) of
        None \<Rightarrow> ret ()
      | Some key \<Rightarrow> queue_Add RouteToSecretQueue key)"

definition enqueueRoute :: "lib \<Rightarrow> Route \<Rightarrow> unit io" where
  "enqueueRoute L route =
     (case l_KeyFunc L (rt_Meta route) of
        None \<Rightarrow> ret ()
      | Some key \<Rightarrow>
          seq_io (queue_Add RouteQueue key)
            (case GetSyncSecretName route of
               None \<Rightarrow> ret ()
             | Some _ \<Rightarrow> enqueueRouteToSecret L route))"

definition addRoute :: "lib \<Rightarrow> RouteController \<Rightarrow> obj \<Rightarrow> unit io" where
  "addRoute L rc ob =
     (case ob of
        ObjRoute route \<Rightarrow> (if \<not> IsManaged (rt_Meta route) (rc_annotation rc) then ret () else enqueueRoute L route)
      | _ \<Rightarrow> throw (Panic ''not a Route''))"

definition updateRoute :: "lib \<Rightarrow> RouteController \<Rightarrow> obj \<Rightarrow> obj \<Rightarrow> unit io" where
  "updateRoute L rc old cur =
     (case old of
        ObjRoute oldRoute \<Rightarrow>
          (case cur of
             ObjRoute newRoute \<Rightarrow>
               (if \<not> IsManaged (rt_Meta newRoute) (rc_annotation rc) then ret () else enqueueRoute L newRoute)
           | _ \<Rightarrow> throw (Panic ''not a Route''))
      | _ \<Rightarrow> throw (Panic ''not a Route''))"

text \<open>A deleted object comes directly or in a tombstone.\<close>

fun deleted_Route :: "obj \<Rightarrow> Route option" where
  "deleted_Route (ObjRoute route) = Some route"
| "deleted_Route (Tombstone (ObjRoute route)) = Some route"
| "deleted_Route _ = None"

fun deleted_ReplicaSet :: "obj \<Rightarrow> ReplicaSet option" where
  "deleted_ReplicaSet (ObjReplicaSet rs) = Some rs"
| "deleted_ReplicaSet (Tombstone (ObjReplicaSet rs)) = Some rs"
| "deleted_ReplicaSet _ = None"

fun deleted_Secret :: "obj \<Rightarrow> Secret option" where
  "deleted_Secret (ObjSecret s) = Some s"
| "deleted_Secret (Tombstone (ObjSecret s)) = Some s"
| "deleted_Secret _ = None"

definition deleteRoute :: "lib \<Rightarrow> RouteController \<Rightarrow> obj \<Rightarrow> unit io" where
  "deleteRoute L rc ob =
     (case deleted_Route ob of
        None \<Rightarrow> ret ()
      | Some route \<Rightarrow> (if \<not> IsManaged (rt_Meta route) (rc_annotation rc) then ret () else enqueueRoute L route))"

definition enqueueOwningRoute :: "env \<Rightarrow> RouteController \<Rightarrow> ObjectMeta \<Rightarrow> unit io" where
  "enqueueOwningRoute E rc m =
     (case mget (om_Annotations m) AcmeExposerKey of
        None \<Rightarrow> ret ()
      | Some routeKey \<Rightarrow>
          bind_io (attempt (routeByKey E (rc_routeInformers rc) (om_Namespace m) routeKey)) (\<lambda>r.
            case r of
              Inl err \<Rightarrow> ret ()
            | Inr None \<Rightarrow> ret ()
            | Inr (Some route) \<Rightarrow>
                if \<not> IsManaged (rt_Meta route) (rc_annotation rc) then ret () else queue_Add RouteQueue routeKey))"

definition addReplicaSet :: "env \<Rightarrow> RouteController \<Rightarrow> obj \<Rightarrow> unit io" where
  "addReplicaSet E rc ob =
     (case ob of ObjReplicaSet rs \<Rightarrow> enqueueOwningRoute E rc (rps_Meta rs) | _ \<Rightarrow> throw (Panic ''not a ReplicaSet''))"

definition updateReplicaSet :: "env \<Rightarrow> RouteController \<Rightarrow> obj \<Rightarrow> obj \<Rightarrow> unit io" where
  "updateReplicaSet E rc old cur =
     (case old of
        ObjReplicaSet oldRS \<Rightarrow>
          seq_io (enqueueOwningRoute E rc (rps_Meta oldRS))
            (case cur of ObjReplicaSet newRS \<Rightarrow> enqueueOwningRoute E rc (rps_Meta newRS)
             | _ \<Rightarrow> throw (Panic ''not a ReplicaSet''))
      | _ \<Rightarrow> throw (Panic ''not a ReplicaSet''))"

definition deleteReplicaSet :: "env \<Rightarrow> RouteController \<Rightarrow> obj \<Rightarrow> unit io" where
  "deleteReplicaSet E rc ob =
     (case deleted_ReplicaSet ob of None \<Rightarrow> ret () | Some rs \<Rightarrow> enqueueOwningRoute E rc (rps_Meta rs))"

definition resolveControllerRef :: "env \<Rightarrow> RouteController \<Rightarrow> string \<Rightarrow> OwnerReference \<Rightarrow> Route option io" where
  "resolveControllerRef E rc namespace controllerRef =
     (if or_Kind controllerRef \<noteq> controllerKind_Kind then ret None
      else bind_io (attempt (routeLister E (rc_routeInformers rc) namespace (or_Name controllerRef))) (\<lambda>r.
        case r of
          Inl err \<Rightarrow> ret None
        | Inr route \<Rightarrow> (if om_UID (rt_Meta route) \<noteq> or_UID controllerRef then ret None else ret (Some route))))"

text \<open>The common end of \<^verbatim>\<open>updateSecret\<close> and \<^verbatim>\<open>deleteSecret\<close>, from \<^verbatim>\<open>GetControllerOf\<close> on.\<close>

definition enqueueForSecret :: "lib \<Rightarrow> env \<Rightarrow> RouteController \<Rightarrow> Secret \<Rightarrow> unit io" where
  "enqueueForSecret L E rc secret =
     (case l_GetControllerOf L (sec_Meta secret) of
        None \<Rightarrow> ret ()
      | Some controllerRef \<Rightarrow>
          bind_io (resolveControllerRef E rc (om_Namespace (sec_Meta secret)) controllerRef) (\<lambda>found.
            case found of
              None \<Rightarrow> ret ()
            | Some route \<Rightarrow>
                if GetSyncSecretName route = Some (om_Name (sec_Meta secret)) then enqueueRouteToSecret L route
                else enqueueRoute L route))"

definition updateSecret :: "lib \<Rightarrow> env \<Rightarrow> RouteController \<Rightarrow> obj \<Rightarrow> obj \<Rightarrow> unit io" where
  "updateSecret L E rc old cur =
     (case old of
        ObjSecret oldSecret \<Rightarrow>
          (case cur of ObjSecret newSecret \<Rightarrow> enqueueForSecret L E rc newSecret | _ \<Rightarrow> throw (Panic ''not a Secret''))
      | _ \<Rightarrow> throw (Panic ''not a Secret''))"

definition deleteSecret :: "lib \<Rightarrow> env \<Rightarrow> RouteController \<Rightarrow> obj \<Rightarrow> unit io" where
  "deleteSecret L E rc ob =
     (case deleted_Secret ob of None \<Rightarrow> ret () | Some secret \<Rightarrow> enqueueForSecret L E rc secret)"

section \<open>Lemmas\<close>

lemma enqueueRoute_eq:
  "enqueueRoute L route h =
     (Inr (), h @ (case l_KeyFunc L (rt_Meta route) of None \<Rightarrow> []
        | Some key \<Rightarrow> QueueAdd RouteQueue key #
            (if mget (om_Annotations (rt_Meta route)) AcmeSecretName = None then [] else [QueueAdd RouteToSecretQueue key])))"
  by (auto simp: enqueueRoute_def enqueueRouteToSecret_def queue_Add_def GetSyncSecretName_def io_defs split: option.splits)

lemma resolveControllerRef_eq:
  assumes "resolveControllerRef E rc ns ref h = (Inr found, h')"
  shows "\<exists>t. h' = h @ t \<and> list_all is_read t \<and>
    (\<forall>route. found = Some route \<longrightarrow> or_Kind ref = controllerKind_Kind \<and> om_UID (rt_Meta route) = or_UID ref)"
proof -
  have "emits is_read (resolveControllerRef E rc ns ref)"
    unfolding resolveControllerRef_def by (auto intro!: io_intro emits_cache)
  then obtain t where "h' = h @ t" "list_all is_read t"
    using assms emitsD by blast
  moreover have "or_Kind ref = controllerKind_Kind \<and> om_UID (rt_Meta route) = or_UID ref" if "found = Some route" for route
    using assms that
    by (auto simp: resolveControllerRef_def bind_io_Inr ret_def split: if_splits sum.splits) (metis sumE)
  ultimately show ?thesis by blast
qed

section \<open>Properties\<close>

text \<open>
  C34: every event of a Route puts its key into the route queue exactly when the Route is managed,
  and into the secrets queue exactly when it also asks for a Secret; a deletion counts the same whether it
  arrives directly or in a tombstone, and an unexpected object in a deletion is ignored.
\<close>

theorem route_events_enqueue:
  "let queued = (\<lambda>route. case l_KeyFunc L (rt_Meta route) of None \<Rightarrow> []
         | Some key \<Rightarrow> if \<not> IsManaged (rt_Meta route) (rc_annotation rc) then []
             else QueueAdd RouteQueue key # (if GetSyncSecretName route = None then [] else [QueueAdd RouteToSecretQueue key]))
   in addRoute L rc (ObjRoute route) h = (Inr (), h @ queued route) \<and>
      updateRoute L rc (ObjRoute old) (ObjRoute route) h = (Inr (), h @ queued route) \<and>
      deleteRoute L rc (ObjRoute route) h = (Inr (), h @ queued route) \<and>
      deleteRoute L rc (Tombstone (ObjRoute route)) h = (Inr (), h @ queued route) \<and>
      (deleted_Route ob = None \<longrightarrow> deleteRoute L rc ob h = (Inr (), h))"
  by (auto simp: Let_def addRoute_def updateRoute_def deleteRoute_def enqueueRoute_eq ret_def GetSyncSecretName_def
      split: option.splits)

theorem route_events_enqueue_witness:
  "deleteRoute fx_lib fx_rc (Tombstone ObjOther) [] = (Inr (), []) \<and>
   addRoute fx_lib fx_rc (ObjRoute fx_route) [] = (Inr (), [QueueAdd RouteQueue ''ns/web''])"
  using route_events_enqueue [where L = fx_lib and rc = fx_rc and route = fx_route and h = "[]" and ob = "Tombstone ObjOther"]
  by (simp add: fx_defs fx_rc_def IsManaged_def IsTemporary_def GetSyncSecretName_def api_names)

text \<open>
  \<open>queues_owner E rc m h q k\<close>: the exposer annotation of \<open>m\<close> is the key \<open>k\<close> of a managed Route of the cache, at \<open>h\<close>.
  \<open>owner_events\<close>: reads of the cache, and the keys that this puts into the queues.
\<close>

definition queues_owner :: "env \<Rightarrow> RouteController \<Rightarrow> ObjectMeta \<Rightarrow> trace \<Rightarrow> queue_name \<Rightarrow> string \<Rightarrow> bool" where
  "queues_owner E rc m h q k \<longleftrightarrow> q = RouteQueue \<and> mget (om_Annotations m) AcmeExposerKey = Some k \<and>
     (\<exists>route h1. routeByKey E (rc_routeInformers rc) (om_Namespace m) k h = (Inr (Some route), h1) \<and>
        IsManaged (rt_Meta route) (rc_annotation rc))"

definition owner_events :: "env \<Rightarrow> RouteController \<Rightarrow> ObjectMeta \<Rightarrow> trace \<Rightarrow> trace \<Rightarrow> bool" where
  "owner_events E rc m h t \<longleftrightarrow>
     list_all (\<lambda>e. is_read e \<or> (\<exists>q k. e = QueueAdd q k)) t \<and> (\<forall>q k. QueueAdd q k \<in> set t \<longleftrightarrow> queues_owner E rc m h q k)"

text \<open>A namespace whose Route informer is there, and whose cache does not panic on a lookup.\<close>

definition routes_watched :: "env \<Rightarrow> RouteController \<Rightarrow> string \<Rightarrow> bool" where
  "routes_watched E rc ns \<longleftrightarrow> (\<exists>f. route_InformersForOrGlobal (rc_routeInformers rc) ns = Some f \<and>
     (\<forall>h k e. e_routeByKey E h (fac_Namespace f) k = Inl e \<longrightarrow> \<not> is_panic e))"

lemma routeByKey_no_panic:
  "routes_watched E rc ns \<Longrightarrow> routeByKey E (rc_routeInformers rc) ns k h = (Inl e, h') \<Longrightarrow> \<not> is_panic e"
  by (auto simp: routes_watched_def routeByKey_def read_cache_def bind_io_def call_def of_sum_def throw_def ret_def split: sum.splits)

lemma reads_no_add: "list_all is_read t \<Longrightarrow> QueueAdd q k \<notin> set t"
  by (auto simp: list_all_iff)

lemma enqueueOwningRoute_events:
  assumes "routes_watched E rc (om_Namespace m)"
  shows "\<exists>t. enqueueOwningRoute E rc m h = (Inr (), h @ t) \<and> owner_events E rc m h t"
proof (cases "mget (om_Annotations m) AcmeExposerKey")
  case None
  then show ?thesis
    by (intro exI [of _ "[]"]) (simp add: enqueueOwningRoute_def ret_def owner_events_def queues_owner_def)
next
  case (Some key)
  obtain g t where g: "routeByKey E (rc_routeInformers rc) (om_Namespace m) key h = (g, h @ t)" "list_all is_read t"
    using emits_cache(1) [of is_read] unfolding emits_def by (metis prod.collapse)
  let ?managed = "\<exists>route. g = Inr (Some route) \<and> IsManaged (rt_Meta route) (rc_annotation rc)"
  let ?t = "t @ (if ?managed then [QueueAdd RouteQueue key] else [])"
  have "enqueueOwningRoute E rc m h = (Inr (), h @ ?t)"
    using Some g(1) routeByKey_no_panic [OF assms]
    by (cases g) (auto simp: enqueueOwningRoute_def bind_io_def attempt_def queue_Add_def log_ev_def ret_def split: option.splits)
  moreover have "queues_owner E rc m h q k \<longleftrightarrow> q = RouteQueue \<and> k = key \<and> ?managed" for q k
    using Some g(1) by (auto simp: queues_owner_def)
  then have "owner_events E rc m h ?t"
    using g(2) reads_no_add [OF g(2)] by (auto simp: owner_events_def list_all_iff)
  ultimately show ?thesis by blast
qed

text \<open>
  C35: an event of a ReplicaSet puts into the route queue exactly the key its exposer annotation names, and only if that Route is in
  the cache and managed; otherwise it only reads the cache. This holds for an addition and for a deletion, direct or in a
  tombstone; an update does it for the old and then for the new object. An unexpected object in a deletion is ignored. The
  Routes of the namespace must be watched.
\<close>

theorem replicaSet_events_enqueue:
  assumes "routes_watched E rc (om_Namespace (rps_Meta rs))" and "routes_watched E rc (om_Namespace (rps_Meta old))"
  shows "(\<exists>t. addReplicaSet E rc (ObjReplicaSet rs) h = (Inr (), h @ t) \<and> owner_events E rc (rps_Meta rs) h t) \<and>
   (\<exists>t u. updateReplicaSet E rc (ObjReplicaSet old) (ObjReplicaSet rs) h = (Inr (), h @ t @ u) \<and>
      owner_events E rc (rps_Meta old) h t \<and> owner_events E rc (rps_Meta rs) (h @ t) u) \<and>
   (\<exists>t. deleteReplicaSet E rc (ObjReplicaSet rs) h = (Inr (), h @ t) \<and> owner_events E rc (rps_Meta rs) h t) \<and>
   (\<exists>t. deleteReplicaSet E rc (Tombstone (ObjReplicaSet rs)) h = (Inr (), h @ t) \<and> owner_events E rc (rps_Meta rs) h t) \<and>
   (deleted_ReplicaSet ob = None \<longrightarrow> deleteReplicaSet E rc ob h = (Inr (), h))"
proof -
  obtain t where t: "enqueueOwningRoute E rc (rps_Meta old) h = (Inr (), h @ t)" "owner_events E rc (rps_Meta old) h t"
    using enqueueOwningRoute_events [OF assms(2)] by blast
  obtain u where "enqueueOwningRoute E rc (rps_Meta rs) (h @ t) = (Inr (), (h @ t) @ u)" "owner_events E rc (rps_Meta rs) (h @ t) u"
    using enqueueOwningRoute_events [OF assms(1)] by blast
  with t have "\<exists>t u. updateReplicaSet E rc (ObjReplicaSet old) (ObjReplicaSet rs) h = (Inr (), h @ t @ u) \<and>
      owner_events E rc (rps_Meta old) h t \<and> owner_events E rc (rps_Meta rs) (h @ t) u"
    by (intro exI [of _ t] exI [of _ u]) (simp add: updateReplicaSet_def seq_io_def bind_io_def)
  with enqueueOwningRoute_events [OF assms(1), of h] show ?thesis
    by (auto simp: addReplicaSet_def deleteReplicaSet_def ret_def)
qed

text \<open>The cluster of the witness knows the Route under every key.\<close>

definition fx_meta_exposer :: ObjectMeta where
  "fx_meta_exposer = (fx_meta ''exposer-1'')\<lparr>om_Annotations := Some [AcmeExposerKey \<mapsto> ''ns/web'']\<rparr>"

definition fx_exposer_rs :: ReplicaSet where
  "fx_exposer_rs = (desiredExposerRS fx_lib fx_rc ''ns/web'' fx_route ''id'' ''exposer-1'' fx_route
     (desiredExposerSecret fx_lib ''ns/web'' fx_route ''id'' ''exposer-1'' fx_route ''/p'' ''r'') (exposerRequirements fx_lib))
     \<lparr>rps_Meta := fx_meta_exposer\<rparr>"

theorem replicaSet_events_enqueue_witness:
  "let E = fx_env\<lparr>e_routeByKey := \<lambda>h f k. Inr (Some fx_route)\<rparr>
   in QueueAdd RouteQueue ''ns/web'' \<in> set (snd (updateReplicaSet E fx_rc (ObjReplicaSet fx_exposer_rs) (ObjReplicaSet fx_exposer_rs) [])) \<and>
      deleteReplicaSet E fx_rc (Tombstone ObjOther) [] = (Inr (), [])"
proof -
  let ?E = "fx_env\<lparr>e_routeByKey := \<lambda>h f k. Inr (Some fx_route)\<rparr>"
  have "queues_owner ?E fx_rc (rps_Meta fx_exposer_rs) [] RouteQueue ''ns/web''"
    by (simp add: queues_owner_def fx_exposer_rs_def fx_meta_exposer_def routeByKey_def read_cache_def io_defs
        route_InformersForOrGlobal_def fx_rc_def NamespaceAll_def fx_defs IsManaged_def IsTemporary_def)
  moreover have "routes_watched ?E fx_rc (om_Namespace (rps_Meta fx_exposer_rs))"
    by (simp add: routes_watched_def fx_exposer_rs_def fx_meta_exposer_def route_InformersForOrGlobal_def fx_rc_def NamespaceAll_def fx_defs)
  ultimately show ?thesis
    using replicaSet_events_enqueue [of ?E fx_rc fx_exposer_rs fx_exposer_rs "[]" "Tombstone ObjOther"]
    by (auto simp: Let_def owner_events_def)
qed

text \<open>
  What a change of a Secret requeues. Its controller must be a Route of the cache with the same UID; then the
  Secret the Route asks for only goes to the secrets queue, and any other Secret requeues its
  controller. For the Secret of an exposer the controller is the exposer Route, so it is the exposer Route that is
  requeued and not the Route being provisioned; the exposer Route is never managed, and the pass ignores it.
\<close>

theorem secret_event_requeues_controller:
  assumes "l_GetControllerOf L (sec_Meta secret) = Some ref"
    and "resolveControllerRef E rc (om_Namespace (sec_Meta secret)) ref h = (Inr (Some owner), h1)"
    and "l_KeyFunc L (rt_Meta owner) = Some key"
  shows "updateSecret L E rc (ObjSecret old) (ObjSecret secret) h =
    (Inr (), h1 @ (if GetSyncSecretName owner = Some (om_Name (sec_Meta secret)) then [QueueAdd RouteToSecretQueue key]
      else QueueAdd RouteQueue key # (if GetSyncSecretName owner = None then [] else [QueueAdd RouteToSecretQueue key]))) \<and>
    om_UID (rt_Meta owner) = or_UID ref \<and>
    (IsTemporary (rt_Meta owner) \<longrightarrow> \<not> IsManaged (rt_Meta owner) (rc_annotation rc))"
proof -
  have "IsTemporary (rt_Meta owner) \<longrightarrow> \<not> IsManaged (rt_Meta owner) (rc_annotation rc)"
    by (auto simp: IsManaged_def split: option.splits)
  moreover have "om_UID (rt_Meta owner) = or_UID ref"
    using resolveControllerRef_eq [OF assms(2)] by auto
  moreover have "enqueueForSecret L E rc secret h =
    (Inr (), h1 @ (if GetSyncSecretName owner = Some (om_Name (sec_Meta secret)) then [QueueAdd RouteToSecretQueue key]
      else QueueAdd RouteQueue key # (if GetSyncSecretName owner = None then [] else [QueueAdd RouteToSecretQueue key])))"
    using assms
    by (auto simp: enqueueForSecret_def bind_io_def enqueueRoute_eq enqueueRouteToSecret_def queue_Add_def log_ev_def
        GetSyncSecretName_def split: option.splits)
  ultimately show ?thesis
    by (simp add: updateSecret_def)
qed

definition fx_exposer_route :: Route where
  "fx_exposer_route = desiredExposerRoute fx_lib ''ns/web'' fx_route ''id'' ''exposer-1'' ''tok''"

definition fx_exposer_secret :: Secret where
  "fx_exposer_secret = desiredExposerSecret fx_lib ''ns/web'' fx_route ''id'' ''exposer-1'' fx_exposer_route ''/p'' ''r''"

theorem secret_event_requeues_controller_witness:
  "let E = fx_env\<lparr>e_routeGet := \<lambda>h f ns n. Inr fx_exposer_route\<rparr>;
       s = fx_exposer_secret\<lparr>sec_Meta := (sec_Meta fx_exposer_secret)\<lparr>om_Namespace := ''ns''\<rparr>\<rparr>
   in updateSecret fx_lib E fx_rc (ObjSecret s) (ObjSecret s) [] =
        (Inr (), [CacheRead ''routes'' ''ns'' ''exposer-1'', QueueAdd RouteQueue ''ns/exposer-1'']) \<and>
      \<not> IsManaged (rt_Meta fx_exposer_route) (rc_annotation fx_rc)"
proof -
  let ?E = "fx_env\<lparr>e_routeGet := \<lambda>h f ns n. Inr fx_exposer_route\<rparr>"
  let ?s = "fx_exposer_secret\<lparr>sec_Meta := (sec_Meta fx_exposer_secret)\<lparr>om_Namespace := ''ns''\<rparr>\<rparr>"
  let ?ref = "ownerRefTo fx_lib (rt_Meta fx_exposer_route)"
  have meta: "om_Name (rt_Meta fx_exposer_route) = ''exposer-1''" "om_Namespace (rt_Meta fx_exposer_route) = ''ns''"
    by (simp_all add: fx_exposer_route_def desiredExposerRoute_def Let_def) (simp add: fx_defs)
  have ref: "l_GetControllerOf fx_lib (sec_Meta ?s) = Some ?ref"
    by (simp add: fx_exposer_secret_def desiredExposerSecret_def exposerMeta_def fx_GetControllerOf_def ownerRefTo_def)
  have found: "resolveControllerRef ?E fx_rc (om_Namespace (sec_Meta ?s)) ?ref [] =
      (Inr (Some fx_exposer_route), [CacheRead ''routes'' ''ns'' ''exposer-1''])"
    by (simp add: resolveControllerRef_def ownerRefTo_def routeLister_def read_cache_def io_defs
        route_InformersForOrGlobal_def fx_rc_def NamespaceAll_def meta)
  have key: "l_KeyFunc fx_lib (rt_Meta fx_exposer_route) = Some ''ns/exposer-1''"
    by (simp add: meta)
  have name: "GetSyncSecretName fx_exposer_route = None" "IsTemporary (rt_Meta fx_exposer_route)"
    by (simp_all add: GetSyncSecretName_def IsTemporary_def fx_exposer_route_def desiredExposerRoute_annotations
        desiredExposerRoute_labels mget_filterOutAnnotations)
      (simp add: api_names fx_defs filtered_by_def)
  show ?thesis
    using secret_event_requeues_controller [OF ref found key, of ?s] name by (simp add: Let_def)
qed

end
