(* ===== verification/Account.thy ===== *)
theory Account
  imports Route_Events
begin

text \<open>
  The account controller (\<^verbatim>\<open>pkg/controller/issuer/acme/acme.go\<close>): it keeps the ACME account of each issuer
  ConfigMap registered and records it in the ConfigMap. Accepting the terms of service only logs.
\<close>

section \<open>Definitions\<close>

record AccountController =
  ac_kubeInformers :: informers
  ac_acmeTimeout :: duration
  ac_cachesToSync :: "(informer_kind \<times> string) set"
  ac_handlers :: "(informer_kind \<times> hook \<times> string) set"

definition acceptTerms :: "string \<Rightarrow> bool" where
  "acceptTerms tosURL = True"

definition NewAccountController :: "(informer_kind \<Rightarrow> string \<Rightarrow> bool) \<Rightarrow> informers \<Rightarrow> gerror + AccountController" where
  "NewAccountController registered kubeInformers =
     (if kube_Namespaces kubeInformers = {} then Inl (Panic ''no namespace set up'')
      else Inr
        \<lparr>ac_kubeInformers = kubeInformers,
         ac_acmeTimeout = 15 * 10 ^ 9,
         ac_cachesToSync = {ConfigMaps, Secrets} \<times> kube_Namespaces kubeInformers,
         ac_handlers =
           {(ConfigMaps, f, ns) | f ns. ns \<in> kube_Namespaces kubeInformers \<and> registered ConfigMaps ns} \<union>
           {(Secrets, DeleteFunc, ns) | ns. ns \<in> kube_Namespaces kubeInformers \<and> registered Secrets ns}\<rparr>)"

text \<open>\<^verbatim>\<open>api.AccountLabelSet.AsSelector().Matches\<close>\<close>

definition matchesAccountLabels :: "gomap \<Rightarrow> bool" where
  "matchesAccountLabels labels = list_all (\<lambda>(k, v). mget labels k = Some v) AccountLabelSet"

definition enqueueAccount :: "lib \<Rightarrow> ConfigMap \<Rightarrow> unit io" where
  "enqueueAccount L cm =
     (case l_KeyFunc L (cfg_Meta cm) of None \<Rightarrow> ret () | Some key \<Rightarrow> queue_Add AccountQueue key)"

definition addConfigMap :: "lib \<Rightarrow> obj \<Rightarrow> unit io" where
  "addConfigMap L ob =
     (case ob of
        ObjConfigMap cm \<Rightarrow> (if \<not> matchesAccountLabels (om_Labels (cfg_Meta cm)) then ret () else enqueueAccount L cm)
      | _ \<Rightarrow> throw (Panic ''not a ConfigMap''))"

definition updateConfigMap :: "lib \<Rightarrow> obj \<Rightarrow> obj \<Rightarrow> unit io" where
  "updateConfigMap L old cur =
     (case old of
        ObjConfigMap oldConfigMap \<Rightarrow>
          (case cur of
             ObjConfigMap newConfigMap \<Rightarrow>
               (if \<not> matchesAccountLabels (om_Labels (cfg_Meta newConfigMap)) then ret () else enqueueAccount L newConfigMap)
           | _ \<Rightarrow> throw (Panic ''not a ConfigMap''))
      | _ \<Rightarrow> throw (Panic ''not a ConfigMap''))"

fun deleted_ConfigMap :: "obj \<Rightarrow> ConfigMap option" where
  "deleted_ConfigMap (ObjConfigMap cm) = Some cm"
| "deleted_ConfigMap (Tombstone (ObjConfigMap cm)) = Some cm"
| "deleted_ConfigMap _ = None"

definition deleteConfigMap :: "lib \<Rightarrow> obj \<Rightarrow> unit io" where
  "deleteConfigMap L ob =
     (case deleted_ConfigMap ob of
        None \<Rightarrow> ret ()
      | Some cm \<Rightarrow> (if \<not> matchesAccountLabels (om_Labels (cfg_Meta cm)) then ret () else enqueueAccount L cm))"

text \<open>The body of the loop of \<^verbatim>\<open>deleteSecret\<close>.\<close>

definition enqueueIfUsesSecret :: "lib \<Rightarrow> Secret \<Rightarrow> ConfigMap \<Rightarrow> unit io" where
  "enqueueIfUsesSecret L secret cm =
     (case mget (cfg_Data cm) CertIssuerDataKey of
        None \<Rightarrow> ret ()
      | Some certIssuerData \<Rightarrow>
          (case l_yamlUnmarshalCertIssuer L certIssuerData of
             None \<Rightarrow> ret ()
           | Some certIssuer \<Rightarrow>
               if ci_Type certIssuer = CertIssuerTypeAcme
               then (if ci_SecretName certIssuer = om_Name (sec_Meta secret) then enqueueAccount L cm else ret ())
               else ret ()))"

definition account_deleteSecret :: "lib \<Rightarrow> env \<Rightarrow> AccountController \<Rightarrow> obj \<Rightarrow> unit io" where
  "account_deleteSecret L E ac ob =
     (case deleted_Secret ob of
        None \<Rightarrow> ret ()
      | Some secret \<Rightarrow>
          bind_io (attempt (issuerConfigMaps E (ac_kubeInformers ac) (om_Namespace (sec_Meta secret)))) (\<lambda>r.
            case r of
              Inl err \<Rightarrow> ret ()
            | Inr allConfigMaps \<Rightarrow> for_each (enqueueIfUsesSecret L secret) allConfigMaps))"

subsection \<open>Hashes and fmt.Sprint\<close>

text \<open>\<^verbatim>\<open>fmt.Sprint\<close> of a \<^verbatim>\<open>[]string\<close> and of a \<^verbatim>\<open>[64]byte\<close>: the elements, separated by spaces, in brackets.\<close>

definition Sprint_strings :: "string list \<Rightarrow> string" where
  "Sprint_strings xs = ''['' @ Join xs '' '' @ '']''"

definition Sprint_bytes :: "8 word list \<Rightarrow> string" where
  "Sprint_bytes bs = ''['' @ Join (map (\<lambda>b. decimal (unat b)) bs) '' '' @ '']''"

definition hashAccount :: "lib \<Rightarrow> AcmeAccount \<Rightarrow> 8 word list" where
  "hashAccount L account = l_sha512 L (Sprint_strings (aa_Contacts account))"

text \<open>
  \<^verbatim>\<open>reflect.DeepEqual\<close> compares the dynamic types first: \<^verbatim>\<open>accountHash\<close> is an array of 64 bytes, the other
  operand a slice.
\<close>

datatype go_bytes = ByteArray64 "8 word list" | ByteSlice "8 word list"

definition DeepEqual_bytes :: "go_bytes \<Rightarrow> go_bytes \<Rightarrow> bool" where
  "DeepEqual_bytes x y = (x = y)"

definition string_bytes :: "string \<Rightarrow> 8 word list" where
  "string_bytes s = map (\<lambda>c. of_nat (of_char c)) s"

subsection \<open>The pass over an issuer\<close>

text \<open>Which issuer a key stands for; \<open>None\<close> ends the pass with \<^verbatim>\<open>return nil\<close>.\<close>

definition accountLoad :: "lib \<Rightarrow> env \<Rightarrow> AccountController \<Rightarrow> string \<Rightarrow> (ConfigMap \<times> CertIssuer \<times> AcmeCertIssuer) option io" where
  "accountLoad L E ac key =
     (case l_SplitMetaNamespaceKey L key of
        None \<Rightarrow> throw (LibErr ''cache.SplitMetaNamespaceKey'')
      | Some (namespace, _) \<Rightarrow>
          bind_io (wrap_err ''fetching object from store failed'' (configMapByKey E (ac_kubeInformers ac) namespace key)) (\<lambda>obj.
            case obj of
              None \<Rightarrow> ret None
            | Some cm \<Rightarrow>
                if om_DeletionTimestamp (cfg_Meta cm) \<noteq> None then ret None
                else case mget (cfg_Data cm) CertIssuerDataKey of
                  None \<Rightarrow> throw (Errorf ''configmap is matching CertIssuer selectors but missing key'')
                | Some certIssuerData \<Rightarrow>
                    (case l_yamlUnmarshalCertIssuer L certIssuerData of
                       None \<Rightarrow> throw (Wrapf ''configmap contains invalid object'' (LibErr ''yaml.Unmarshal''))
                     | Some certIssuer \<Rightarrow>
                         if ci_Type certIssuer \<noteq> CertIssuerTypeAcme then ret None
                         else case ci_AcmeCertIssuer certIssuer of
                           None \<Rightarrow> throw (Errorf ''ACME issuer is missing AcmeCertIssuer spec'')
                         | Some acmeIssuer \<Rightarrow>
                             ret (Some (cm,
                               (if ci_SecretName certIssuer = [] then certIssuer\<lparr>ci_SecretName := om_Name (cfg_Meta cm)\<rparr> else certIssuer),
                               acmeIssuer)))))"

definition accountSecret :: "string \<Rightarrow> string \<Rightarrow> Secret" where
  "accountSecret secretName keyPem =
     \<lparr>sec_Meta =
        \<lparr>om_Name = secretName, om_Namespace = [], om_UID = [], om_ResourceVersion = [], om_Generation = 0,
         om_CreationTimestamp = zero_time, om_DeletionTimestamp = None, om_Annotations = None,
         om_Labels = None, om_OwnerReferences = []\<rparr>,
      sec_Type = ''Opaque'', sec_Data = Some [TLSPrivateKeyKey \<mapsto> keyPem], sec_StringData = None\<rparr>"

text \<open>The block that registers a new account. Its \<^verbatim>\<open>err\<close>, \<^verbatim>\<open>secret\<close> and \<^verbatim>\<open>privateKey\<close> are declared
  inside; only \<^verbatim>\<open>account\<close> and the key of the client outlive it.\<close>

definition accountRegister :: "lib \<Rightarrow> env \<Rightarrow> ConfigMap \<Rightarrow> CertIssuer \<Rightarrow> AcmeCertIssuer \<Rightarrow> Account io" where
  "accountRegister L E cm certIssuer acmeIssuer =
     bind_io (rsa_GenerateKey E 4096) (\<lambda>privateKey.
     bind_io (acme_Register E \<lparr>cl_DirectoryURL = ac_DirectoryURL acmeIssuer, cl_Key = privateKey, cl_Profile = None\<rparr>
         (aa_Contacts (ac_Account acmeIssuer))) (\<lambda>account.
     bind_io (createSecret E (om_Namespace (cfg_Meta cm))
         (accountSecret (ci_SecretName certIssuer)
           (l_pemEncode L ''RSA PRIVATE KEY'' (l_MarshalPKCS1PrivateKey L privateKey)))) (\<lambda>secret.
     seq_io (log_ev (RecordEvent (om_Namespace (cfg_Meta cm)) (om_Name (cfg_Meta cm)) ''Normal'' ''AcmeAccountProvisioned''))
       (ret account))))"

definition accountRefresh ::
  "lib \<Rightarrow> env \<Rightarrow> ConfigMap \<Rightarrow> AcmeClient \<Rightarrow> AcmeCertIssuer \<Rightarrow> Account option \<Rightarrow> Account option io" where
  "accountRefresh L E cm client acmeIssuer account =
     (if DeepEqual_bytes (ByteArray64 (hashAccount L (ac_Account acmeIssuer)))
           (ByteSlice (string_bytes (as_Hash (aa_Status (ac_Account acmeIssuer)))))
      then (case account of
              None \<Rightarrow> throw (Panic ''nil account'')
            | Some a \<Rightarrow>
                bind_io (acme_UpdateReg E client (a\<lparr>acct_Contact := aa_Contacts (ac_Account acmeIssuer)\<rparr>)) (\<lambda>updated.
                seq_io (log_ev (RecordEvent (om_Namespace (cfg_Meta cm)) (om_Name (cfg_Meta cm)) ''Normal'' ''AcmeAccountUpdated''))
                  (ret (Some updated))))
      else if as_URI (aa_Status (ac_Account acmeIssuer)) = []
      then bind_io (acme_GetReg E client) (\<lambda>a. ret (Some a))
      else ret account)"

definition recordAccount :: "lib \<Rightarrow> Account option \<Rightarrow> AcmeCertIssuer \<Rightarrow> AcmeCertIssuer" where
  "recordAccount L account acmeIssuer =
     (case account of
        None \<Rightarrow> acmeIssuer
      | Some a \<Rightarrow>
          (let acct = (ac_Account acmeIssuer)\<lparr>aa_Contacts := acct_Contact a\<rparr>
           in acmeIssuer\<lparr>ac_Account := acct
                \<lparr>aa_Status := \<lparr>as_Hash = Sprint_bytes (hashAccount L acct), as_URI = acct_URI a,
                   as_AccountStatus = acct_Status a, as_OrdersURL = acct_OrdersURL a\<rparr>\<rparr>\<rparr>))"

definition accountStore :: "lib \<Rightarrow> env \<Rightarrow> ConfigMap \<Rightarrow> CertIssuer \<Rightarrow> unit io" where
  "accountStore L E cmReadOnly certIssuer =
     (case l_yamlMarshalCertIssuer L certIssuer of
        None \<Rightarrow> throw (Wrapf ''configmap contains invalid object'' (LibErr ''yaml.Marshal''))
      | Some certIssuerBytes \<Rightarrow>
          (let cm = cmReadOnly\<lparr>cfg_Data := mput (cfg_Data cmReadOnly) CertIssuerDataKey certIssuerBytes\<rparr>
           in if cm = cmReadOnly then ret ()
              else seq_io (updateConfigMapObject E (om_Namespace (cfg_Meta cmReadOnly)) cm) (ret ())))"

text \<open>
  After the registration block \<^verbatim>\<open>err\<close> is still the not-found error of the lister, so
  \<^verbatim>\<open>if err != nil { return err }\<close> returns it.
\<close>

definition account_sync :: "lib \<Rightarrow> env \<Rightarrow> AccountController \<Rightarrow> string \<Rightarrow> unit io" where
  "account_sync L E ac key =
     bind_io (accountLoad L E ac key) (\<lambda>loaded.
       case loaded of
         None \<Rightarrow> ret ()
       | Some (cm, certIssuer, acmeIssuer) \<Rightarrow>
           bind_io (attempt (secretLister E (ac_kubeInformers ac) (om_Namespace (cfg_Meta cm)) (ci_SecretName certIssuer))) (\<lambda>r.
             case r of
               Inl err \<Rightarrow>
                 if err \<noteq> K8sErr NotFound then throw err
                 else bind_io (accountRegister L E cm certIssuer acmeIssuer) (\<lambda>account. throw err)
             | Inr secret \<Rightarrow>
                 bind_io (of_sum (\<lambda>e. e) (PrivateKeyFromSecret L secret)) (\<lambda>privateKey.
                 bind_io (accountRefresh L E cm
                     \<lparr>cl_DirectoryURL = ac_DirectoryURL acmeIssuer, cl_Key = privateKey, cl_Profile = None\<rparr> acmeIssuer None)
                   (\<lambda>account.
                     accountStore L E cm (certIssuer\<lparr>ci_AcmeCertIssuer := Some (recordAccount L account acmeIssuer)\<rparr>)))))"

section \<open>Lemmas\<close>

lemma DeepEqual_array_slice [simp]: "\<not> DeepEqual_bytes (ByteArray64 x) (ByteSlice y)"
  by (simp add: DeepEqual_bytes_def)

lemma accountRefresh_eq:
  "accountRefresh L E cm client acmeIssuer account =
     (if as_URI (aa_Status (ac_Account acmeIssuer)) = []
      then bind_io (acme_GetReg E client) (\<lambda>a. ret (Some a)) else ret account)"
  by (simp add: accountRefresh_def)

text \<open>
  What a pass over one issuer may do to the outside, when \<open>stored\<close> is what the lister answered about its Secret: register with its
  directory and its contacts and create its Secret if there is none, or look up the account of the key in its Secret and update the
  ConfigMap if there is one.
\<close>

fun account_event :: "lib \<Rightarrow> ConfigMap \<Rightarrow> CertIssuer \<Rightarrow> AcmeCertIssuer \<Rightarrow> gerror + Secret \<Rightarrow> ev \<Rightarrow> bool" where
  "account_event L cm ci ai stored (SecretCreate ns s r) \<longleftrightarrow> stored = Inl (K8sErr NotFound) \<and>
     ns = om_Namespace (cfg_Meta cm) \<and> om_Name (sec_Meta s) = ci_SecretName ci \<and> sec_Type s = ''Opaque'' \<and>
     (\<exists>k. sec_Data s = Some [TLSPrivateKeyKey \<mapsto> l_pemEncode L ''RSA PRIVATE KEY'' (l_MarshalPKCS1PrivateKey L k)])"
| "account_event L cm ci ai stored (ConfigMapUpdate ns x r) \<longleftrightarrow> (\<exists>secret. stored = Inr secret) \<and>
     ns = om_Namespace (cfg_Meta cm) \<and> cfg_Meta x = cfg_Meta cm \<and>
     (\<forall>k. k \<noteq> CertIssuerDataKey \<longrightarrow> mget (cfg_Data x) k = mget (cfg_Data cm) k)"
| "account_event L cm ci ai stored (RecordEvent ns n t reason) \<longleftrightarrow> ns = om_Namespace (cfg_Meta cm) \<and> n = om_Name (cfg_Meta cm)"
| "account_event L cm ci ai stored (CacheRead k ns n) \<longleftrightarrow> True"
| "account_event L cm ci ai stored (CacheList k ns) \<longleftrightarrow> True"
| "account_event L cm ci ai stored (GenerateKey n r) \<longleftrightarrow> stored = Inl (K8sErr NotFound) \<and> n = 4096"
| "account_event L cm ci ai stored (Register c cs r) \<longleftrightarrow> stored = Inl (K8sErr NotFound) \<and>
     cl_DirectoryURL c = ac_DirectoryURL ai \<and> cl_Profile c = None \<and> cs = aa_Contacts (ac_Account ai)"
| "account_event L cm ci ai stored (GetReg c r) \<longleftrightarrow>
     cl_DirectoryURL c = ac_DirectoryURL ai \<and> cl_Profile c = None \<and>
     (\<exists>secret. stored = Inr secret \<and> PrivateKeyFromSecret L secret = Inr (cl_Key c))"
| "account_event L cm ci ai stored _ \<longleftrightarrow> False"

text \<open>The key of a registration is the one generated just before, and the Secret created just after it holds that key.\<close>

fun key_event :: "ev \<Rightarrow> bool" where
  "key_event (SecretCreate ns s r) = True"
| "key_event (Register c cs r) = True"
| "key_event _ = False"

fun key_kept :: "lib \<Rightarrow> ev \<Rightarrow> ev \<Rightarrow> bool" where
  "key_kept L (SecretCreate ns s r) (Register c cs (Inr a)) \<longleftrightarrow>
     sec_Data s = Some [TLSPrivateKeyKey \<mapsto> l_pemEncode L ''RSA PRIVATE KEY'' (l_MarshalPKCS1PrivateKey L (cl_Key c))]"
| "key_kept L (Register c cs r) (GenerateKey n k) \<longleftrightarrow> k = Some (cl_Key c)"
| "key_kept L _ _ \<longleftrightarrow> False"

lemma read_account: "is_read e \<Longrightarrow> account_event L cm ci ai stored e \<and> \<not> key_event e"
  by (cases e) simp_all

lemma emits_accountRegister: "emits (account_event L cm ci ai (Inl (K8sErr NotFound))) (accountRegister L E cm ci ai)"
  unfolding accountRegister_def by (auto intro!: io_intro simp: accountSecret_def)

lemma emits_accountRefresh:
  assumes "PrivateKeyFromSecret L secret = Inr k"
  shows "emits (account_event L cm ci ai (Inr secret))
    (accountRefresh L E cm \<lparr>cl_DirectoryURL = ac_DirectoryURL ai, cl_Key = k, cl_Profile = None\<rparr> ai a)"
  using assms unfolding accountRefresh_eq by (auto intro!: io_intro)

lemma emits_accountStore: "emits (account_event L cm ci ai (Inr secret)) (accountStore L E cm ci')"
  unfolding accountStore_def Let_def by (auto intro!: io_intro simp: mget_mput split: option.splits)

lemma accountRegister_keeps_key: "produces (preceded key_event (key_kept L)) (accountRegister L E cm ci ai)"
  unfolding produces_def
proof
  fix h
  show "\<exists>t. snd (accountRegister L E cm ci ai h) = h @ t \<and> preceded key_event (key_kept L) t"
    by (auto simp: accountRegister_def rsa_GenerateKey_def acme_Register_def createSecret_def accountSecret_def io_defs
        preceded_def less_Suc_eq split: option.splits sum.splits)
qed

lemma emits_accountLoad: "emits is_read (accountLoad L E ac key)"
  unfolding accountLoad_def by (auto intro!: io_intro split: option.splits)

lemma account_sync_cases:
  assumes "account_sync L E ac key h = (r, h')"
  obtains (nothing) t where "h' = h @ t" "list_all is_read t"
    | (registered) cm ci ai h1 t where "accountLoad L E ac key h = (Inr (Some (cm, ci, ai)), h1)"
        "fst (secretLister E (ac_kubeInformers ac) (om_Namespace (cfg_Meta cm)) (ci_SecretName ci) h1) = Inl (K8sErr NotFound)"
        "list_all is_read t"
        "bind_io (accountRegister L E cm ci ai) (\<lambda>account. throw (K8sErr NotFound)) (h @ t) = (r, h')"
    | (known) cm ci ai h1 t secret where "accountLoad L E ac key h = (Inr (Some (cm, ci, ai)), h1)"
        "fst (secretLister E (ac_kubeInformers ac) (om_Namespace (cfg_Meta cm)) (ci_SecretName ci) h1) = Inr secret"
        "list_all is_read t"
        "bind_io (of_sum (\<lambda>e. e) (PrivateKeyFromSecret L secret)) (\<lambda>privateKey.
                 bind_io (accountRefresh L E cm
                     \<lparr>cl_DirectoryURL = ac_DirectoryURL ai, cl_Key = privateKey, cl_Profile = None\<rparr> ai None)
                   (\<lambda>account. accountStore L E cm (ci\<lparr>ci_AcmeCertIssuer := Some (recordAccount L account ai)\<rparr>)))
           (h @ t) = (r, h')"
proof -
  note run = assms [unfolded account_sync_def]
  from run emits_accountLoad show thesis
  proof (cases rule: bind_io_emitsE)
    case load: (went_on loaded t)
    show thesis
    proof (cases loaded)
      case None
      with load(3) have "h' = h @ t" by (simp add: ret_def)
      then show thesis using load(2) by (rule nothing)
    next
      case (Some p)
      obtain cm ci ai where p: "p = (cm, ci, ai)" by (cases p)
      have reads: "emits is_read (attempt (secretLister E (ac_kubeInformers ac) ns n))" for ns n
        by (intro emits_attempt emits_cache)
      from load(3) [unfolded Some p option.case prod.case] reads show thesis
      proof (cases rule: bind_io_emitsE)
        case s: (went_on r0 u)
        have lister: "fst (secretLister E (ac_kubeInformers ac) (om_Namespace (cfg_Meta cm)) (ci_SecretName ci) (h @ t)) = r0"
          using s(1) by (auto simp: attempt_def split: prod.splits sum.splits if_splits)
        show thesis
        proof (cases r0)
          case (Inl err)
          show thesis
          proof (cases "err = K8sErr NotFound")
            case True
            with registered [of cm ci ai "h @ t" "t @ u"] lister s load Some p Inl show thesis by simp
          next
            case False
            with s(3) Inl have "h' = h @ t @ u" by (simp add: throw_def)
            moreover have "list_all is_read (t @ u)" using s(2) load(2) by simp
            ultimately show thesis by (rule nothing)
          qed
        next
          case (Inr secret)
          with known [of cm ci ai "h @ t" secret "t @ u"] lister s load Some p show thesis by simp
        qed
      next
        case (failed e u)
        then have "h' = h @ t @ u" "list_all is_read (t @ u)" using load(2) by simp_all
        then show thesis by (rule nothing)
      qed
    qed
  next
    case (failed e t)
    from failed(3,4) show thesis by (rule nothing)
  qed
qed

text \<open>The cluster of the witnesses: an issuer \<open>issuer\<close> that names the Secret \<open>account\<close>; the ACME server
  registers and knows one account.\<close>

definition fx_issuer :: ConfigMap where
  "fx_issuer = \<lparr>cfg_Meta = fx_meta ''issuer'', cfg_Data = Some [CertIssuerDataKey \<mapsto> ''account'']\<rparr>"

definition fx_account :: Account where
  "fx_account = \<lparr>acct_URI = ''uri'', acct_Contact = [''mailto:a''], acct_Status = ''valid'', acct_OrdersURL = ''orders''\<rparr>"

definition fx_ac :: AccountController where
  "fx_ac = \<lparr>ac_kubeInformers = rc_kubeInformers fx_rc, ac_acmeTimeout = 15 * 10 ^ 9, ac_cachesToSync = {}, ac_handlers = {}\<rparr>"

definition fx_account_env :: "Secret option \<Rightarrow> env" where
  "fx_account_env cached = fx_env
     \<lparr>e_configMapByKey := (\<lambda>h f k. Inr (Some fx_issuer)),
      e_secretGet := (\<lambda>h f ns n. case cached of None \<Rightarrow> Inl NotFound | Some s \<Rightarrow> Inr s),
      e_Register := (\<lambda>h c cs. Inr fx_account),
      e_GetReg := (\<lambda>h c. Inr fx_account)\<rparr>"

definition fx_account_secret :: Secret where
  "fx_account_secret = accountSecret ''account'' (fx_pemEncode ''RSA PRIVATE KEY'' ''key'')"

definition fx_ai :: AcmeCertIssuer where
  "fx_ai = \<lparr>ac_DirectoryURL = ''https://acme/directory'',
     ac_Account = \<lparr>aa_Contacts = [], aa_Status = \<lparr>as_Hash = [], as_URI = [], as_AccountStatus = [], as_OrdersURL = []\<rparr>\<rparr>\<rparr>"

definition fx_ci :: CertIssuer where
  "fx_ci = \<lparr>ci_SecretName = ''account'', ci_Type = ''ACME'', ci_AcmeCertIssuer = Some fx_ai\<rparr>"

lemma fx_ac_lookup [simp]:
  "kube_InformersForOrGlobal (ac_kubeInformers fx_ac) ''ns'' = Some \<lparr>fac_Namespace = [], fac_Resync = 0\<rparr>"
  by (simp add: fx_ac_def fx_rc_def kube_InformersForOrGlobal_def NamespaceAll_def)

lemma fx_issuer_sel [simp]:
  "om_Namespace (cfg_Meta fx_issuer) = ''ns''" "om_Name (cfg_Meta fx_issuer) = ''issuer''"
  "om_DeletionTimestamp (cfg_Meta fx_issuer) = None" "mget (cfg_Data fx_issuer) CertIssuerDataKey = Some ''account''"
  by (simp_all add: fx_issuer_def fx_meta_def)

lemma fx_account_env_sel [simp]:
  "e_configMapByKey (fx_account_env c) = (\<lambda>h f k. Inr (Some fx_issuer))"
  "e_secretGet (fx_account_env c) = (\<lambda>h f ns n. case c of None \<Rightarrow> Inl NotFound | Some s \<Rightarrow> Inr s)"
  "e_Register (fx_account_env c) = (\<lambda>h c cs. Inr fx_account)"
  "e_GetReg (fx_account_env c) = (\<lambda>h c. Inr fx_account)"
  "e_generateKey (fx_account_env c) = (\<lambda>h n. Some ''key'')"
  "e_apiSecretCreate (fx_account_env c) = (\<lambda>h ns s. Inr s)"
  by (simp_all add: fx_account_env_def)

lemma fx_accountLoad:
  "accountLoad fx_lib (fx_account_env c) fx_ac ''ns/issuer'' h =
     (Inr (Some (fx_issuer, fx_ci, fx_ai)), h @ [CacheRead ''configmaps'' ''ns'' ''ns/issuer''])"
  by (simp add: accountLoad_def Cut_def configMapByKey_def read_cache_def io_defs
      CertIssuerTypeAcme_def fx_ci_def fx_ai_def)

lemma fx_secretLister:
  "secretLister (fx_account_env c) (ac_kubeInformers fx_ac) ''ns'' ''account'' h =
     ((case c of None \<Rightarrow> Inl (K8sErr NotFound) | Some s \<Rightarrow> Inr s), h @ [CacheRead ''secrets'' ''ns'' ''account''])"
  by (simp add: secretLister_def read_cache_def io_defs split: option.splits)

lemma fx_account_register:
  "account_sync fx_lib (fx_account_env None) fx_ac ''ns/issuer'' [] =
     (Inl (K8sErr NotFound), [] @
       [CacheRead ''configmaps'' ''ns'' ''ns/issuer'', CacheRead ''secrets'' ''ns'' ''account'', GenerateKey 4096 (Some ''key''),
        Register \<lparr>cl_DirectoryURL = ''https://acme/directory'', cl_Key = ''key'', cl_Profile = None\<rparr> [] (Inr fx_account),
        SecretCreate ''ns'' fx_account_secret (Inr fx_account_secret),
        RecordEvent ''ns'' ''issuer'' ''Normal'' ''AcmeAccountProvisioned''])"
  by (simp add: account_sync_def fx_accountLoad fx_secretLister accountRegister_def rsa_GenerateKey_def
      acme_Register_def createSecret_def io_defs fx_ci_def fx_ai_def fx_account_secret_def)

section \<open>Properties\<close>

text \<open>
  C36: a pass over an issuer stays within it. If the issuer has no Secret, the pass may register an account at the directory of
  the issuer with its contacts, and then create the opaque Secret that the issuer names, in the namespace of the
  ConfigMap, with the key of that registration, which was generated for it. If it has one, the pass may look up the account of the key in that Secret, at the
  same directory, and update the ConfigMap, changing only the issuer document in it. It never changes an account, an order or any other object.
\<close>

theorem account_sync_scope:
  assumes "account_sync L E ac key h = (r, h')"
  shows "\<exists>t. h' = h @ t \<and> preceded key_event (key_kept L) t \<and> (list_all is_read t \<or>
    (\<exists>cm ci ai h1. accountLoad L E ac key h = (Inr (Some (cm, ci, ai)), h1) \<and>
      list_all (account_event L cm ci ai
        (fst (secretLister E (ac_kubeInformers ac) (om_Namespace (cfg_Meta cm)) (ci_SecretName ci) h1))) t))"
proof -
  let ?K = "preceded key_event (key_kept L)"
  have quiet: "?K t" if "list_all (\<lambda>e. \<not> key_event e) t" for t
    using that by (rule preceded_none)
  have joined: "?K (t @ u)" if "list_all is_read t" "?K u" for t u
    using that preceded_append quiet read_account unfolding closed_append_def by (metis (mono_tags, lifting) list.pred_mono_strong)
  have reads: "list_all is_read t \<Longrightarrow> list_all (account_event L cm ci ai stored) t" for t cm ci ai stored
    using read_account by (auto simp: list_all_iff)
  from assms show ?thesis
  proof (cases rule: account_sync_cases)
    case (nothing t)
    then show ?thesis using joined [of t "[]"] quiet [of "[]"] by auto
  next
    case (registered cm ci ai h1 t)
    let ?m = "bind_io (accountRegister L E cm ci ai) (\<lambda>a. throw (K8sErr NotFound) :: unit io)"
    have "emits (account_event L cm ci ai (Inl (K8sErr NotFound))) ?m"
      by (intro emits_bind emits_accountRegister emits_throw)
    moreover have "produces ?K ?m"
      by (rule produces_bind [OF preceded_append accountRegister_keeps_key]) (simp add: produces_def throw_def preceded_def)
    ultimately obtain u where u: "h' = (h @ t) @ u" "list_all (account_event L cm ci ai (Inl (K8sErr NotFound))) u" "?K u"
      using registered(4) emitsD producesD by (metis same_append_eq)
    with registered reads joined show ?thesis
      by (intro exI [of _ "t @ u"]) auto
  next
    case (known cm ci ai h1 t secret)
    let ?m = "bind_io (of_sum (\<lambda>e. e) (PrivateKeyFromSecret L secret)) (\<lambda>privateKey.
                 bind_io (accountRefresh L E cm
                     \<lparr>cl_DirectoryURL = ac_DirectoryURL ai, cl_Key = privateKey, cl_Profile = None\<rparr> ai None)
                   (\<lambda>account. accountStore L E cm (ci\<lparr>ci_AcmeCertIssuer := Some (recordAccount L account ai)\<rparr>)))"
    have "yields (\<lambda>k. PrivateKeyFromSecret L secret = Inr k) (of_sum (\<lambda>e. e) (PrivateKeyFromSecret L secret))"
      by (auto simp: yields_def of_sum_def ret_def throw_def split: sum.splits)
    then have "emits (account_event L cm ci ai (Inr secret)) ?m"
      by (rule emits_bind_yields [OF emits_of_sum]) (intro emits_bind emits_accountRefresh emits_accountStore)
    moreover have "emits (\<lambda>e. \<not> key_event e) ?m"
      unfolding accountRefresh_eq accountStore_def Let_def by (auto intro!: io_intro)
    ultimately obtain u v where u: "h' = (h @ t) @ u" "list_all (account_event L cm ci ai (Inr secret)) u"
      and "h' = (h @ t) @ v" "list_all (\<lambda>e. \<not> key_event e) v"
      using known(4) emitsD by meson
    then have "list_all (\<lambda>e. \<not> key_event e) u" by simp
    with known(1-3) u reads joined quiet show ?thesis
      by (intro exI [of _ "t @ u"]) auto
  qed
qed

theorem account_sync_scope_witness:
  "\<exists>t. snd (account_sync fx_lib (fx_account_env None) fx_ac ''ns/issuer'' []) = t \<and>
    SecretCreate ''ns'' fx_account_secret (Inr fx_account_secret) \<in> set t \<and> preceded key_event (key_kept fx_lib) t \<and>
    list_all (account_event fx_lib fx_issuer fx_ci fx_ai (Inl (K8sErr NotFound))) t"
proof -
  have "fst (secretLister (fx_account_env None) (ac_kubeInformers fx_ac) ''ns'' (ci_SecretName fx_ci) h) = Inl (K8sErr NotFound)" for h
    by (simp add: fx_ci_def fx_secretLister)
  with account_sync_scope [OF fx_account_register] show ?thesis
    by (auto simp: fx_account_register fx_accountLoad)
qed

text \<open>
  A pass that registers a new account always ends with the not-found error of the Secret it has just created (the
  error variable of the registration is another one), so the key is retried as a failure and the account is not recorded
  in that pass: it never updates the ConfigMap.
\<close>

theorem account_registration_reports_not_found:
  assumes "account_sync L E ac key h = (r, h @ t)" and "SecretCreate ns s (Inr s') \<in> set t"
  shows "r = Inl (K8sErr NotFound) \<and> (\<forall>n x a. ConfigMapUpdate n x a \<notin> set t)"
  using assms(1)
proof (cases rule: account_sync_cases)
  case (nothing u)
  with assms(2) show ?thesis by (auto simp: list_all_iff)
next
  case (known cm ci ai h1 u secret)
  let ?P = "\<lambda>e. \<forall>n x a. e \<noteq> SecretCreate n x a"
  have "emits ?P (bind_io (of_sum (\<lambda>e. e) (PrivateKeyFromSecret L secret)) (\<lambda>privateKey.
                 bind_io (accountRefresh L E cm
                     \<lparr>cl_DirectoryURL = ac_DirectoryURL ai, cl_Key = privateKey, cl_Profile = None\<rparr> ai None)
                   (\<lambda>account. accountStore L E cm (ci\<lparr>ci_AcmeCertIssuer := Some (recordAccount L account ai)\<rparr>))))"
    unfolding accountRefresh_eq accountStore_def Let_def by (auto intro!: io_intro)
  with known(4) obtain v where "h @ t = (h @ u) @ v" "list_all ?P v"
    using emitsD by blast
  with known(3) assms(2) show ?thesis by (auto simp: list_all_iff)
next
  case (registered cm ci ai h1 u)
  let ?P = "\<lambda>e. \<forall>n x a. e \<noteq> ConfigMapUpdate n x a"
  have "emits ?P (bind_io (accountRegister L E cm ci ai) (\<lambda>a. throw (K8sErr NotFound) :: unit io))"
    unfolding accountRegister_def by (auto intro!: io_intro)
  then obtain v where v: "h @ t = (h @ u) @ v" "list_all ?P v"
    using registered(4) emitsD by blast
  have "r = Inl (K8sErr NotFound)"
  proof (cases "fst (accountRegister L E cm ci ai (h @ u))")
    case (Inr a)
    with registered(4) show ?thesis
      by (cases "accountRegister L E cm ci ai (h @ u)") (auto simp: bind_io_def throw_def)
  next
    case (Inl e)
    then obtain h2 where "accountRegister L E cm ci ai (h @ u) = (Inl e, h2)"
      by (metis prod.collapse)
    moreover from this have "h2 = h @ t"
      using registered(4) by (simp add: bind_io_def)
    ultimately have "SecretCreate ns s (Inr s') \<notin> set v"
      using v(1)
      by (auto simp: accountRegister_def rsa_GenerateKey_def acme_Register_def createSecret_def io_defs
          split: option.splits sum.splits)
    with v registered(3) assms(2) show ?thesis by (auto simp: list_all_iff)
  qed
  with v registered(3) show ?thesis by (auto simp: list_all_iff)
qed

theorem account_registration_reports_not_found_witness:
  "\<exists>r t. account_sync fx_lib (fx_account_env None) fx_ac ''ns/issuer'' [] = (r, t) \<and>
    SecretCreate ''ns'' fx_account_secret (Inr fx_account_secret) \<in> set t \<and> r = Inl (K8sErr NotFound) \<and>
    (\<forall>n x a. ConfigMapUpdate n x a \<notin> set t)"
  using account_registration_reports_not_found [OF fx_account_register, of "''ns''" fx_account_secret fx_account_secret]
    fx_account_register by simp

text \<open>
  A change of the contacts of an issuer never reaches the ACME server: no pass ever updates a registration, because
  the hash of the contacts, an array, is compared with a slice and the two are never equal.
\<close>

theorem account_never_updates_registration:
  "\<exists>t. snd (account_sync L E ac key h) = h @ t \<and> (\<forall>c a r. UpdateReg c a r \<notin> set t)"
proof -
  have "emits (\<lambda>e. \<forall>c a r. e \<noteq> UpdateReg c a r) (account_sync L E ac key)"
    unfolding account_sync_def accountLoad_def accountRegister_def accountRefresh_eq accountStore_def Let_def
    by (auto intro!: io_intro elim!: is_read.elims split: option.splits)
  then show ?thesis
    unfolding emits_def list_all_iff by blast
qed

text \<open>
  C37: the pass after a registration completes it: once the Secret that was created is in the cache, the pass reads back the
  very key the account was registered with, asks the ACME server for the account of that key and stores its URI, its
  contacts and its status in the issuer document; the pass ends with the outcome of that. It relies on PEM and
  PKCS#1 encodings decoding to what was encoded.
\<close>

theorem account_pass_after_registration:
  assumes "pem_roundtrip L" and "pkcs1_roundtrip L"
    and "accountLoad L E ac key h = (Inr (Some (cm, ci, ai)), h1)"
    and "secretLister E (ac_kubeInformers ac) (om_Namespace (cfg_Meta cm)) (ci_SecretName ci) h1 =
      (Inr (accountSecret name (l_pemEncode L ty (l_MarshalPKCS1PrivateKey L k))), h2)"
    and "as_URI (aa_Status (ac_Account ai)) = []"
    and "e_GetReg E h2 \<lparr>cl_DirectoryURL = ac_DirectoryURL ai, cl_Key = k, cl_Profile = None\<rparr> = Inr a"
  shows "\<exists>ai'. account_sync L E ac key h =
      accountStore L E cm (ci\<lparr>ci_AcmeCertIssuer := Some ai'\<rparr>)
        (h2 @ [GetReg \<lparr>cl_DirectoryURL = ac_DirectoryURL ai, cl_Key = k, cl_Profile = None\<rparr> (Inr a)]) \<and>
    as_URI (aa_Status (ac_Account ai')) = acct_URI a \<and> aa_Contacts (ac_Account ai') = acct_Contact a \<and>
    as_AccountStatus (aa_Status (ac_Account ai')) = acct_Status a \<and> ac_DirectoryURL ai' = ac_DirectoryURL ai"
proof -
  have "PrivateKeyFromSecret L (accountSecret name (l_pemEncode L ty (l_MarshalPKCS1PrivateKey L k))) = Inr k"
    by (rule PrivateKeyFromSecret_roundtrip [OF assms(1,2)]) (simp add: accountSecret_def)
  then have "account_sync L E ac key h =
      accountStore L E cm (ci\<lparr>ci_AcmeCertIssuer := Some (recordAccount L (Some a) ai)\<rparr>)
        (h2 @ [GetReg \<lparr>cl_DirectoryURL = ac_DirectoryURL ai, cl_Key = k, cl_Profile = None\<rparr> (Inr a)])"
    using assms(3-6)
    by (simp add: account_sync_def accountRefresh_eq bind_io_def attempt_def of_sum_def ret_def acme_GetReg_def call_def)
  then show ?thesis
    by (intro exI [of _ "recordAccount L (Some a) ai"]) (simp add: recordAccount_def Let_def)
qed

theorem account_pass_after_registration_witness:
  "\<exists>ai'. account_sync fx_lib (fx_account_env (Some fx_account_secret)) fx_ac ''ns/issuer'' [] =
      accountStore fx_lib (fx_account_env (Some fx_account_secret)) fx_issuer (fx_ci\<lparr>ci_AcmeCertIssuer := Some ai'\<rparr>)
        [CacheRead ''configmaps'' ''ns'' ''ns/issuer'', CacheRead ''secrets'' ''ns'' ''account'',
         GetReg \<lparr>cl_DirectoryURL = ''https://acme/directory'', cl_Key = ''key'', cl_Profile = None\<rparr> (Inr fx_account)] \<and>
    as_URI (aa_Status (ac_Account ai')) = ''uri''"
proof -
  have key: "l_pemEncode fx_lib ''RSA PRIVATE KEY'' (l_MarshalPKCS1PrivateKey fx_lib ''key'') = fx_pemEncode ''RSA PRIVATE KEY'' ''key''"
    by simp
  have "secretLister (fx_account_env (Some fx_account_secret)) (ac_kubeInformers fx_ac) (om_Namespace (cfg_Meta fx_issuer))
      (ci_SecretName fx_ci) ([] @ [CacheRead ''configmaps'' ''ns'' ''ns/issuer'']) =
    (Inr (accountSecret ''account'' (l_pemEncode fx_lib ''RSA PRIVATE KEY'' (l_MarshalPKCS1PrivateKey fx_lib ''key''))),
      [CacheRead ''configmaps'' ''ns'' ''ns/issuer'', CacheRead ''secrets'' ''ns'' ''account''])"
    by (simp add: fx_secretLister fx_ci_def fx_account_secret_def key del: fx_lib_sel)
  from account_pass_after_registration [OF fx_pem_roundtrip fx_pkcs1_roundtrip fx_accountLoad this, of fx_account]
  show ?thesis
    by (simp add: fx_ai_def fx_account_def) blast
qed

end
