(* ===== verification/Route_Secret.thy ===== *)
theory Route_Secret
  imports Route_Events
begin

text \<open>
  \<^verbatim>\<open>syncRouteToSecret\<close> of \<^verbatim>\<open>pkg/controller/route/route.go\<close>: the certificate of a Route is copied into the
  Secret the Route asks for.
\<close>

section \<open>Definitions\<close>

definition SecretTypeTLS :: string where
  "SecretTypeTLS = ''kubernetes.io/tls''"

definition colliding_secret :: "Route \<Rightarrow> ev" where
  "colliding_secret route =
     RecordEvent (om_Namespace (rt_Meta route)) (om_Name (rt_Meta route)) ''Warning'' ''CollidingSecret''"

definition newSecret :: "string \<Rightarrow> Secret" where
  "newSecret secretName =
     \<lparr>sec_Meta =
        \<lparr>om_Name = secretName, om_Namespace = [], om_UID = [], om_ResourceVersion = [], om_Generation = 0,
         om_CreationTimestamp = zero_time, om_DeletionTimestamp = None, om_Annotations = None,
         om_Labels = None, om_OwnerReferences = []\<rparr>,
      sec_Type = [], sec_Data = None, sec_StringData = None\<rparr>"

text \<open>The Secret to start from: a copy of the cached one, if its controller is a Route of ours, or a new one.\<close>

definition secretBase :: "lib \<Rightarrow> env \<Rightarrow> RouteController \<Rightarrow> Route \<Rightarrow> string \<Rightarrow> Secret option \<Rightarrow> Secret io" where
  "secretBase L E rc route secretName cached =
     (case cached of
        Some secretReadOnly \<Rightarrow>
          (case l_GetControllerOf L (sec_Meta secretReadOnly) of
             None \<Rightarrow>
               seq_io (log_ev (colliding_secret route)) (throw (Errorf ''secret already exists with no owner''))
           | Some controllerRef \<Rightarrow>
               bind_io (resolveControllerRef E rc (om_Namespace (rt_Meta route)) controllerRef) (\<lambda>owningRoute.
                 case owningRoute of
                   None \<Rightarrow>
                     seq_io (log_ev (colliding_secret route)) (throw (Errorf ''secret already exists and isn't owned by us''))
                 | Some _ \<Rightarrow> ret secretReadOnly))
      | None \<Rightarrow>
          ret (newSecret secretName))"

definition fillSecret :: "lib \<Rightarrow> Route \<Rightarrow> TLSConfig \<Rightarrow> Secret \<Rightarrow> Secret" where
  "fillSecret L route tls secret =
     secret
       \<lparr>sec_Type := SecretTypeTLS,
        sec_Meta := (sec_Meta secret)\<lparr>om_OwnerReferences := [ownerRefTo L (rt_Meta route)]\<rparr>,
        sec_Data := mput (mput (ensure_map (sec_Data secret)) TLSCertKey (tls_Certificate tls)) TLSPrivateKeyKey (tls_Key tls)\<rparr>"

definition storeSecret ::
  "lib \<Rightarrow> env \<Rightarrow> RouteController \<Rightarrow> string \<Rightarrow> string \<Rightarrow> Route \<Rightarrow> TLSConfig \<Rightarrow> string \<Rightarrow> unit io" where
  "storeSecret L E rc namespace key route tls secretName =
     bind_io (secretByKey E (rc_kubeInformers rc) namespace key) (\<lambda>cached.
     bind_io (secretBase L E rc route secretName cached) (\<lambda>base.
       let secret = fillSecret L route tls base;
           ns = om_Namespace (rt_Meta route)
       in case cached of
            None \<Rightarrow> seq_io (wrap_err ''can't create Secret'' (createSecret E ns secret)) (ret ())
          | Some secretReadOnly \<Rightarrow>
              if secret = secretReadOnly then ret ()
              else seq_io (wrap_err ''failed to update Secret with TLS data'' (updateSecretObject E ns secret)) (ret ())))"

definition syncRouteToSecret :: "lib \<Rightarrow> env \<Rightarrow> RouteController \<Rightarrow> string \<Rightarrow> unit io" where
  "syncRouteToSecret L E rc key =
     (case l_SplitMetaNamespaceKey L key of
        None \<Rightarrow> throw (LibErr ''cache.SplitMetaNamespaceKey'')
      | Some (namespace, _) \<Rightarrow>
          bind_io (routeByKey E (rc_routeInformers rc) namespace key) (\<lambda>obj.
            case obj of
              None \<Rightarrow> ret ()
            | Some route \<Rightarrow>
                if om_DeletionTimestamp (rt_Meta route) \<noteq> None then ret ()
                else case spec_TLS (rt_Spec route) of
                  None \<Rightarrow> ret ()
                | Some tls \<Rightarrow>
                    (case GetSyncSecretName route of
                       None \<Rightarrow> ret ()
                     | Some secretName \<Rightarrow> storeSecret L E rc namespace key route tls secretName)))"

section \<open>Lemmas\<close>

lemma fillSecret_data:
  "mget (sec_Data (fillSecret L route tls s)) k =
     (if k = TLSPrivateKeyKey then Some (tls_Key tls) else if k = TLSCertKey then Some (tls_Certificate tls)
      else mget (sec_Data s) k)"
  by (simp add: fillSecret_def mget_mput)

fun is_secret_write :: "ev \<Rightarrow> bool" where
  "is_secret_write (SecretCreate ns s r) = True"
| "is_secret_write (SecretUpdate ns s r) = True"
| "is_secret_write _ = False"

lemma read_no_write: "is_read e \<Longrightarrow> \<not> is_secret_write e"
  by (cases e) simp_all

lemma secretBase_reads: "emits (\<lambda>e. \<not> is_secret_write e) (secretBase L E rc route n c)"
  unfolding secretBase_def resolveControllerRef_def colliding_secret_def
  by (auto intro!: io_intro dest: read_no_write split: option.splits)

text \<open>
  Where a write of a Secret comes from, when \<open>cached\<close> is what was read of it before the history \<open>h\<close>: either there was none and it is
  created, or the one that was read is updated, and then its controller is a Route of the cache with the UID of the reference.
\<close>

definition owned_by_route :: "lib \<Rightarrow> env \<Rightarrow> RouteController \<Rightarrow> string \<Rightarrow> trace \<Rightarrow> Secret \<Rightarrow> bool" where
  "owned_by_route L E rc ns h secret \<longleftrightarrow>
     (\<exists>ref owner h'. l_GetControllerOf L (sec_Meta secret) = Some ref \<and> or_Kind ref = controllerKind_Kind \<and>
        resolveControllerRef E rc ns ref h = (Inr (Some owner), h') \<and> om_UID (rt_Meta owner) = or_UID ref)"

definition secret_write_ok :: "lib \<Rightarrow> env \<Rightarrow> RouteController \<Rightarrow> Route \<Rightarrow> Secret option \<Rightarrow> trace \<Rightarrow> ev \<Rightarrow> bool" where
  "secret_write_ok L E rc route cached h e \<longleftrightarrow>
     (\<exists>tls name secret a.
        spec_TLS (rt_Spec route) = Some tls \<and> GetSyncSecretName route = Some name \<and>
        sec_Type secret = SecretTypeTLS \<and>
        mget (sec_Data secret) TLSCertKey = Some (tls_Certificate tls) \<and>
        mget (sec_Data secret) TLSPrivateKeyKey = Some (tls_Key tls) \<and>
        om_OwnerReferences (sec_Meta secret) = [ownerRefTo L (rt_Meta route)] \<and>
        (case cached of
           None \<Rightarrow> e = SecretCreate (om_Namespace (rt_Meta route)) secret a \<and> om_Name (sec_Meta secret) = name
         | Some old \<Rightarrow> e = SecretUpdate (om_Namespace (rt_Meta route)) secret a \<and> secret \<noteq> old \<and>
             owned_by_route L E rc (om_Namespace (rt_Meta route)) h old \<and>
             om_Name (sec_Meta secret) = om_Name (sec_Meta old) \<and>
             (\<forall>k. k \<noteq> TLSCertKey \<longrightarrow> k \<noteq> TLSPrivateKeyKey \<longrightarrow> mget (sec_Data secret) k = mget (sec_Data old) k)))"

lemma secretBase_cases:
  assumes "secretBase L E rc route name cached h = (Inr base, h')"
  shows "(cached = None \<longrightarrow> om_Name (sec_Meta base) = name) \<and>
    (\<forall>c. cached = Some c \<longrightarrow> base = c \<and> owned_by_route L E rc (om_Namespace (rt_Meta route)) h c)"
proof (cases cached)
  case None
  with assms show ?thesis by (auto simp: secretBase_def newSecret_def ret_def)
next
  case (Some c)
  then obtain ref owner h1 where "l_GetControllerOf L (sec_Meta c) = Some ref"
    "resolveControllerRef E rc (om_Namespace (rt_Meta route)) ref h = (Inr (Some owner), h1)" "base = c"
    using assms
    by (auto simp: secretBase_def seq_io_def bind_io_Inr ret_def throw_def log_ev_def split: option.splits)
  with Some resolveControllerRef_eq show ?thesis
    unfolding owned_by_route_def by fastforce
qed

lemma TLS_keys [simp]: "TLSCertKey \<noteq> TLSPrivateKeyKey"
  by (simp add: TLSCertKey_def TLSPrivateKeyKey_def)

lemma fillSecret_ok:
  "sec_Type (fillSecret L route tls s) = SecretTypeTLS"
  "om_OwnerReferences (sec_Meta (fillSecret L route tls s)) = [ownerRefTo L (rt_Meta route)]"
  "om_Name (sec_Meta (fillSecret L route tls s)) = om_Name (sec_Meta s)"
  by (simp_all add: fillSecret_def)

lemma write_step:
  assumes "spec_TLS (rt_Spec route) = Some tls" and "GetSyncSecretName route = Some name"
    and "secretBase L E rc route name cached h0 = (Inr base, h1)"
  shows "emits (\<lambda>e. \<not> is_secret_write e \<or> secret_write_ok L E rc route cached h0 e)
    (let secret = fillSecret L route tls base; ns = om_Namespace (rt_Meta route)
     in case cached of
          None \<Rightarrow> seq_io (wrap_err m (createSecret E ns secret)) (ret ())
        | Some secretReadOnly \<Rightarrow>
            if secret = secretReadOnly then ret ()
            else seq_io (wrap_err m' (updateSecretObject E ns secret)) (ret ()))"
  using secretBase_cases [OF assms(3)] assms(1,2)
  by (cases cached) (auto simp: Let_def secret_write_ok_def fillSecret_data fillSecret_ok intro!: io_intro)

lemma storeSecret_writes:
  assumes "storeSecret L E rc ns key route tls name h = (r, h')"
    and "spec_TLS (rt_Spec route) = Some tls" and "GetSyncSecretName route = Some name"
  shows "\<exists>t. h' = h @ t \<and> (\<forall>e \<in> set t. is_secret_write e \<longrightarrow>
    (\<exists>cached h2. secretByKey E (rc_kubeInformers rc) ns key h = (Inr cached, h2) \<and> secret_write_ok L E rc route cached h2 e))"
proof -
  have "emits (\<lambda>e. \<not> is_secret_write e) (secretByKey E (rc_kubeInformers rc) ns key)"
    by (simp add: emits_cache read_no_write)
  with assms(1) [unfolded storeSecret_def] show ?thesis
  proof (cases rule: bind_io_emitsE)
    case (failed e t)
    then show ?thesis by (auto simp: list_all_iff)
  next
    case c: (went_on cached t)
    from c(3) secretBase_reads show ?thesis
    proof (cases rule: bind_io_emitsE)
      case (failed e u)
      with c show ?thesis by (auto simp: list_all_iff)
    next
      case b: (went_on base u)
      obtain v where "h' = ((h @ t) @ u) @ v" "list_all (\<lambda>e. \<not> is_secret_write e \<or> secret_write_ok L E rc route cached (h @ t) e) v"
        using emitsD [OF write_step [OF assms(2,3) b(1)] b(3)] by blast
      with b(2) c(1,2) show ?thesis
        by (intro exI [of _ "t @ u @ v"]) (auto simp: list_all_iff)
    qed
  qed
qed

lemma syncRouteToSecret_creates:
  assumes "l_SplitMetaNamespaceKey L key = Some (ns, n)"
    and "route_InformersForOrGlobal (rc_routeInformers rc) ns = Some f"
    and "kube_InformersForOrGlobal (rc_kubeInformers rc) ns = Some g"
    and "e_routeByKey E h (fac_Namespace f) key = Inr (Some route)"
    and "om_DeletionTimestamp (rt_Meta route) = None" and "spec_TLS (rt_Spec route) = Some tls"
    and "GetSyncSecretName route = Some name"
    and "e_secretByKey E (h @ [CacheRead ''routes'' ns key]) (fac_Namespace g) key = Inr None"
  defines "s \<equiv> fillSecret L route tls (newSecret name)"
    and "h2 \<equiv> h @ [CacheRead ''routes'' ns key, CacheRead ''secrets'' ns key]"
  shows "syncRouteToSecret L E rc key h =
      ((case e_apiSecretCreate E h2 (om_Namespace (rt_Meta route)) s of
          Inl e \<Rightarrow> Inl (Wrapf ''can't create Secret'' (K8sErr e)) | Inr _ \<Rightarrow> Inr ()),
       h2 @ [SecretCreate (om_Namespace (rt_Meta route)) s (e_apiSecretCreate E h2 (om_Namespace (rt_Meta route)) s)])"
  using assms
  by (auto simp: syncRouteToSecret_def storeSecret_def secretBase_def routeByKey_def secretByKey_def read_cache_def
      createSecret_def io_defs Let_def split: sum.splits)

section \<open>Properties\<close>

text \<open>The cluster of the witnesses: a Route that asks for the Secret \<open>cert\<close>, which exists.\<close>

definition fx_secret_route :: Route where
  "fx_secret_route = fx_route\<lparr>rt_Meta := (fx_meta ''web'')\<lparr>om_Annotations := Some [AcmeSecretName \<mapsto> ''cert'']\<rparr>\<rparr>"

definition fx_cert_secret :: "string \<Rightarrow> Secret" where
  "fx_cert_secret name = \<lparr>sec_Meta = (fx_meta name)\<lparr>om_OwnerReferences := [ownerRefTo fx_lib (fx_meta ''web'')]\<rparr>,
     sec_Type = SecretTypeTLS, sec_Data = None, sec_StringData = None\<rparr>"

definition fx_secret_env :: env where
  "fx_secret_env = fx_env
     \<lparr>e_routeByKey := (\<lambda>h f k. Inr (Some fx_secret_route)),
      e_routeGet := (\<lambda>h f ns n. Inr fx_secret_route),
      e_secretByKey := (\<lambda>h f k. Inr (if k = ''ns/cert'' then Some (fx_cert_secret ''cert'') else None)),
      e_apiSecretCreate := (\<lambda>h ns s. if om_Name (sec_Meta s) = ''cert'' then Inl AlreadyExists else Inr s)\<rparr>"

lemma fx_secret_facts:
  "l_SplitMetaNamespaceKey fx_lib ''ns/web'' = Some (''ns'', ''web'')"
  "route_InformersForOrGlobal (rc_routeInformers fx_rc) ''ns'' = Some \<lparr>fac_Namespace = [], fac_Resync = DefaultResyncPeriod\<rparr>"
  "kube_InformersForOrGlobal (rc_kubeInformers fx_rc) ''ns'' = Some \<lparr>fac_Namespace = [], fac_Resync = 0\<rparr>"
  "e_routeByKey fx_secret_env h f k = Inr (Some fx_secret_route)"
  "om_DeletionTimestamp (rt_Meta fx_secret_route) = None" "spec_TLS (rt_Spec fx_secret_route) = Some fx_tls"
  "GetSyncSecretName fx_secret_route = Some ''cert''"
  "e_secretByKey fx_secret_env h f ''ns/web'' = Inr None"
  "om_Namespace (rt_Meta fx_secret_route) = ''ns''"
  by (simp_all add: Cut_def fx_rc_def route_InformersForOrGlobal_def kube_InformersForOrGlobal_def NamespaceAll_def
      fx_secret_env_def fx_secret_route_def fx_route_def GetSyncSecretName_def fx_meta_def)

lemma fx_secret_run:
  "syncRouteToSecret fx_lib fx_secret_env fx_rc ''ns/web'' [] =
     (Inl (Wrapf ''can't create Secret'' (K8sErr AlreadyExists)),
      [CacheRead ''routes'' ''ns'' ''ns/web'', CacheRead ''secrets'' ''ns'' ''ns/web'',
       SecretCreate ''ns'' (fillSecret fx_lib fx_secret_route fx_tls (newSecret ''cert'')) (Inl AlreadyExists)])"
proof -
  have "e_apiSecretCreate fx_secret_env h ns (fillSecret fx_lib fx_secret_route fx_tls (newSecret ''cert'')) = Inl AlreadyExists" for h ns
    by (simp add: fx_secret_env_def fillSecret_ok newSecret_def)
  then show ?thesis
    using syncRouteToSecret_creates [OF fx_secret_facts(1-3) fx_secret_facts(4) fx_secret_facts(5-7) fx_secret_facts(8)]
    by (simp add: fx_secret_facts)
qed


text \<open>
  C33: whatever Secret a pass writes is a TLS Secret in the namespace of the Route that holds the certificate and the
  key of the Route and is owned by it. It is a new Secret with the name the Route asks for, when the pass has read that there is none, or an
  update of the very Secret the pass has read, under the same name and with its other entries as they were. The Secret that is updated
  had a Route of the cache as its controller when the pass looked, so a Secret without a
  controller, or with one that is no such Route, is never overwritten.
\<close>

theorem syncRouteToSecret_writes:
  assumes "syncRouteToSecret L E rc key h = (r, h')"
  shows "\<exists>t. h' = h @ t \<and> (\<forall>e \<in> set t. is_secret_write e \<longrightarrow>
    (\<exists>ns name route h1 cached h2. l_SplitMetaNamespaceKey L key = Some (ns, name) \<and>
      routeByKey E (rc_routeInformers rc) ns key h = (Inr (Some route), h1) \<and> om_DeletionTimestamp (rt_Meta route) = None \<and>
      secretByKey E (rc_kubeInformers rc) ns key h1 = (Inr cached, h2) \<and> secret_write_ok L E rc route cached h2 e))"
proof (cases "l_SplitMetaNamespaceKey L key")
  case None
  with assms show ?thesis by (simp add: syncRouteToSecret_def throw_def)
next
  case (Some p)
  obtain ns name where p: "p = (ns, name)" by (cases p)
  let ?N = "\<lambda>e. \<not> is_secret_write e"
  have reads: "emits ?N (routeByKey E i ns key)" for i
    by (simp add: emits_cache read_no_write)
  note run = assms [unfolded syncRouteToSecret_def Some p option.case prod.case]
  from run reads show ?thesis
  proof (cases rule: bind_io_emitsE)
    case (failed e t)
    then show ?thesis by (auto simp: list_all_iff)
  next
    case load: (went_on obj t)
    show ?thesis
    proof (cases "\<exists>route tls name. obj = Some route \<and> om_DeletionTimestamp (rt_Meta route) = None \<and>
        spec_TLS (rt_Spec route) = Some tls \<and> GetSyncSecretName route = Some name")
      case False
      with load(3) have "h' = h @ t"
        by (auto simp: ret_def split: option.splits if_splits)
      with load(2) show ?thesis by (auto simp: list_all_iff)
    next
      case True
      then obtain route tls name where route: "obj = Some route" "om_DeletionTimestamp (rt_Meta route) = None"
        "spec_TLS (rt_Spec route) = Some tls" "GetSyncSecretName route = Some name" by blast
      with load(3) have "storeSecret L E rc ns key route tls name (h @ t) = (r, h')" by simp
      then obtain u where u: "h' = (h @ t) @ u" "\<forall>e \<in> set u. is_secret_write e \<longrightarrow>
          (\<exists>cached h2. secretByKey E (rc_kubeInformers rc) ns key (h @ t) = (Inr cached, h2) \<and> secret_write_ok L E rc route cached h2 e)"
        using storeSecret_writes [OF _ route(3,4)] by blast
      have "routeByKey E (rc_routeInformers rc) ns key h = (Inr (Some route), h @ t)"
        using load(1) route(1) by simp
      with u load(2) route(2) Some p show ?thesis
        by (intro exI [of _ "t @ u"]) (auto simp: list_all_iff)
    qed
  qed
qed

text \<open>For the witness, a Secret named like the Route that the Route owns.\<close>

definition fx_owned_env :: env where
  "fx_owned_env = fx_secret_env\<lparr>e_secretByKey := (\<lambda>h f k. Inr (Some (fx_cert_secret ''web'')))\<rparr>"

lemma fx_owned_facts:
  "e_routeByKey fx_owned_env h f k = Inr (Some fx_secret_route)" "e_secretByKey fx_owned_env h f k = Inr (Some (fx_cert_secret ''web''))"
  "e_routeGet fx_owned_env h f ns n = Inr fx_secret_route"
  "routeByKey fx_owned_env (rc_routeInformers fx_rc) ''ns'' ''ns/web'' [] = (Inr (Some fx_secret_route), [CacheRead ''routes'' ''ns'' ''ns/web''])"
  "secretByKey fx_owned_env (rc_kubeInformers fx_rc) ''ns'' ''ns/web'' h = (Inr (Some (fx_cert_secret ''web'')), h @ [CacheRead ''secrets'' ''ns'' ''ns/web''])"
  by (simp_all add: fx_owned_env_def fx_secret_env_def routeByKey_def secretByKey_def read_cache_def io_defs fx_secret_facts)

lemma fx_owned_run:
  "\<exists>t r. snd (syncRouteToSecret fx_lib fx_owned_env fx_rc ''ns/web'' []) = [] @ t \<and>
     SecretUpdate ''ns'' (fillSecret fx_lib fx_secret_route fx_tls (fx_cert_secret ''web'')) r \<in> set t"
proof -
  let ?s = "fx_cert_secret ''web''"
  let ?ref = "ownerRefTo fx_lib (fx_meta ''web'')"
  have ref: "l_GetControllerOf fx_lib (sec_Meta ?s) = Some ?ref"
    by (simp add: fx_cert_secret_def fx_GetControllerOf_def ownerRefTo_def)
  have "resolveControllerRef fx_owned_env fx_rc ''ns'' ?ref h = (Inr (Some fx_secret_route), h @ [CacheRead ''routes'' ''ns'' ''web''])" for h
    by (simp add: resolveControllerRef_def ownerRefTo_def routeLister_def read_cache_def io_defs fx_secret_facts fx_owned_facts)
      (simp add: fx_secret_route_def fx_meta_def)
  then have base: "secretBase fx_lib fx_owned_env fx_rc fx_secret_route ''cert'' (Some ?s) h = (Inr ?s, h @ [CacheRead ''routes'' ''ns'' ''web''])" for h
    using ref by (simp add: secretBase_def fx_secret_facts bind_io_def ret_def)
  have "fillSecret fx_lib fx_secret_route fx_tls ?s \<noteq> ?s"
  proof
    assume "fillSecret fx_lib fx_secret_route fx_tls ?s = ?s"
    then have "mget (sec_Data ?s) TLSCertKey = Some (tls_Certificate fx_tls)"
      using fillSecret_data [of fx_lib fx_secret_route fx_tls ?s TLSCertKey] by simp
    then show False by (simp add: fx_cert_secret_def mget_def)
  qed
  then show ?thesis
    unfolding syncRouteToSecret_def fx_secret_facts(1)
    by (simp add: bind_io_def fx_owned_facts fx_secret_facts storeSecret_def base Let_def updateSecretObject_def io_defs split: sum.splits)
qed

theorem syncRouteToSecret_writes_witness:
  "\<exists>t r h2. snd (syncRouteToSecret fx_lib fx_owned_env fx_rc ''ns/web'' []) = t \<and>
    SecretUpdate ''ns'' (fillSecret fx_lib fx_secret_route fx_tls (fx_cert_secret ''web'')) r \<in> set t \<and>
    secret_write_ok fx_lib fx_owned_env fx_rc fx_secret_route (Some (fx_cert_secret ''web'')) h2
      (SecretUpdate ''ns'' (fillSecret fx_lib fx_secret_route fx_tls (fx_cert_secret ''web'')) r)"
proof -
  obtain t r where t: "snd (syncRouteToSecret fx_lib fx_owned_env fx_rc ''ns/web'' []) = [] @ t"
    "SecretUpdate ''ns'' (fillSecret fx_lib fx_secret_route fx_tls (fx_cert_secret ''web'')) r \<in> set t"
    using fx_owned_run by blast
  obtain x where "syncRouteToSecret fx_lib fx_owned_env fx_rc ''ns/web'' [] = (x, [] @ t)"
    using t(1) by (metis prod.collapse)
  from syncRouteToSecret_writes [OF this] t(2) obtain h2 where
    "secret_write_ok fx_lib fx_owned_env fx_rc fx_secret_route (Some (fx_cert_secret ''web'')) h2
      (SecretUpdate ''ns'' (fillSecret fx_lib fx_secret_route fx_tls (fx_cert_secret ''web'')) r)"
    unfolding fx_secret_facts(1) by (fastforce simp: fx_owned_facts)
  with t show ?thesis by (intro exI conjI) simp_all
qed

text \<open>
  The Secret is looked up under the key of the Route and not under the name the Route asks for: when there is no
  Secret named like the Route, a pass always tries to create the Secret that is asked for, without having looked
  for it. If it exists already, as it does from the second certificate on when the annotation names it,
  the creation fails and the Secret keeps the old certificate.
\<close>

theorem syncRouteToSecret_misses_named_secret:
  assumes "l_SplitMetaNamespaceKey L key = Some (ns, n)"
    and "route_InformersForOrGlobal (rc_routeInformers rc) ns = Some f"
    and "kube_InformersForOrGlobal (rc_kubeInformers rc) ns = Some g"
    and "e_routeByKey E h (fac_Namespace f) key = Inr (Some route)"
    and "om_DeletionTimestamp (rt_Meta route) = None" and "spec_TLS (rt_Spec route) = Some tls"
    and "GetSyncSecretName route = Some name"
    and "e_secretByKey E (h @ [CacheRead ''routes'' ns key]) (fac_Namespace g) key = Inr None"
  shows "\<exists>secret a. om_Name (sec_Meta secret) = name \<and>
    syncRouteToSecret L E rc key h =
      ((case a of Inl e \<Rightarrow> Inl (Wrapf ''can't create Secret'' (K8sErr e)) | Inr _ \<Rightarrow> Inr ()),
       h @ [CacheRead ''routes'' ns key, CacheRead ''secrets'' ns key, SecretCreate (om_Namespace (rt_Meta route)) secret a])"
  using syncRouteToSecret_creates [OF assms]
  by (intro exI conjI) (auto simp: fillSecret_ok newSecret_def)

theorem syncRouteToSecret_misses_named_secret_witness:
  "\<exists>secret a. om_Name (sec_Meta secret) = ''cert'' \<and>
    syncRouteToSecret fx_lib fx_secret_env fx_rc ''ns/web'' [] =
      (Inl (Wrapf ''can't create Secret'' (K8sErr AlreadyExists)),
       [CacheRead ''routes'' ''ns'' ''ns/web'', CacheRead ''secrets'' ''ns'' ''ns/web'', SecretCreate ''ns'' secret a])"
  using syncRouteToSecret_misses_named_secret
    [OF fx_secret_facts(1-3) fx_secret_facts(4) fx_secret_facts(5-7) fx_secret_facts(8), of "[]"]
  by (auto simp: fx_secret_facts fx_secret_run)

end
