(* ===== verification/Work_Queue.thy ===== *)
theory Work_Queue
  imports Account Route_Secret Sync_Scenario
begin

text \<open>
  The loops that take keys off the three work queues and hand them to the passes
  (\<^verbatim>\<open>processNextRouteItem\<close>, \<^verbatim>\<open>processNextRouteToSecretItem\<close> and \<^verbatim>\<open>processNextItem\<close> with their workers).
  The queues are client-go's: what \<^verbatim>\<open>Get\<close> returns is a function of the history in the \<open>env\<close>, so
  a key may come from any producer and the queue may be shut down at any time. A worker is a partial function: it
  has no value when it never returns.
\<close>

section \<open>Definitions\<close>

definition queue_Get :: "env \<Rightarrow> queue_name \<Rightarrow> string option io" where
  "queue_Get E q = call (\<lambda>h. e_queueGet E h q) (QueueGet q)"

text \<open>\<open>defer_io d m\<close> is \<^verbatim>\<open>defer d\<close> followed by \<open>m\<close>: \<open>d\<close> runs however \<open>m\<close> ends, a panic included.\<close>

definition defer_io :: "unit io \<Rightarrow> 'a io \<Rightarrow> 'a io" where
  "defer_io d m h = (case m h of (r, h') \<Rightarrow> (r, snd (d h')))"

definition processNextRouteItem :: "lib \<Rightarrow> RouteController \<Rightarrow> env \<Rightarrow> bool io" where
  "processNextRouteItem L rc E =
     bind_io (queue_Get E RouteQueue) (\<lambda>got.
       case got of
         None \<Rightarrow> ret False
       | Some key \<Rightarrow>
           defer_io (log_ev (QueueDone RouteQueue key))
             (bind_io (attempt (sync L E rc key)) (\<lambda>err.
                case err of
                  Inr _ \<Rightarrow> seq_io (log_ev (QueueForget RouteQueue key)) (ret True)
                | Inl e \<Rightarrow> seq_io (log_ev (QueueAddRateLimited RouteQueue key)) (ret True))))"

definition processNextRouteToSecretItem :: "lib \<Rightarrow> RouteController \<Rightarrow> env \<Rightarrow> bool io" where
  "processNextRouteToSecretItem L rc E =
     bind_io (queue_Get E RouteToSecretQueue) (\<lambda>got.
       case got of
         None \<Rightarrow> ret False
       | Some key \<Rightarrow>
           defer_io (log_ev (QueueDone RouteToSecretQueue key))
             (bind_io (attempt (syncRouteToSecret L E rc key)) (\<lambda>err.
                case err of
                  Inr _ \<Rightarrow> seq_io (log_ev (QueueForget RouteToSecretQueue key)) (ret True)
                | Inl e \<Rightarrow> seq_io (log_ev (QueueAddRateLimited RouteToSecretQueue key)) (ret True))))"

definition processNextItem :: "lib \<Rightarrow> AccountController \<Rightarrow> env \<Rightarrow> bool io" where
  "processNextItem L ac E =
     bind_io (queue_Get E AccountQueue) (\<lambda>got.
       case got of
         None \<Rightarrow> ret False
       | Some key \<Rightarrow>
           defer_io (log_ev (QueueDone AccountQueue key))
             (bind_io (attempt (account_sync L E ac key)) (\<lambda>err.
                case err of
                  Inr _ \<Rightarrow> seq_io (log_ev (QueueForget AccountQueue key)) (ret True)
                | Inl e \<Rightarrow> seq_io (log_ev (QueueAddRateLimited AccountQueue key)) (ret True))))"

partial_function (option) runRouteWorker ::
  "lib \<Rightarrow> RouteController \<Rightarrow> env \<Rightarrow> trace \<Rightarrow> ((gerror + unit) \<times> trace) option" where
  "runRouteWorker L rc E h =
     (case processNextRouteItem L rc E h of
        (Inl e, h') \<Rightarrow> Some (Inl e, h')
      | (Inr again, h') \<Rightarrow> if again then runRouteWorker L rc E h' else Some (Inr (), h'))"

partial_function (option) runSecretWorker ::
  "lib \<Rightarrow> RouteController \<Rightarrow> env \<Rightarrow> trace \<Rightarrow> ((gerror + unit) \<times> trace) option" where
  "runSecretWorker L rc E h =
     (case processNextRouteToSecretItem L rc E h of
        (Inl e, h') \<Rightarrow> Some (Inl e, h')
      | (Inr again, h') \<Rightarrow> if again then runSecretWorker L rc E h' else Some (Inr (), h'))"

partial_function (option) runWorker ::
  "lib \<Rightarrow> AccountController \<Rightarrow> env \<Rightarrow> trace \<Rightarrow> ((gerror + unit) \<times> trace) option" where
  "runWorker L ac E h =
     (case processNextItem L ac E h of
        (Inl e, h') \<Rightarrow> Some (Inl e, h')
      | (Inr again, h') \<Rightarrow> if again then runWorker L ac E h' else Some (Inr (), h'))"

text \<open>The events by which a worker answers for a key it has taken.\<close>

fun is_worker_op :: "ev \<Rightarrow> bool" where
  "is_worker_op (QueueGet _ _) = True"
| "is_worker_op (QueueDone _ _) = True"
| "is_worker_op (QueueForget _ _) = True"
| "is_worker_op (QueueAddRateLimited _ _) = True"
| "is_worker_op _ = False"

text \<open>How a worker answers for a key after a pass with outcome \<open>r\<close>.\<close>

definition item_end :: "queue_name \<Rightarrow> string \<Rightarrow> gerror + unit \<Rightarrow> trace" where
  "item_end q key r =
     (case r of
        Inr _ \<Rightarrow> [QueueForget q key, QueueDone q key]
      | Inl e \<Rightarrow> if is_panic e then [QueueDone q key] else [QueueAddRateLimited q key, QueueDone q key])"

definition item_result :: "gerror + unit \<Rightarrow> gerror + bool" where
  "item_result r = (case r of Inr _ \<Rightarrow> Inr True | Inl e \<Rightarrow> if is_panic e then Inl e else Inr True)"

text \<open>The number of times a queue has been asked.\<close>

fun is_get :: "queue_name \<Rightarrow> ev \<Rightarrow> bool" where
  "is_get q (QueueGet q' _) = (q' = q)"
| "is_get q _ = False"

definition gets :: "queue_name \<Rightarrow> trace \<Rightarrow> nat" where
  "gets q t = length (filter (is_get q) t)"

text \<open>The queue has been shut down at the latest when it is asked for the \<open>n\<close>-th time.\<close>

definition shut_down_by :: "env \<Rightarrow> queue_name \<Rightarrow> nat \<Rightarrow> bool" where
  "shut_down_by E q n \<longleftrightarrow> (\<forall>h. n \<le> gets q h \<longrightarrow> e_queueGet E h q = None)"

text \<open>
  \<open>settled q t\<close>: in \<open>t\<close> each key taken from the queue is given back as often as it was taken, and is forgotten or
  rate limited as often too.
\<close>

definition settled :: "queue_name \<Rightarrow> trace \<Rightarrow> bool" where
  "settled q t \<longleftrightarrow> (\<forall>key.
     count_list t (QueueDone q key) = count_list t (QueueGet q (Some key)) \<and>
     count_list t (QueueForget q key) + count_list t (QueueAddRateLimited q key) = count_list t (QueueGet q (Some key)))"

section \<open>Workers\<close>

lemma gets_simps [simp]:
  "gets q [] = 0" "gets q (e # t) = (if is_get q e then Suc (gets q t) else gets q t)"
  "gets q (s @ t) = gets q s + gets q t"
  by (simp_all add: gets_def)

lemma gets_none: "list_all (\<lambda>e. \<not> is_worker_op e) t \<Longrightarrow> gets q t = 0"
  by (induction t) (auto elim: is_get.elims)

lemma settled_append: "settled q s \<Longrightarrow> settled q t \<Longrightarrow> settled q (s @ t)"
  unfolding settled_def by (auto simp: algebra_simps)

lemma count_no_worker_op:
  "list_all (\<lambda>e. \<not> is_worker_op e) t \<Longrightarrow> is_worker_op e \<Longrightarrow> count_list t e = 0"
  by (auto simp: count_list_0_iff list_all_iff)

lemma settled_item:
  "list_all (\<lambda>e. \<not> is_worker_op e) u \<Longrightarrow> \<not> (\<exists>e. r = Inl e \<and> is_panic e) \<Longrightarrow>
    settled q (QueueGet q (Some key) # u @ item_end q key r)"
  by (auto simp: settled_def item_end_def count_no_worker_op split: sum.splits)

lemma settled_quit: "settled q [QueueGet q None]"
  by (simp add: settled_def)

text \<open>
  The contract of a worker. \<open>work\<close> is the pass over a key; under \<open>ok\<close> it leaves the protocol of the queue to
  the worker. \<open>step\<close> handles one item and \<open>run\<close> is the loop.
\<close>

locale worker =
  fixes q :: queue_name
    and ok :: "env \<Rightarrow> bool"
    and work :: "env \<Rightarrow> string \<Rightarrow> unit io"
    and step :: "env \<Rightarrow> bool io"
    and run :: "env \<Rightarrow> trace \<Rightarrow> ((gerror + unit) \<times> trace) option"
  assumes work_events: "ok E \<Longrightarrow> emits (\<lambda>e. \<not> is_worker_op e) (work E key)"
    and step_quit: "e_queueGet E h q = None \<Longrightarrow> step E h = (Inr False, h @ [QueueGet q None])"
    and step_item: "e_queueGet E h q = Some key \<Longrightarrow> work E key (h @ [QueueGet q (Some key)]) = (r, h') \<Longrightarrow>
      step E h = (item_result r, h' @ item_end q key r)"
    and run_unfold: "run E h = (case step E h of
        (Inl e, h') \<Rightarrow> Some (Inl e, h')
      | (Inr again, h') \<Rightarrow> if again then run E h' else Some (Inr (), h'))"
begin

lemma step_cases:
  assumes "ok E" and "step E h = (x, h')"
  obtains (quit) "e_queueGet E h q = None" "x = Inr False" "h' = h @ [QueueGet q None]"
    | (item) key r u where "e_queueGet E h q = Some key"
        "work E key (h @ [QueueGet q (Some key)]) = (r, h @ QueueGet q (Some key) # u)"
        "list_all (\<lambda>e. \<not> is_worker_op e) u" "x = item_result r" "h' = h @ QueueGet q (Some key) # u @ item_end q key r"
proof (cases "e_queueGet E h q")
  case None
  with step_quit [of E h] assms(2) show thesis by (intro quit) auto
next
  case (Some key)
  obtain r h1 where w: "work E key (h @ [QueueGet q (Some key)]) = (r, h1)"
    by fastforce
  obtain u where "h1 = (h @ [QueueGet q (Some key)]) @ u" "list_all (\<lambda>e. \<not> is_worker_op e) u"
    using emitsD [OF work_events [OF assms(1)] w] by blast
  with step_item [OF Some w] assms(2) w Some show thesis
    by (intro item [of key r u]) auto
qed

text \<open>Every item that does not panic is settled, and only a shutdown ends the loop.\<close>

lemma step_settles:
  assumes "ok E" and "step E h = (Inr again, h')"
  shows "\<exists>t. h' = h @ t \<and> settled q t \<and> (again \<longleftrightarrow> e_queueGet E h q \<noteq> None)"
  using assms
proof (cases rule: step_cases)
  case quit
  then show ?thesis by (simp add: settled_quit)
next
  case (item key r u)
  then have "\<not> (\<exists>e. r = Inl e \<and> is_panic e)" and again
    by (auto simp: item_result_def split: sum.splits if_splits)
  with item show ?thesis
    by (auto intro!: settled_item)
qed

lemma step_gets:
  assumes "ok E" and "step E h = (x, h')"
  shows "gets q h' = Suc (gets q h)"
  using assms
  by (cases rule: step_cases) (auto simp: gets_none item_end_def split: sum.splits)

text \<open>A worker returns once its queue is shut down; unless a pass panics it has settled all it took.\<close>

lemma run_returns:
  assumes "ok E" and "shut_down_by E q n"
  shows "\<exists>r t. run E h = Some (r, h @ t) \<and> (r = Inr () \<and> settled q t \<or> (\<exists>e. r = Inl e \<and> is_panic e))"
proof (induction "n - gets q h" arbitrary: h rule: less_induct)
  case less
  obtain x h' where s: "step E h = (x, h')"
    by fastforce
  from assms(1) s show ?case
  proof (cases rule: step_cases)
    case quit
    with s show ?thesis by (simp add: run_unfold [of E h] settled_quit)
  next
    case (item key r u)
    let ?t = "QueueGet q (Some key) # u @ item_end q key r"
    show ?thesis
    proof (cases "\<exists>e. r = Inl e \<and> is_panic e")
      case True
      with item s show ?thesis by (auto simp: run_unfold [of E h] item_result_def)
    next
      case False
      then have x: "x = Inr True"
        using item(4) by (auto simp: item_result_def split: sum.splits)
      have "gets q h < n"
        using item(1) assms(2) unfolding shut_down_by_def by (metis leI option.distinct(1))
      then have "n - gets q h' < n - gets q h"
        using step_gets [OF assms(1) s] by simp
      from less [OF this] obtain r' t' where
        "run E h' = Some (r', h' @ t')" "r' = Inr () \<and> settled q t' \<or> (\<exists>e. r' = Inl e \<and> is_panic e)"
        by blast
      moreover have "settled q ?t"
        using item(3) False by (rule settled_item)
      moreover have "run E h = run E h'"
        using s x by (simp add: run_unfold [of E h])
      ultimately show ?thesis
        using item(5) settled_append [of q ?t t'] by (intro exI [of _ r'] exI [of _ "?t @ t'"]) auto
    qed
  qed
qed

end

section \<open>The three workers\<close>

lemma read_no_worker_op: "is_read e \<Longrightarrow> \<not> is_worker_op e"
  by (auto elim!: is_read.elims)

lemma sync_no_worker_op:
  assumes "retry_contract (e_RetryOnConflict E)"
  shows "emits (\<lambda>e. \<not> is_worker_op e) (sync L E rc key)"
proof -
  have "emits (\<lambda>e. \<not> is_worker_op e) (syncRoute L E rc key route)" for route
    by (rule emits_syncRoute [OF assms emits_updateRouteCertificate]) (auto elim!: is_worker_op.elims)
  moreover have "emits (\<lambda>e. \<not> is_worker_op e) (syncLoad L E rc key)"
    by (rule emits_mono [OF syncLoad_reads]) (rule read_no_worker_op)
  ultimately show ?thesis
    unfolding sync_def by (auto intro!: io_intro)
qed

lemma account_sync_no_worker_op: "emits (\<lambda>e. \<not> is_worker_op e) (account_sync L E ac key)"
  unfolding account_sync_def accountLoad_def accountRegister_def accountRefresh_eq accountStore_def Let_def
  by (auto intro!: io_intro elim!: is_read.elims split: option.splits)

lemma syncRouteToSecret_no_worker_op: "emits (\<lambda>e. \<not> is_worker_op e) (syncRouteToSecret L E rc key)"
  unfolding syncRouteToSecret_def secretBase_def storeSecret_def resolveControllerRef_def colliding_secret_def Let_def
  by (auto intro!: io_intro elim!: is_read.elims split: option.splits)

lemma item_handling:
  assumes "step = bind_io (queue_Get E q) (\<lambda>got.
       case got of
         None \<Rightarrow> ret False
       | Some key \<Rightarrow>
           defer_io (log_ev (QueueDone q key))
             (bind_io (attempt (work key)) (\<lambda>err.
                case err of
                  Inr _ \<Rightarrow> seq_io (log_ev (QueueForget q key)) (ret True)
                | Inl e \<Rightarrow> seq_io (log_ev (QueueAddRateLimited q key)) (ret True))))"
  shows "e_queueGet E h q = None \<Longrightarrow> step h = (Inr False, h @ [QueueGet q None])"
    and "e_queueGet E h q = Some key \<Longrightarrow> work key (h @ [QueueGet q (Some key)]) = (r, h') \<Longrightarrow>
      step h = (item_result r, h' @ item_end q key r)"
  by (auto simp: assms queue_Get_def defer_io_def item_end_def item_result_def io_defs split: sum.splits)

interpretation rw: worker RouteQueue "\<lambda>E. retry_contract (e_RetryOnConflict E)" "\<lambda>E. sync L E rc"
  "processNextRouteItem L rc" "runRouteWorker L rc" for L rc
proof unfold_locales
  show "runRouteWorker L rc E h = (case processNextRouteItem L rc E h of (Inl e, h') \<Rightarrow> Some (Inl e, h')
      | (Inr again, h') \<Rightarrow> if again then runRouteWorker L rc E h' else Some (Inr (), h'))" for E h
    by (rule runRouteWorker.simps)
qed (simp_all add: sync_no_worker_op item_handling [OF processNextRouteItem_def [of L rc]])

interpretation sw: worker RouteToSecretQueue "\<lambda>E. True" "\<lambda>E. syncRouteToSecret L E rc"
  "processNextRouteToSecretItem L rc" "runSecretWorker L rc" for L rc
proof unfold_locales
  show "runSecretWorker L rc E h = (case processNextRouteToSecretItem L rc E h of (Inl e, h') \<Rightarrow> Some (Inl e, h')
      | (Inr again, h') \<Rightarrow> if again then runSecretWorker L rc E h' else Some (Inr (), h'))" for E h
    by (rule runSecretWorker.simps)
qed (simp_all add: syncRouteToSecret_no_worker_op item_handling [OF processNextRouteToSecretItem_def [of L rc]])

interpretation aw: worker AccountQueue "\<lambda>E. True" "\<lambda>E. account_sync L E ac"
  "processNextItem L ac" "runWorker L ac" for L ac
proof unfold_locales
  show "runWorker L ac E h = (case processNextItem L ac E h of (Inl e, h') \<Rightarrow> Some (Inl e, h')
      | (Inr again, h') \<Rightarrow> if again then runWorker L ac E h' else Some (Inr (), h'))" for E h
    by (rule runWorker.simps)
qed (simp_all add: account_sync_no_worker_op item_handling [OF processNextItem_def [of L ac]])

section \<open>Properties\<close>

text \<open>The queue of the witnesses holds one key and is shut down after it.\<close>

definition fx_queue_env :: env where
  "fx_queue_env = fx_env\<lparr>e_queueGet := \<lambda>h q. if gets q h = 0 then Some ''ns/web'' else None\<rparr>"

lemma fx_queue_env_sel [simp]:
  "e_queueGet fx_queue_env = (\<lambda>h q. if gets q h = 0 then Some ''ns/web'' else None)"
  "e_RetryOnConflict fx_queue_env = run_conflicts 4" "e_routeByKey fx_queue_env = (\<lambda>h f k. Inr None)"
  by (simp_all add: fx_queue_env_def)

lemma fx_sync_gone: "sync fx_lib fx_queue_env fx_rc ''ns/web'' h = (Inr (), h @ [CacheRead ''routes'' ''ns'' ''ns/web''])"
  by (simp add: sync_def syncLoad_def Cut_def routeByKey_def read_cache_def io_defs fx_rc_def
      route_InformersForOrGlobal_def NamespaceAll_def)

text \<open>
  C16: a key taken off the queue of Routes is synced once and answered for: after a pass without an error its
  failures are forgotten, after a pass with an error it is queued again with a rate limit, and in both cases, and even when the pass
  panics, it is given back to the queue exactly once, as the last thing. The worker goes on unless the queue is
  shut down or the pass panicked.
\<close>

theorem processNextRouteItem_answers:
  assumes "retry_contract (e_RetryOnConflict E)" and "e_queueGet E h RouteQueue = Some key"
  shows "\<exists>r u. sync L E rc key (h @ [QueueGet RouteQueue (Some key)]) = (r, h @ QueueGet RouteQueue (Some key) # u) \<and>
    list_all (\<lambda>e. \<not> is_worker_op e) u \<and>
    processNextRouteItem L rc E h =
      (case r of
         Inr _ \<Rightarrow> (Inr True, h @ QueueGet RouteQueue (Some key) # u @ [QueueForget RouteQueue key, QueueDone RouteQueue key])
       | Inl e \<Rightarrow>
           if is_panic e then (Inl e, h @ QueueGet RouteQueue (Some key) # u @ [QueueDone RouteQueue key])
           else (Inr True, h @ QueueGet RouteQueue (Some key) # u @ [QueueAddRateLimited RouteQueue key, QueueDone RouteQueue key]))"
proof -
  obtain x h' where s: "processNextRouteItem L rc E h = (x, h')"
    by fastforce
  from assms(1) s show ?thesis
  proof (cases rule: rw.step_cases)
    case (item key' r u)
    with s assms(2) show ?thesis
      by (intro exI [of _ r] exI [of _ u]) (auto simp: item_result_def item_end_def split: sum.splits)
  qed (use assms(2) in simp)
qed

theorem processNextRouteItem_answers_witness:
  "processNextRouteItem fx_lib fx_rc fx_queue_env [] =
     (Inr True, [QueueGet RouteQueue (Some ''ns/web''), CacheRead ''routes'' ''ns'' ''ns/web'',
        QueueForget RouteQueue ''ns/web'', QueueDone RouteQueue ''ns/web''])"
  using processNextRouteItem_answers [of fx_queue_env "[]" "''ns/web''" fx_lib fx_rc]
  by (simp add: retry_contract_run fx_sync_gone)

text \<open>
  C11: no worker outlives its queue. If the queues are shut down at some point, however many keys they handed out before, the workers
  of all three queues return; and a worker that returns normally has given back every key it took, as often as it took it, and has
  forgotten or rate limited it. Only a panic of a pass ends a worker otherwise.
\<close>

theorem workers_return:
  assumes "retry_contract (e_RetryOnConflict E)" and "\<forall>q. shut_down_by E q n"
  shows "(\<exists>r t. runRouteWorker L rc E h = Some (r, h @ t) \<and> (r = Inr () \<and> settled RouteQueue t \<or> (\<exists>e. r = Inl e \<and> is_panic e))) \<and>
    (\<exists>r t. runSecretWorker L rc E h = Some (r, h @ t) \<and>
      (r = Inr () \<and> settled RouteToSecretQueue t \<or> (\<exists>e. r = Inl e \<and> is_panic e))) \<and>
    (\<exists>r t. runWorker L ac E h = Some (r, h @ t) \<and> (r = Inr () \<and> settled AccountQueue t \<or> (\<exists>e. r = Inl e \<and> is_panic e)))"
  using assms by (intro conjI rw.run_returns sw.run_returns aw.run_returns) auto

theorem workers_return_witness:
  "\<exists>r t. runRouteWorker fx_lib fx_rc fx_queue_env [] = Some (r, t) \<and>
     (r = Inr () \<and> settled RouteQueue t \<or> (\<exists>e. r = Inl e \<and> is_panic e))"
  using workers_return [of fx_queue_env 1 fx_lib fx_rc "[]"]
  by (auto simp: retry_contract_run shut_down_by_def)

end
