(* ===== verification/Wake_Up.thy ===== *)
theory Wake_Up
  imports Provisioning Order_Passes Work_Queue
begin

text \<open>
  What makes sure that a Route is looked at again. A pass that is not the last one for its Route has to leave something behind
  that brings the key back to the queue: a delayed requeue of the key, a change of the Route in the cluster (whose
  event enqueues it, see \<open>Route_Events\<close>), or an error (the worker requeues the key with a rate limit).
\<close>

section \<open>Definitions\<close>

text \<open>
  \<open>wakes key route e\<close>: the event requeues the key, or is an accepted change of the loaded Route: another status annotation than the
  one it carries, or an update with a certificate.
\<close>

fun wakes :: "string \<Rightarrow> Route \<Rightarrow> ev \<Rightarrow> bool" where
  "wakes key route (QueueAddAfter q k d) \<longleftrightarrow> q = RouteQueue \<and> k = key \<and> 0 < d"
| "wakes key route (RoutePatch ns n kv (Inr r)) \<longleftrightarrow>
     ns = om_Namespace (rt_Meta route) \<and> n = om_Name (rt_Meta route) \<and> fst kv = AcmeStatusAnnotation \<and> \<not> carries_status route (snd kv)"
| "wakes key route (RouteUpdate ns x (Inr r)) \<longleftrightarrow> True"
| "wakes key route _ \<longleftrightarrow> False"

definition woken :: "string \<Rightarrow> Route \<Rightarrow> trace \<Rightarrow> bool" where
  "woken key route t \<longleftrightarrow> (\<exists>e \<in> set t. wakes key route e)"

text \<open>The order was found pending at the server, and then none of its authorizations was.\<close>

definition stalled :: "trace \<Rightarrow> bool" where
  "stalled t \<longleftrightarrow>
     (\<exists>u c uri ord v. t = u @ GetOrder c uri (Inr ord) # v \<and> ord_Status ord = StatusPending \<and> \<not> pending_authz_seen v)"

text \<open>What RFC 8555 says of the answer to a new order.\<close>

definition opens_well :: "env \<Rightarrow> bool" where
  "opens_well E \<longleftrightarrow> (\<forall>h c d ord. e_AuthorizeOrder E h c d = Inr ord \<longrightarrow>
     ord_URI ord \<noteq> [] \<and> ord_Status ord \<in> {StatusPending, StatusProcessing, StatusReady})"

definition order_of :: "Status \<Rightarrow> string \<times> string" where
  "order_of s = (order_uri s, order_status s)"

section \<open>Lemmas\<close>

lemma woken_append [simp]: "woken key route (s @ t) \<longleftrightarrow> woken key route s \<or> woken key route t"
  by (auto simp: woken_def)

lemma woken_Cons [simp]: "woken key route (e # t) \<longleftrightarrow> wakes key route e \<or> woken key route t"
  by (simp add: woken_def)

lemma woken_requeued: "requeued key t \<Longrightarrow> woken key route t"
  by (force simp: requeued_def woken_def)

lemma needsCertKey_delay: "needsCertKey L t r = Inr ([], d) \<Longrightarrow> 0 < d"
proof -
  assume run: "needsCertKey L t r = Inr ([], d)"
  then obtain c where c: "route_certificate L r c"
    by (auto simp: needsCertKey_def route_certificate_def split: option.splits sum.splits if_splits)
  show ?thesis
  proof (cases "healthy_at L r c t")
    case True
    with run needsCertKey_healthy [OF c True] show ?thesis
      by (auto simp: healthy_at_def)
  next
    case False
    with run needsCertKey_unhealthy [OF c False] show ?thesis by auto
  qed
qed

lemma patch_accepted: "patchRouteAnnotation E ns n kv h = (Inr r, h') \<Longrightarrow> h' = h @ [RoutePatch ns n kv (Inr r)]"
  by (auto simp: patchRouteAnnotation_def call_sum_eq split: sum.splits)

text \<open>Storing a status with another order changes the annotation.\<close>

lemma updateStatus_wakes:
  assumes "status_readable L" and "om_Annotations (rt_Meta route) \<noteq> None" and "getStatus L route = Inr s0"
    and "order_of s \<noteq> order_of s0" and "updateStatus L E route s h = (Inr (), h')"
  shows "\<exists>e. h' = h @ [e] \<and> wakes key route e"
proof -
  obtain m where m: "om_Annotations (rt_Meta route) = Some m"
    using assms(2) by blast
  then have s0: "l_yamlUnmarshalStatus L (mget0 (Some m) AcmeStatusAnnotation) = Some s0"
    using assms(3) by (auto simp: getStatus_def split: option.splits)
  have other: "b \<noteq> mget0 (Some m) AcmeStatusAnnotation"
    if "l_jsonMarshalStatus L (stored_status route s) = Some b \<or> l_yamlMarshalStatus L (stored_status route s) = Some b" for b
    using assms(1,4) that s0 by (force simp: status_readable_def order_of_def stored_status_def)
  have "\<not> carries_status route b"
    if "l_jsonMarshalStatus L (stored_status route s) = Some b" for b
    using other that m by (auto simp: carries_status_def)
  moreover have "mget (Some m) AcmeStatusAnnotation \<noteq> Some b" if "l_yamlMarshalStatus L (stored_status route s) = Some b" for b
    using other [of b] that by (auto simp: mget0_def)
  ultimately show ?thesis
    using assms(5) m
    by (auto simp: updateStatus_def setStatus_eq throw_def seq_io_def bind_io_Inr wrap_err_Inr ret_def mput_idem_iff
        split: option.splits if_splits dest!: patch_accepted)
qed

lemma updateStatus_extends: "updateStatus L E route s h = (r, h') \<Longrightarrow> \<exists>t. h' = h @ t"
  using emitsD [OF emits_plain_updateStatus] by blast

lemma cleanup_extends: "cleanup_logged E route h = (r, h') \<Longrightarrow> \<exists>t. h' = h @ t"
  using emitsD [OF emits_plain_cleanup] by blast

text \<open>A pass that ends before it comes to the order.\<close>

lemma syncNeeds_wakes:
  assumes "syncNeeds L E key route s h = (Inr None, h')"
  shows "\<exists>t. h' = h @ t \<and> woken key route t"
proof (cases "needsCertKey L (e_Now E h) route")
  case (Inl e)
  with assms show ?thesis by (simp add: syncNeeds_eq throw_def)
next
  case (Inr decision)
  obtain reason d where "decision = (reason, d)" by fastforce
  with assms Inr have "reason = []" "order_status s \<notin> {StatusPending, StatusProcessing, StatusReady}"
    by (auto simp: syncNeeds_eq ret_def split: if_splits)
  moreover from this Inr \<open>decision = (reason, d)\<close> have "0 < d"
    by (auto intro: needsCertKey_delay)
  ultimately have "seq_io (log_ev (QueueAddAfter RouteQueue key d))
      (if order_uri s \<noteq> [] \<or> order_status s \<noteq> [] then seq_io (updateStatus L E route (clear_order s)) (ret None) else ret None)
      (h @ [Clock (e_Now E h)]) = (Inr (None :: Status option), h')"
    using assms Inr \<open>decision = (reason, d)\<close> by (auto simp: syncNeeds_eq)
  then obtain u where "h' = h @ Clock (e_Now E h) # QueueAddAfter RouteQueue key d # u"
    by (auto simp: seq_io_def bind_io_Inr log_ev_def ret_def split: if_splits dest!: updateStatus_extends)
  with \<open>0 < d\<close> show ?thesis by simp
qed

lemma syncCleanOrder_wakes:
  assumes "syncCleanOrder L E key route s h = (Inr None, h')"
  shows "\<exists>t. h' = h @ t \<and> woken key route t"
  using assms
  by (auto simp: syncCleanOrder_def time_Now_def call_def seq_io_def bind_io_Inr log_ev_def ret_def Let_def
      split: if_splits dest!: updateStatus_extends)

lemma syncCleanOrder_goes_on:
  assumes "syncCleanOrder L E key route s h = (Inr (Some s'), h')"
  shows "(\<exists>t. h' = h @ t) \<and>
    (order_uri s' = [] \<and> order_status s \<in> {[], StatusValid, StatusInvalid, StatusExpired, StatusRevoked, StatusDeactivated} \<or>
     s' = s \<and> order_status s \<notin> {[], StatusValid, StatusInvalid, StatusExpired, StatusRevoked, StatusDeactivated})"
  using assms
  by (auto simp: syncCleanOrder_def time_Now_def call_def seq_io_def bind_io_Inr log_ev_def ret_def Let_def clear_order_def
      split: if_splits dest!: updateStatus_extends)

text \<open>A pass that comes to the order.\<close>

lemma syncNewOrder_wakes:
  assumes "status_readable L" and "om_Annotations (rt_Meta route) \<noteq> None" and "getStatus L route = Inr s0"
    and "opens_well E" and "\<not> in_progress s0" and "syncNewOrder L E route c s h = (Inr (), h')"
  shows "\<exists>t. h' = h @ t \<and> woken key route t"
proof -
  let ?d = "spec_Host (rt_Spec route)"
  obtain ord where ord: "e_AuthorizeOrder E h c ?d = Inr ord"
    using assms(6)
    by (cases "e_AuthorizeOrder E h c ?d") (auto simp: syncNewOrder_def acme_AuthorizeOrder_def bind_io_Inr call_def of_sum_def throw_def)
  let ?h = "h @ [AuthorizeOrder c ?d (Inr ord)]"
  let ?s = "upd_prov (\<lambda>p. p\<lparr>ps_StartedAt := e_Now E ?h, ps_OrderURI := ord_URI ord, ps_OrderStatus := ord_Status ord\<rparr>) s"
  have run: "updateStatus L E route ?s (?h @ [Clock (e_Now E ?h)]) = (Inr (), h')"
    using assms(6) ord by (simp add: syncNewOrder_def acme_AuthorizeOrder_def time_Now_def io_defs)
  have "in_progress ?s"
    using assms(4) ord by (auto simp: opens_well_def in_progress_def)
  then have "order_of ?s \<noteq> order_of s0"
    using assms(5) by (auto simp: order_of_def in_progress_def)
  from updateStatus_wakes [OF assms(1-3) this run, of key] show ?thesis
    by auto
qed

lemma syncGetOrder_wakes:
  assumes "status_readable L" and "om_Annotations (rt_Meta route) \<noteq> None" and "getStatus L route = Inr s0"
    and "order_uri s0 \<noteq> []" and "syncGetOrder L E route c s h = (Inr found, h')"
  obtains (gone) t where "found = None" "h' = h @ t" "woken key route t"
    | (found) ord ord' where "found = Some ord" "ord_Status ord = ord_Status ord'" "h' = h @ [GetOrder c (order_uri s) (Inr ord')]"
proof (cases "e_GetOrder E h c (order_uri s)")
  case (Inr ord')
  with assms(5) that(2) [of "ord'\<lparr>ord_URI := order_uri s\<rparr>" ord'] show ?thesis
    by (simp add: syncGetOrder_def acme_GetOrder_def io_defs)
next
  case (Inl e)
  let ?s = "upd_prov (\<lambda>p. p\<lparr>ps_OrderURI := []\<rparr>) s" and ?h = "h @ [GetOrder c (order_uri s) (Inl e)]"
  have "attempt (acme_GetOrder E c (order_uri s)) h = (Inr (Inl (AcmeErr e)), ?h)"
    using Inl by (simp add: acme_GetOrder_def io_defs)
  then have "found = None" and run: "updateStatus L E route ?s ?h = (Inr (), h')"
    using assms(5) by (auto simp: syncGetOrder_def bind_io_Inr seq_io_def ret_def throw_def split: if_splits)
  have "order_of ?s \<noteq> order_of s0"
    using assms(4) by (simp add: order_of_def)
  from updateStatus_wakes [OF assms(1-3) this run, of key] that(1) \<open>found = None\<close> show ?thesis
    by auto
qed

lemma syncReady_wakes:
  assumes "retry_contract (e_RetryOnConflict E)" and "syncReady L E rc route c s ord h = (Inr (), h')"
  shows "\<exists>t. h' = h @ t \<and> woken key route t"
  using assms
proof (cases rule: syncReady_cases)
  case (stored t pem s')
  then obtain h2 where "e_RetryOnConflict E (updateRouteCertificate L E route s' pem) (h @ t) = (Inr (), h2)"
    and clean: "cleanup_logged E route h2 = (Inr (), h')"
    by (auto simp: seq_io_def bind_io_Inr wrap_err_Inr)
  moreover have "emits (\<lambda>_. True) (updateRouteCertificate L E route s' pem)"
    unfolding updateRouteCertificate_def by (auto intro!: io_intro split: prod.splits sum.splits)
  ultimately obtain u where "updateRouteCertificate L E route s' pem ((h @ t) @ u) = (Inr (), h2)"
    using retry_success [OF assms(1)] by blast
  from updateRouteCertificate_success [OF this] obtain g ns y y' where "h2 = ((h @ t) @ u) @ [g, RouteUpdate ns y (Inr y')]"
    by blast
  moreover obtain v where "h' = h2 @ v"
    using cleanup_extends [OF clean] by blast
  ultimately show ?thesis by simp
qed simp

lemma syncPending_wakes:
  assumes "syncPending L E rc key route c s ord h = (Inr (), h')"
  shows "\<exists>t. h' = h @ t \<and> (woken key route t \<or> resource_warning route t \<or> \<not> pending_authz_seen t)"
  using pending_requeues [OF assms] woken_requeued by metis

lemma syncOrder_wakes:
  assumes "status_readable L" and "om_Annotations (rt_Meta route) \<noteq> None" and "getStatus L route = Inr s0"
    and "retry_contract (e_RetryOnConflict E)" and "order_of s = order_of s0" and "order_uri s0 \<noteq> []"
    and "order_status s0 \<notin> {[], StatusValid, StatusInvalid, StatusExpired, StatusRevoked, StatusDeactivated}"
    and "syncOrder L E rc key route c s ord h = (Inr (), h')"
  shows "\<exists>t. h' = h @ t \<and> (woken key route t \<or> resource_warning route t \<or> ord_Status ord = StatusPending \<and> \<not> pending_authz_seen t)"
proof -
  let ?s = "upd_prov (\<lambda>p. p\<lparr>ps_OrderStatus := ord_Status ord\<rparr>) s"
  have upd: "\<exists>t. h' = h1 @ t \<and> woken key route t"
    if "updateStatus L E route s1 h1 = (Inr (), h')" "order_of s1 \<noteq> order_of s0" for s1 h1
    using updateStatus_wakes [OF assms(1-3) that(2,1), of key] by auto
  consider "ord_Status ord = StatusPending" | "ord_Status ord = StatusProcessing" | "ord_Status ord = StatusReady"
    | "ord_Status ord = StatusValid" | "ord_Status ord \<in> {StatusInvalid, StatusExpired, StatusRevoked, StatusDeactivated}"
    using assms(8) by (auto simp: syncOrder_def throw_def Let_def split: if_splits)
  then show ?thesis
  proof cases
    case 1
    then have "syncPending L E rc key route c ?s ord h = (Inr (), h')"
      using assms(8) by (simp add: syncOrder_def)
    from syncPending_wakes [OF this] 1 show ?thesis by blast
  next
    case 2
    then have "syncProcessing L E key route ?s h = (Inr (), h')"
      using assms(8) by (simp add: syncOrder_def acme_status_names)
    then show ?thesis
      by (auto simp: syncProcessing_def requeue15_def seq_io_def bind_io_Inr log_ev_def dest!: updateStatus_extends)
  next
    case 3
    then have "syncReady L E rc route c ?s ord h = (Inr (), h')"
      using assms(8) by (simp add: syncOrder_def acme_status_names)
    from syncReady_wakes [OF assms(4) this] show ?thesis by blast
  next
    case 4
    from orphaned_order_cleared [OF this assms(8)] obtain a s' where
      "updateStatus L E route s' (h @ [RouteDeleteCollection (om_Namespace (rt_Meta route)) (AcmeExposerUID, om_UID (rt_Meta route)) a]) = (Inr (), h')"
      "order_uri s' = []"
      by blast
    with upd [OF this(1)] assms(6) show ?thesis by (auto simp: order_of_def)
  next
    case 5
    from failed_order_stored [OF this assms(8)] obtain t a s' where
      "updateStatus L E route s' (h @ t @ [RouteDeleteCollection (om_Namespace (rt_Meta route)) (AcmeExposerUID, om_UID (rt_Meta route)) a]) = (Inr (), h')"
      "order_status s' = ord_Status ord"
      by blast
    moreover have "order_of s' \<noteq> order_of s0"
      using 5 assms(7) \<open>order_status s' = ord_Status ord\<close> by (auto simp: order_of_def)
    ultimately show ?thesis using upd by fastforce
  qed
qed

lemma syncProvision_wakes:
  assumes "status_readable L" and "om_Annotations (rt_Meta route) \<noteq> None" and "getStatus L route = Inr s0"
    and "retry_contract (e_RetryOnConflict E)" and "opens_well E"
    and "order_uri s = [] \<and> \<not> in_progress s0 \<or> order_of s = order_of s0 \<and> order_uri s0 \<noteq> [] \<and>
      order_status s0 \<notin> {[], StatusValid, StatusInvalid, StatusExpired, StatusRevoked, StatusDeactivated}"
    and "syncProvision L E rc key route s h = (Inr (), h')"
  shows "\<exists>t. h' = h @ t \<and> (woken key route t \<or> resource_warning route t \<or> stalled t)"
proof -
  obtain c h1 where c: "syncClient L E rc route h = (Inr c, h1)"
    and rest: "(if length (order_uri s) = 0 then syncNewOrder L E route c s
       else bind_io (syncGetOrder L E route c s) (\<lambda>found.
         case found of None \<Rightarrow> ret () | Some order \<Rightarrow> syncOrder L E rc key route c s order)) h1 = (Inr (), h')"
    using assms(7) by (auto simp: syncProvision_def bind_io_Inr)
  obtain t1 where t1: "h1 = h @ t1"
    using emitsD [OF emits_plain_parts(4) c] by blast
  show ?thesis
  proof (cases "order_uri s = []")
    case True
    with assms(6) have "\<not> in_progress s0"
      by (auto simp: order_of_def)
    from syncNewOrder_wakes [OF assms(1-3,5) this, of c s h1 h' key] True rest t1 show ?thesis
      by fastforce
  next
    case False
    then have s0: "order_of s = order_of s0" "order_uri s0 \<noteq> []"
      "order_status s0 \<notin> {[], StatusValid, StatusInvalid, StatusExpired, StatusRevoked, StatusDeactivated}"
      using assms(6) by auto
    from False rest obtain found h2 where found: "syncGetOrder L E route c s h1 = (Inr found, h2)"
      and go: "(case found of None \<Rightarrow> ret () | Some order \<Rightarrow> syncOrder L E rc key route c s order) h2 = (Inr (), h')"
      by (auto simp: bind_io_Inr)
    show ?thesis
    proof (rule syncGetOrder_wakes [OF assms(1-3) s0(2) found, of key])
      fix t assume "found = None" "h2 = h1 @ t" "woken key route t"
      with go t1 show ?thesis by (auto simp: ret_def)
    next
      fix ord ord'
      assume found: "found = Some ord" "ord_Status ord = ord_Status ord'" "h2 = h1 @ [GetOrder c (order_uri s) (Inr ord')]"
      with go have "syncOrder L E rc key route c s ord h2 = (Inr (), h')" by simp
      from syncOrder_wakes [OF assms(1-4) s0 this] obtain t where t: "h' = h2 @ t"
        "woken key route t \<or> resource_warning route t \<or> ord_Status ord = StatusPending \<and> \<not> pending_authz_seen t"
        by blast
      then have "woken key route t \<or> resource_warning route t \<or> stalled (t1 @ GetOrder c (order_uri s) (Inr ord') # t)"
        using found(2) unfolding stalled_def by metis
      with t(1) t1 found(3) show ?thesis
        by (intro exI [of _ "t1 @ GetOrder c (order_uri s) (Inr ord') # t"]) (auto simp: resource_warning_def)
    qed
  qed
qed

lemma stalled_append: "stalled t \<Longrightarrow> stalled (s @ t)"
  unfolding stalled_def by (metis append.assoc)

lemma syncLoad_annotations:
  assumes "syncLoad L E rc key h = (Inr (Some route), h1)"
  shows "om_Annotations (rt_Meta route) \<noteq> None"
proof -
  obtain ns n where ns: "l_SplitMetaNamespaceKey L key = Some (ns, n)"
    using assms by (auto simp: syncLoad_def throw_def split: option.splits)
  with assms obtain ob h2 where "(case ob of None \<Rightarrow> ret None
            | Some routeReadOnly \<Rightarrow>
                if om_DeletionTimestamp (rt_Meta routeReadOnly) \<noteq> None then ret None
                else if \<not> IsManaged (rt_Meta routeReadOnly) (rc_annotation rc) then ret None
                else if \<not> IsAdmitted routeReadOnly then ret None
                else ret (Some routeReadOnly)) h2 = (Inr (Some route), h1)"
    by (auto simp: syncLoad_def bind_io_Inr simp del: not_None_eq)
  then have "IsManaged (rt_Meta route) (rc_annotation rc)"
    by (cases ob) (auto simp: ret_def split: if_splits)
  then show ?thesis
    by (cases "om_Annotations (rt_Meta route)") (simp_all add: IsManaged_def mget_def)
qed

text \<open>A whole pass.\<close>

lemma pass_wakes:
  assumes "status_readable L" and "retry_contract (e_RetryOnConflict E)" and "opens_well E"
    and "sync L E rc key h = (Inr (), h @ t)" and "syncLoad L E rc key h = (Inr (Some route), h1)"
  shows "woken key route t \<or> resource_warning route t \<or> stalled t"
proof -
  note ann = syncLoad_annotations [OF assms(5)]
  obtain t0 where t0: "h1 = h @ t0"
    using emitsD [OF syncLoad_reads assms(5)] by blast
  from assms(4,5) have "syncRoute L E rc key route h1 = (Inr (), h @ t)"
    by (auto elim!: sync_cases)
  then obtain s1 needed h2 where s1: "syncStatus L rc route h1 = (Inr s1, h1)"
    and needs: "syncNeeds L E key route s1 h1 = (Inr needed, h2)"
    and rest: "(case needed of None \<Rightarrow> ret () | Some s \<Rightarrow> bind_io (syncCleanOrder L E key route s) (\<lambda>cleaned.
      case cleaned of None \<Rightarrow> ret () | Some s \<Rightarrow> syncProvision L E rc key route s)) h2 = (Inr (), h @ t)"
    by (auto simp: syncRoute_def bind_io_Inr dest: syncStatus_order)
  obtain s0 where s0: "getStatus L route = Inr s0" "order_of s1 = order_of s0"
    using syncStatus_order [OF s1] by (auto simp: order_of_def)
  have "\<exists>u. h @ t = h1 @ u \<and> (woken key route u \<or> resource_warning route u \<or> stalled u)"
  proof (cases needed)
    case None
    with rest syncNeeds_wakes [of L E key route s1 h1 h2] needs show ?thesis
      by (auto simp: ret_def)
  next
    case (Some s2)
    then have "s2 = s1" using needs syncNeeds_same by blast
    obtain u1 where u1: "h2 = h1 @ u1"
      using emitsD [OF emits_plain_parts(2) needs] by blast
    from rest Some obtain cleaned h3 where clean: "syncCleanOrder L E key route s1 h2 = (Inr cleaned, h3)"
      and go: "(case cleaned of None \<Rightarrow> ret () | Some s \<Rightarrow> syncProvision L E rc key route s) h3 = (Inr (), h @ t)"
      by (auto simp: bind_io_Inr \<open>s2 = s1\<close>)
    show ?thesis
    proof (cases cleaned)
      case None
      obtain u2 where "h3 = h2 @ u2" "woken key route u2"
        using syncCleanOrder_wakes [OF clean [unfolded None]] by blast
      with go None u1 show ?thesis
        by (intro exI [of _ "u1 @ u2"]) (auto simp: ret_def)
    next
      case (Some s)
      then obtain u2 where u2: "h3 = h2 @ u2"
        "order_uri s = [] \<and> order_status s1 \<in> {[], StatusValid, StatusInvalid, StatusExpired, StatusRevoked, StatusDeactivated} \<or>
         s = s1 \<and> order_status s1 \<notin> {[], StatusValid, StatusInvalid, StatusExpired, StatusRevoked, StatusDeactivated}"
        using syncCleanOrder_goes_on clean by blast
      then have "order_uri s = [] \<and> \<not> in_progress s0 \<or> order_of s = order_of s0 \<and> order_uri s0 \<noteq> [] \<and>
          order_status s0 \<notin> {[], StatusValid, StatusInvalid, StatusExpired, StatusRevoked, StatusDeactivated}"
        using s0(2) by (auto simp: order_of_def in_progress_def acme_status_names)
      from syncProvision_wakes [OF assms(1) ann s0(1) assms(2,3) this] go Some obtain u3 where
        "h @ t = h3 @ u3" "woken key route u3 \<or> resource_warning route u3 \<or> stalled u3"
        by fastforce
      then show ?thesis
        using u1 u2(1) stalled_append [of u3 "u1 @ u2"]
        by (intro exI [of _ "u1 @ u2 @ u3"]) (auto simp: resource_warning_def)
    qed
  qed
  then obtain u where "t = t0 @ u" "woken key route u \<or> resource_warning route u \<or> stalled u"
    using t0 by auto
  then show ?thesis
    using stalled_append [of u t0] by (auto simp: resource_warning_def)
qed

section \<open>Properties\<close>

text \<open>
  C4: no Route is forgotten. When a worker has handled the key of a Route that is to be managed, without a panic, something brings the
  key back: it was requeued with a rate limit after an error, it was requeued with a delay, or the Route was
  changed in the cluster. There are two exceptions. An exposer pod that does not fit the limits of the namespace is reported by an event
  on the Route. And an order that is still pending at the server while none of its authorizations is pending any more leaves nothing
  (see \<open>pending_order_can_stall\<close>).
\<close>

theorem no_route_is_forgotten:
  assumes "status_readable L" and "retry_contract (e_RetryOnConflict E)" and "opens_well E"
    and "e_queueGet E h RouteQueue = Some key" and "processNextRouteItem L rc E h = (Inr b, h @ t)"
    and "syncLoad L E rc key (h @ [QueueGet RouteQueue (Some key)]) = (Inr (Some route), h1)"
  shows "QueueAddRateLimited RouteQueue key \<in> set t \<or> woken key route t \<or> resource_warning route t \<or> stalled t"
  using assms(2,5)
proof (cases rule: rw.step_cases)
  case (item key' r u)
  with assms(4,5) have k: "key' = key" and t: "t = QueueGet RouteQueue (Some key) # u @ item_end RouteQueue key r"
    by auto
  let ?h = "h @ [QueueGet RouteQueue (Some key)]"
  show ?thesis
  proof (cases r)
    case (Inl e)
    with item(4) t show ?thesis
      by (auto simp: item_result_def item_end_def split: if_splits)
  next
    case (Inr x)
    with item(2) k have "sync L E rc key ?h = (Inr (), ?h @ u)" by simp
    from pass_wakes [OF assms(1-3) this assms(6)] show ?thesis
    proof (elim disjE)
      assume "stalled u"
      then obtain u1 c uri ord v where u: "u = u1 @ GetOrder c uri (Inr ord) # v" "ord_Status ord = StatusPending" "\<not> pending_authz_seen v"
        unfolding stalled_def by blast
      from u(3) have "\<not> pending_authz_seen (v @ item_end RouteQueue key r)"
        using Inr by (auto simp: pending_authz_seen_def item_end_def)
      with u(2) have "stalled ((QueueGet RouteQueue (Some key) # u1) @ GetOrder c uri (Inr ord) # v @ item_end RouteQueue key r)"
        unfolding stalled_def by blast
      with t u(1) show ?thesis by simp
    qed (use t in \<open>auto simp: resource_warning_def\<close>)
  qed
qed (use assms(4) in simp)

lemma op_item:
  "processNextRouteItem op_lib fx_rc (sc_env ''processing|u'' ''invalid'') [] =
    (Inr True, [] @ QueueGet RouteQueue (Some ''ns/web'') # op_events @ [QueueForget RouteQueue ''ns/web'', QueueDone RouteQueue ''ns/web''])"
proof -
  have "e_queueGet (sc_env ''processing|u'' ''invalid'') [] RouteQueue = Some ''ns/web''"
    by simp
  from rw.step_item [OF this op_sync] show ?thesis
    by (simp add: item_result_def item_end_def)
qed

theorem no_route_is_forgotten_witness:
  "woken ''ns/web'' (sc_route ''processing|u'') (QueueGet RouteQueue (Some ''ns/web'') # op_events @
     [QueueForget RouteQueue ''ns/web'', QueueDone RouteQueue ''ns/web''])"
proof -
  let ?E = "sc_env ''processing|u'' ''invalid''"
  have "retry_contract (e_RetryOnConflict ?E)" "opens_well ?E" "e_queueGet ?E [] RouteQueue = Some ''ns/web''"
    by (simp_all add: retry_contract_run opens_well_def sc_order_def acme_status_names)
  from no_route_is_forgotten [OF op_readable this op_item op_load] show ?thesis
    by (auto simp: op_events_def sc_client_events_def resource_warning_def stalled_def Cons_eq_append_conv sc_order_def
        acme_status_names append_eq_Cons_conv)
qed

text \<open>
  The second exception: when the server reports an order as pending but all its authorizations as settled, the pass neither requeues the key
  nor changes the Route, if the status of the Route is up to date. The challenge of an order that was accepted in the pass before
  can be in this state, since the order and its authorizations are read one after the other; the Route then waits for the next resync of the
  informers.
\<close>

theorem pending_order_can_stall:
  assumes "\<forall>h. \<forall>u \<in> set (ord_AuthzURLs ord). \<exists>a. e_GetAuthorization E h c u = Inr a \<and> az_Status a \<in> {StatusValid, StatusInvalid}"
    and "l_yamlMarshalStatus L (stored_status route s) = Some (mget0 (om_Annotations (rt_Meta route)) AcmeStatusAnnotation)"
    and "mget (om_Annotations (rt_Meta route)) AcmeStatusAnnotation \<noteq> None"
  shows "\<exists>t. syncPending L E rc key route c s ord h = (Inr (), h @ t) \<and> list_all (\<lambda>e. \<exists>u a. e = GetAuthorization c u (Inr a)) t"
proof -
  let ?P = "\<lambda>e. \<exists>u a. e = GetAuthorization c u (Inr a)"
  have "\<exists>t. authzLoop L E rc key route c urls h = (Inr NextAuthz, h @ t) \<and> list_all ?P t"
    if "set urls \<subseteq> set (ord_AuthzURLs ord)" for urls h
    using that
  proof (induction urls arbitrary: h)
    case (Cons url urls)
    obtain a where a: "e_GetAuthorization E h c url = Inr a" "az_Status a \<in> {StatusValid, StatusInvalid}"
      using assms(1) Cons.prems by (meson list.set_intros(1) subsetD)
    then have "handleAuthz L E rc key route c url h = (Inr NextAuthz, h @ [GetAuthorization c url (Inr a)])"
      by (auto simp: handleAuthz_def acme_GetAuthorization_def io_defs acme_status_names)
    moreover obtain t where "authzLoop L E rc key route c urls (h @ [GetAuthorization c url (Inr a)]) =
        (Inr NextAuthz, (h @ [GetAuthorization c url (Inr a)]) @ t)" "list_all ?P t"
      using Cons.IH [of "h @ [GetAuthorization c url (Inr a)]"] Cons.prems by auto
    ultimately show ?case
      by (intro exI [of _ "GetAuthorization c url (Inr a) # t"]) (auto simp: bind_io_def)
  qed (simp add: ret_def)
  from this [OF order_refl] obtain t where
    "authzLoop L E rc key route c (ord_AuthzURLs ord) h = (Inr NextAuthz, h @ t)" "list_all ?P t"
    by blast
  moreover have "updateStatus L E route s h' = (Inr (), h')" for h'
    using assms(2,3) by (auto simp: updateStatus_def setStatus_eq mput_idem_iff mget0_def ret_def)
  ultimately show ?thesis
    by (intro exI [of _ t]) (simp add: syncPending_def bind_io_def)
qed

end
