(* ===== verification/Status_Form.thy ===== *)
theory Status_Form
  imports Wake_Up
begin

text \<open>
  The form of the status annotation: which values its fields can take. A pass that reads a well-formed status only stores
  well-formed ones, each with the generation of the Route it was made for.
\<close>

section \<open>Definitions\<close>

text \<open>
  The order status is empty or one of the states of RFC 8555, an empty one comes with no order, and the number of
  failures is a Go \<^verbatim>\<open>int\<close>.
\<close>

definition status_wf :: "Status \<Rightarrow> bool" where
  "status_wf s \<longleftrightarrow>
     order_status s \<in> {[], StatusPending, StatusProcessing, StatusReady, StatusValid, StatusInvalid, StatusExpired,
       StatusRevoked, StatusDeactivated} \<and>
     (order_status s = [] \<longrightarrow> order_uri s = []) \<and> in_int64 (ps_Failures (st_ProvisioningStatus s))"

fun observed_generation :: "Route \<Rightarrow> ev \<Rightarrow> int" where
  "observed_generation route (RouteUpdate ns x r) = om_Generation (rt_Meta x)"
| "observed_generation route _ = om_Generation (rt_Meta route)"

definition stores_wf :: "lib \<Rightarrow> Route \<Rightarrow> ev \<Rightarrow> bool" where
  "stores_wf L route e \<longleftrightarrow> (stores_status e \<longrightarrow>
     (\<exists>s. writes_status L e s \<and> status_wf s \<and> st_ObservedGeneration s = observed_generation route e))"

section \<open>Lemmas\<close>

lemma status_wf_clear [simp]: "status_wf (clear_order s) \<longleftrightarrow> in_int64 (ps_Failures (st_ProvisioningStatus s))"
  by (simp add: status_wf_def clear_order_def)

lemma status_wf_observed [simp]: "status_wf (stored_status route s) \<longleftrightarrow> status_wf s"
  by (simp add: status_wf_def stored_status_def)

lemma count_failure_int64:
  "in_int64 (ps_Failures (st_ProvisioningStatus s)) \<Longrightarrow> in_int64 (ps_Failures (st_ProvisioningStatus (count_failure prev s)))"
  by (simp add: count_failure_def wrap64_range)

lemma not_stores_wf: "\<not> stores_status e \<Longrightarrow> stores_wf L route e"
  by (simp add: stores_wf_def)

lemma wf_updateStatus:
  assumes "status_wf s"
  shows "emits (stores_wf L route) (updateStatus L E route s)"
  by (rule emits_updateStatus)
    (use assms in \<open>auto simp: stores_wf_def patches_status_def stored_status_def status_wf_def intro!: exI [of _ "stored_status route s"]\<close>)

lemma wf_cleanup: "emits (stores_wf L route) (cleanup_logged E route)"
  by (rule emits_cleanup_logged) (simp add: stores_wf_def)

lemma wf_none: "emits (\<lambda>e. \<not> stores_status e) m \<Longrightarrow> emits (stores_wf L route) m"
  by (erule emits_mono) (rule not_stores_wf)

lemma wf_updateRouteCertificate:
  assumes "status_wf s"
  shows "emits (stores_wf L route) (updateRouteCertificate L E route' s pem)"
proof -
  have "stores_wf L route (RouteUpdate ns (install_certificate pem (fresh\<lparr>rt_Meta := m\<rparr>)) r)"
    if "setStatus L (rt_Meta fresh) s = (st, Inr m)" for fresh st m ns r
    using that assms
    by (auto simp: stores_wf_def setStatus_eq install_certificate_def Let_def mget_mput stored_status_def status_wf_def
        intro!: exI [of _ "stored_status fresh s"] split: option.splits)
  then show ?thesis
    unfolding updateRouteCertificate_def
    by (auto intro!: io_intro simp: not_stores_wf split: prod.splits sum.splits)
qed

text \<open>The parts of a pass.\<close>

lemma wf_syncNeeds:
  "status_wf s \<Longrightarrow> emits (stores_wf L route) (syncNeeds L E key route s)"
  unfolding syncNeeds_def
  by (auto intro!: io_intro wf_updateStatus not_stores_wf simp: status_wf_def clear_order_def split: sum.splits prod.splits)

lemma wf_syncCleanOrder:
  "status_wf s \<Longrightarrow> emits (stores_wf L route) (syncCleanOrder L E key route s)"
  "status_wf s \<Longrightarrow> yields (\<lambda>c. \<forall>s'. c = Some s' \<longrightarrow> status_wf s') (syncCleanOrder L E key route s)"
proof -
  show "status_wf s \<Longrightarrow> emits (stores_wf L route) (syncCleanOrder L E key route s)"
    unfolding syncCleanOrder_def Let_def by (auto intro!: io_intro wf_updateStatus not_stores_wf)
  show "status_wf s \<Longrightarrow> yields (\<lambda>c. \<forall>s'. c = Some s' \<longrightarrow> status_wf s') (syncCleanOrder L E key route s)"
    unfolding yields_def syncCleanOrder_def Let_def
    by (auto simp: bind_io_Inr seq_io_def ret_def status_wf_def clear_order_def split: if_splits)
qed

lemma wf_syncNewOrder:
  assumes "opens_well E" and "status_wf s"
  shows "emits (stores_wf L route) (syncNewOrder L E route c s)"
proof -
  have "yields (\<lambda>ord. ord_Status ord \<in> {StatusPending, StatusProcessing, StatusReady}) (acme_AuthorizeOrder E c d)" for d
    using assms(1) by (auto simp: yields_def acme_AuthorizeOrder_def call_sum_eq opens_well_def split: sum.splits)
  then show ?thesis
    unfolding syncNewOrder_def
    by (rule emits_bind_yields [rotated])
      (use assms(2) in \<open>auto intro!: io_intro wf_updateStatus not_stores_wf simp: status_wf_def acme_status_names\<close>)
qed

lemma wf_syncGetOrder:
  assumes "status_wf s"
  shows "emits (stores_wf L route) (syncGetOrder L E route c s)"
  using assms unfolding syncGetOrder_def
  by (auto intro!: io_intro wf_updateStatus not_stores_wf simp: status_wf_def split: sum.splits)

lemma wf_syncOrder:
  assumes "retry_contract (e_RetryOnConflict E)" and "status_wf s"
  shows "emits (stores_wf L route) (syncOrder L E rc key route c s ord)"
proof -
  let ?s = "upd_prov (\<lambda>x. x\<lparr>ps_OrderStatus := ord_Status ord\<rparr>) s"
  have int: "in_int64 (ps_Failures (st_ProvisioningStatus ?s))"
    using assms(2) by (simp add: status_wf_def)
  have wf: "status_wf ?s" "status_wf (count_failure prev ?s)"
    if "ord_Status ord \<in> {StatusPending, StatusProcessing, StatusReady, StatusInvalid, StatusExpired, StatusRevoked, StatusDeactivated}" for prev
    using that int count_failure_int64 [of ?s prev]
    by (auto simp: status_wf_def acme_status_names count_failure_def)
  have cleared: "status_wf (clear_order (count_failure prev ?s))" for prev
    using count_failure_int64 [OF int] by simp
  have valid: "status_wf (upd_prov (\<lambda>x. x\<lparr>ps_OrderStatus := StatusValid, ps_Failures := 0, ps_OrderError := None\<rparr>) ?s)"
    by (simp add: status_wf_def acme_status_names in_int64_def int64_min_def int64_max_def)
  have loop: "emits (stores_wf L route) (authzLoop L E rc key route c urls)" for urls
    using authzLoop_quiet by (rule wf_none)
  have pending: "emits (stores_wf L route) (syncPending L E rc key route c ?s ord)"
    and processing: "emits (stores_wf L route) (syncProcessing L E key route ?s)"
    if "ord_Status ord \<in> {StatusPending, StatusProcessing}"
    using wf(1) that unfolding syncPending_def syncProcessing_def requeue15_def
    by (auto intro!: io_intro wf_updateStatus loop simp: not_stores_wf split: loop_step.splits)
  have ready: "emits (stores_wf L route) (syncReady L E rc route c ?s ord)"
    unfolding syncReady_def Let_def
    by (auto intro!: io_intro wf_cleanup emits_retry [OF assms(1)] wf_updateRouteCertificate valid [simplified] simp: not_stores_wf)
  have orphan: "emits (stores_wf L route) (syncValid L E route prev ?s)" for prev
    unfolding syncValid_def by (auto intro!: io_intro wf_cleanup wf_updateStatus cleared)
  have bad: "emits (stores_wf L route) (syncInvalid L E route prev ?s)"
      "emits (stores_wf L route) (syncExpired L E route prev ?s)"
    if "ord_Status ord \<in> {StatusInvalid, StatusExpired, StatusRevoked, StatusDeactivated}" for prev
    using wf(2) that unfolding syncInvalid_def syncExpired_def
    by (auto intro!: io_intro wf_cleanup wf_updateStatus simp: not_stores_wf)
  show ?thesis
    unfolding syncOrder_def Let_def
    by (intro emits_if emits_throw pending processing ready orphan bad) auto
qed

lemma wf_syncRoute:
  assumes "retry_contract (e_RetryOnConflict E)" and "opens_well E" and "getStatus L route = Inr s0" and "status_wf s0"
  shows "emits (stores_wf L route) (syncRoute L E rc key route)"
proof -
  have client: "emits (stores_wf L route) (syncClient L E rc route)"
    unfolding syncClient_def Let_def
    by (rule wf_none) (auto intro!: io_intro read_not_stores split: option.splits prod.splits)
  have found: "emits (stores_wf L route) (case found of None \<Rightarrow> ret () | Some order \<Rightarrow> syncOrder L E rc key route c s order)"
    if "status_wf s" for found c s
    using that by (cases found) (simp_all add: emits_ret wf_syncOrder [OF assms(1)])
  have provision: "emits (stores_wf L route) (syncProvision L E rc key route s)" if "status_wf s" for s
    unfolding syncProvision_def
    by (intro emits_bind client emits_if wf_syncNewOrder [OF assms(2) that] wf_syncGetOrder [OF that] found [OF that])
  have clean: "emits (stores_wf L route) (bind_io (syncCleanOrder L E key route s) (\<lambda>cleaned.
      case cleaned of None \<Rightarrow> ret () | Some s' \<Rightarrow> syncProvision L E rc key route s'))" if "status_wf s" for s
    by (rule emits_bind_yields [OF wf_syncCleanOrder [OF that]]) (auto intro!: emits_ret provision split: option.splits)
  have same: "yields (\<lambda>needed. \<forall>s'. needed = Some s' \<longrightarrow> s' = s) (syncNeeds L E key route s)" for s
    unfolding yields_def using syncNeeds_same by blast
  have needs: "emits (stores_wf L route) (bind_io (syncNeeds L E key route s) (\<lambda>needed.
      case needed of None \<Rightarrow> ret () | Some s1 \<Rightarrow> bind_io (syncCleanOrder L E key route s1) (\<lambda>cleaned.
      case cleaned of None \<Rightarrow> ret () | Some s' \<Rightarrow> syncProvision L E rc key route s')))" if "status_wf s" for s
    by (rule emits_bind_yields [OF wf_syncNeeds [OF that] same]) (use that in \<open>auto intro!: emits_ret clean split: option.splits\<close>)
  have "yields status_wf (syncStatus L rc route)"
    using assms(3,4) by (auto simp: yields_def syncStatus_def Let_def ret_def status_wf_def)
  moreover have "emits (stores_wf L route) (syncStatus L rc route)"
    unfolding syncStatus_def Let_def by (auto intro!: io_intro split: sum.splits)
  ultimately show ?thesis
    unfolding syncRoute_def by (intro emits_bind_yields [OF _ _ needs])
qed

section \<open>Properties\<close>

text \<open>
  C19: passes keep the status well-formed. If the status of the loaded Route is well-formed (known order status, no order
  without a status, failures in the range of \<^verbatim>\<open>int\<close>) and the ACME server answers new orders as RFC 8555 says, then every status
  the pass stores is well-formed too, and its observed generation is that of the Route it is stored in.
\<close>

theorem sync_keeps_status_wf:
  assumes "retry_contract (e_RetryOnConflict E)" and "opens_well E" and "sync L E rc key h = (r, h @ t)"
    and "syncLoad L E rc key h = (Inr (Some route), h1)" and "getStatus L route = Inr s0" and "status_wf s0"
    and "e \<in> set t" and "stores_status e"
  shows "\<exists>s. writes_status L e s \<and> status_wf s \<and> st_ObservedGeneration s = observed_generation route e"
proof -
  from assms(3,4) have "syncRoute L E rc key route h1 = (r, h @ t)"
    by (auto elim!: sync_cases)
  then obtain u where u: "h @ t = h1 @ u" "list_all (stores_wf L route) u"
    using emitsD [OF wf_syncRoute [OF assms(1,2,5,6)]] by blast
  obtain t0 where t0: "h1 = h @ t0" "list_all is_read t0"
    using emitsD [OF syncLoad_reads assms(4)] by blast
  with u have "t = t0 @ u"
    by simp
  with assms(7,8) t0(2) u(2) show ?thesis
    by (auto simp: list_all_iff stores_wf_def read_not_stores)
qed

theorem sync_keeps_status_wf_witness:
  "\<exists>s. writes_status fx_lib (sc_patch ''processing'') s \<and> status_wf s \<and> st_ObservedGeneration s = 1"
proof -
  let ?E = "sc_env ''processing'' ''pending''" and ?t = "snd (sync fx_lib (sc_env ''processing'' ''pending'') fx_rc ''ns/web'' [])"
  have E: "retry_contract (e_RetryOnConflict ?E)" "opens_well ?E"
    by (simp_all add: retry_contract_run opens_well_def sc_order_def acme_status_names)
  have run: "sync fx_lib ?E fx_rc ''ns/web'' [] = (Inr (), [] @ ?t)"
    by (simp add: sc_sync_pending)
  have wf: "status_wf (sc_status ''processing'')"
    by (simp add: status_wf_def sc_status_def zero_Status_def acme_status_names in_int64_def int64_min_def int64_max_def)
  have e: "sc_patch ''processing'' \<in> set ?t" "stores_status (sc_patch ''processing'')"
    by (simp_all add: sc_sync_pending sc_patch_def)
  from sync_keeps_status_wf [OF E run sc_load sc_getStatus wf e] show ?thesis
    by (simp add: sc_patch_def)
qed

end
