(* ===== verification/Controller_Run.thy ===== *)
theory Controller_Run
  imports Effects
begin

text \<open>
  Start and shutdown of the controllers (\<^verbatim>\<open>Run\<close> of \<^verbatim>\<open>RouteController\<close> and of \<^verbatim>\<open>AccountController\<close>): one main
  goroutine and the goroutines of the workers, as a step relation. The main goroutine is the list of what it has
  still to do. A worker goroutine is \<^verbatim>\<open>wait.UntilWithContext(ctx, run, time.Second)\<close>: it calls its
  worker loop again and again until the context is done. A worker loop, once started, is left when its queue is shut down (that it
  then does return is shown for the loops themselves in \<open>Work_Queue\<close>).
\<close>

section \<open>Definitions\<close>

datatype main_op =
    WaitForNamedCacheSync
  | Go queue_name
  | AwaitDone
  | ShutDown queue_name
  | WgWait

datatype worker_phase = Idle | Working | Exited

record run_state =
  rs_main :: "main_op list"
  rs_done :: bool
  rs_synced :: bool
  rs_shut :: "queue_name set"
  rs_wg :: nat
  rs_workers :: "(queue_name \<times> worker_phase) list"

text \<open>The statements of the two \<^verbatim>\<open>Run\<close> and what they defer, in the order in which it runs.\<close>

definition route_Run :: "nat \<Rightarrow> main_op list" where
  "route_Run workers =
     WaitForNamedCacheSync # replicate workers (Go RouteQueue) @ replicate workers (Go RouteToSecretQueue) @ [AwaitDone]"

definition route_Run_deferred :: "main_op list" where
  "route_Run_deferred = [ShutDown RouteQueue, ShutDown RouteToSecretQueue, WgWait]"

definition account_Run :: "nat \<Rightarrow> main_op list" where
  "account_Run workers = WaitForNamedCacheSync # replicate workers (Go AccountQueue) @ [AwaitDone]"

definition account_Run_deferred :: "main_op list" where
  "account_Run_deferred = [ShutDown AccountQueue, WgWait, ShutDown AccountQueue]"

definition run_start :: "main_op list \<Rightarrow> main_op list \<Rightarrow> run_state" where
  "run_start body deferred =
     \<lparr>rs_main = body @ deferred, rs_done = False, rs_synced = False, rs_shut = {}, rs_wg = 0, rs_workers = []\<rparr>"

definition set_phase :: "nat \<Rightarrow> worker_phase \<Rightarrow> run_state \<Rightarrow> run_state" where
  "set_phase i p s = s\<lparr>rs_workers := (rs_workers s)[i := (fst (rs_workers s ! i), p)]\<rparr>"

inductive run_step :: "main_op list \<Rightarrow> run_state \<Rightarrow> run_state \<Rightarrow> bool" for deferred where
  cancel: "\<not> rs_done s \<Longrightarrow> run_step deferred s (s\<lparr>rs_done := True\<rparr>)"
| synced: "rs_main s = WaitForNamedCacheSync # p \<Longrightarrow> run_step deferred s (s\<lparr>rs_main := p, rs_synced := True\<rparr>)"
| not_synced: "rs_main s = WaitForNamedCacheSync # p \<Longrightarrow> rs_done s \<Longrightarrow> run_step deferred s (s\<lparr>rs_main := deferred\<rparr>)"
| spawn: "rs_main s = Go q # p \<Longrightarrow>
    run_step deferred s (s\<lparr>rs_main := p, rs_wg := rs_wg s + 1, rs_workers := rs_workers s @ [(q, Idle)]\<rparr>)"
| context_done: "rs_main s = AwaitDone # p \<Longrightarrow> rs_done s \<Longrightarrow> run_step deferred s (s\<lparr>rs_main := p\<rparr>)"
| shut_down: "rs_main s = ShutDown q # p \<Longrightarrow> run_step deferred s (s\<lparr>rs_main := p, rs_shut := insert q (rs_shut s)\<rparr>)"
| wait: "rs_main s = WgWait # p \<Longrightarrow> rs_wg s = 0 \<Longrightarrow> run_step deferred s (s\<lparr>rs_main := p\<rparr>)"
| worker_start: "i < length (rs_workers s) \<Longrightarrow> snd (rs_workers s ! i) = Idle \<Longrightarrow> \<not> rs_done s \<Longrightarrow>
    run_step deferred s (set_phase i Working s)"
| worker_quit: "i < length (rs_workers s) \<Longrightarrow> snd (rs_workers s ! i) = Working \<Longrightarrow>
    fst (rs_workers s ! i) \<in> rs_shut s \<Longrightarrow> run_step deferred s (set_phase i Idle s)"
| worker_exit: "i < length (rs_workers s) \<Longrightarrow> snd (rs_workers s ! i) = Idle \<Longrightarrow> rs_done s \<Longrightarrow>
    run_step deferred s ((set_phase i Exited s)\<lparr>rs_wg := rs_wg s - 1\<rparr>)"

inductive_cases run_stepE: "run_step deferred s s'"

definition run_reachable :: "main_op list \<Rightarrow> main_op list \<Rightarrow> run_state \<Rightarrow> bool" where
  "run_reachable body deferred s \<longleftrightarrow> (run_step deferred)\<^sup>*\<^sup>* (run_start body deferred) s"

section \<open>The protocol of a Run\<close>

definition live :: "(queue_name \<times> worker_phase) list \<Rightarrow> nat" where
  "live ws = length (filter (\<lambda>w. snd w \<noteq> Exited) ws)"

fun op_weight :: "main_op \<Rightarrow> nat" where
  "op_weight (Go q) = 2"
| "op_weight _ = 1"

fun phase_weight :: "worker_phase \<Rightarrow> nat" where
  "phase_weight Exited = 0"
| "phase_weight Idle = 1"
| "phase_weight Working = 2"

text \<open>The number of steps that are left once the context is done.\<close>

definition work_left :: "run_state \<Rightarrow> nat" where
  "work_left s = sum_list (map op_weight (rs_main s)) + sum_list (map (\<lambda>w. phase_weight (snd w)) (rs_workers s))"

lemma live_simps [simp]:
  "live [] = 0" "live (ws @ [(q, Idle)]) = Suc (live ws)"
  by (simp_all add: live_def)

lemma live_update:
  "i < length ws \<Longrightarrow> snd (ws ! i) \<noteq> Exited \<Longrightarrow>
    live (ws[i := (q, p)]) = (if p = Exited then live ws - 1 else live ws)"
proof (induction ws arbitrary: i)
  case (Cons w ws)
  have "0 < live ws" if "j < length ws" "snd (ws ! j) \<noteq> Exited" for j
    using that by (auto simp: live_def length_greater_0_conv filter_empty_conv)
  with Cons show ?case by (cases i) (auto simp: live_def)
qed simp

lemma weight_update:
  "i < length ws \<Longrightarrow>
    sum_list (map (\<lambda>w. phase_weight (snd w)) (ws[i := (q, p)])) + phase_weight (snd (ws ! i)) =
      sum_list (map (\<lambda>w. phase_weight (snd w)) ws) + phase_weight p"
  by (induction ws arbitrary: i) (auto split: nat.splits)

lemma in_set_updE: "w \<in> set (ws[i := v]) \<Longrightarrow> (w = v \<Longrightarrow> P) \<Longrightarrow> (w \<in> set ws \<Longrightarrow> P) \<Longrightarrow> P"
  using set_update_subset_insert by fastforce

lemma map_fst_update [simp]: "i < length ws \<Longrightarrow> (map fst ws)[i := fst (ws ! i)] = map fst ws"
  by (simp add: list_update_same_conv)

lemma set_phase_sel [simp]:
  "rs_main (set_phase i p s) = rs_main s" "rs_done (set_phase i p s) = rs_done s" "rs_synced (set_phase i p s) = rs_synced s"
  "rs_shut (set_phase i p s) = rs_shut s" "rs_wg (set_phase i p s) = rs_wg s"
  "rs_workers (set_phase i p s) = (rs_workers s)[i := (fst (rs_workers s ! i), p)]"
  by (simp_all add: set_phase_def)

text \<open>
  What the two programs have in common: the body waits for the caches, then spawns, then waits for the context; what is
  deferred shuts the queue of every worker down before it waits for the workers.
\<close>

locale controller_run =
  fixes body :: "nat \<Rightarrow> main_op list"
    and deferred :: "main_op list"
    and queues :: "nat \<Rightarrow> queue_name list"
    and first_shut :: "queue_name list"
    and last_shut :: "queue_name list"
  assumes body_shape: "body n = WaitForNamedCacheSync # map Go (queues n) @ [AwaitDone]"
    and deferred_shape: "deferred = map ShutDown first_shut @ WgWait # map ShutDown last_shut"
    and all_shut: "set (queues n) \<subseteq> set first_shut"
begin

definition syncing :: "nat \<Rightarrow> run_state \<Rightarrow> bool" where
  "syncing n s \<longleftrightarrow> rs_main s = body n @ deferred \<and> rs_workers s = [] \<and> rs_shut s = {}"

definition serving :: "nat \<Rightarrow> run_state \<Rightarrow> bool" where
  "serving n s \<longleftrightarrow> rs_synced s \<and> rs_shut s = {} \<and>
     (\<exists>rest. rs_main s = map Go rest @ AwaitDone # deferred \<and> map fst (rs_workers s) @ rest = queues n)"

definition stopping :: "nat \<Rightarrow> run_state \<Rightarrow> bool" where
  "stopping n s \<longleftrightarrow> rs_done s \<and> set (map fst (rs_workers s)) \<subseteq> set (queues n) \<and> (rs_workers s \<noteq> [] \<longrightarrow> rs_synced s) \<and>
     (\<exists>rest. rs_main s = map ShutDown rest @ WgWait # map ShutDown last_shut \<and> set first_shut \<subseteq> rs_shut s \<union> set rest)"

definition ending :: "nat \<Rightarrow> run_state \<Rightarrow> bool" where
  "ending n s \<longleftrightarrow> rs_done s \<and> set (map fst (rs_workers s)) \<subseteq> set (queues n) \<and> (rs_workers s \<noteq> [] \<longrightarrow> rs_synced s) \<and>
     rs_wg s = 0 \<and> set first_shut \<subseteq> rs_shut s \<and> (\<exists>rest. rs_main s = map ShutDown rest)"

definition inv :: "nat \<Rightarrow> run_state \<Rightarrow> bool" where
  "inv n s \<longleftrightarrow> rs_wg s = live (rs_workers s) \<and> (\<forall>w \<in> set (rs_workers s). snd w = Exited \<longrightarrow> rs_done s) \<and>
     (syncing n s \<or> serving n s \<or> stopping n s \<or> ending n s)"

lemmas stage_defs = syncing_def serving_def stopping_def ending_def

lemma inv_start: "inv n (run_start (body n) deferred)"
  by (simp add: inv_def syncing_def run_start_def)

lemma inv_step:
  assumes "run_step deferred s s'" and "inv n s"
  shows "inv n s'"
  using assms(1)
proof (cases rule: run_step.cases)
  case cancel
  with assms(2) show ?thesis
    unfolding inv_def stage_defs
    by (auto)
next
  case (synced p)
  with assms(2) show ?thesis
    unfolding inv_def stage_defs
    by (auto simp: body_shape deferred_shape Cons_eq_append_conv map_eq_Cons_conv)
next
  case (not_synced p)
  with assms(2) show ?thesis
    unfolding inv_def stage_defs
    by (auto simp: body_shape deferred_shape Cons_eq_append_conv map_eq_Cons_conv)
next
  case (spawn q p)
  with assms(2) show ?thesis
    unfolding inv_def stage_defs
    by (auto simp: body_shape deferred_shape Cons_eq_append_conv map_eq_Cons_conv)
next
  case (context_done p)
  with assms(2) show ?thesis
    unfolding inv_def stage_defs
    by (auto simp: body_shape deferred_shape Cons_eq_append_conv map_eq_Cons_conv simp del: set_map)
next
  case (shut_down q p)
  with assms(2) show ?thesis
    unfolding inv_def stage_defs
    by (auto simp: body_shape deferred_shape Cons_eq_append_conv map_eq_Cons_conv)
next
  case (wait p)
  with assms(2) show ?thesis
    unfolding inv_def stage_defs
    by (auto simp: body_shape deferred_shape Cons_eq_append_conv map_eq_Cons_conv)
next
  case (worker_start i)
  with assms(2) show ?thesis
    unfolding inv_def stage_defs
    by (auto simp: live_update map_update nth_mem elim!: in_set_updE)
next
  case (worker_quit i)
  with assms(2) show ?thesis
    unfolding inv_def stage_defs
    by (auto simp: live_update map_update nth_mem elim!: in_set_updE)
next
  case (worker_exit i)
  with assms(2) show ?thesis
    unfolding inv_def stage_defs
    by (auto simp: live_update map_update nth_mem elim!: in_set_updE)
qed

lemma inv_reachable: "run_reachable (body n) deferred s \<Longrightarrow> inv n s"
  unfolding run_reachable_def by (induction rule: rtranclp_induct) (auto intro: inv_start inv_step)

lemma live_zero: "live ws = 0 \<Longrightarrow> w \<in> set ws \<Longrightarrow> snd w = Exited"
  by (auto simp: live_def filter_empty_conv)

text \<open>When \<^verbatim>\<open>Run\<close> returns, the context is done, the queues are shut down and no worker is left.\<close>

lemma returned:
  assumes "run_reachable (body n) deferred s" and "rs_main s = []"
  shows "rs_done s \<and> set first_shut \<subseteq> rs_shut s \<and> (\<forall>w \<in> set (rs_workers s). snd w = Exited)"
  using inv_reachable [OF assms(1)] assms(2) all_shut [of n] live_zero
  unfolding inv_def stage_defs by (auto simp: body_shape)

text \<open>No worker is started before the caches are synced, and there is at most one goroutine per spawn.\<close>

lemma workers_synced:
  assumes "run_reachable (body n) deferred s" and "rs_workers s \<noteq> []"
  shows "rs_synced s"
  using inv_reachable [OF assms(1)] assms(2) unfolding inv_def stage_defs by auto

text \<open>Once the context is done, each step brings the end nearer, and there is a step as long as it is not reached.\<close>

lemma decreases:
  assumes "run_reachable (body n) deferred s" and "rs_done s" and "run_step deferred s s'"
  shows "work_left s' < work_left s"
  using assms(3)
proof (cases rule: run_step.cases)
  case (not_synced p)
  with inv_reachable [OF assms(1)] show ?thesis
    unfolding inv_def stage_defs
    by (auto simp: work_left_def body_shape deferred_shape Cons_eq_append_conv map_eq_Cons_conv)
next
  case (worker_quit i)
  then show ?thesis
    using weight_update [of i "rs_workers s" "fst (rs_workers s ! i)" Idle] by (simp add: work_left_def)
next
  case (worker_exit i)
  then show ?thesis
    using weight_update [of i "rs_workers s" "fst (rs_workers s ! i)" Exited] by (simp add: work_left_def)
qed (use assms(2) in \<open>auto simp: work_left_def\<close>)

lemma live_worker: "live ws \<noteq> 0 \<Longrightarrow> \<exists>i < length ws. snd (ws ! i) \<noteq> Exited"
  by (force simp: live_def filter_empty_conv in_set_conv_nth)

lemma progress:
  assumes "run_reachable (body n) deferred s" and "rs_done s" and "rs_main s \<noteq> []"
  shows "\<exists>s'. run_step deferred s s'"
proof (cases "\<exists>p. rs_main s = WgWait # p \<and> rs_wg s \<noteq> 0")
  case True
  then obtain p i where p: "rs_main s = WgWait # p" and i: "i < length (rs_workers s)" "snd (rs_workers s ! i) \<noteq> Exited"
    using inv_reachable [OF assms(1)] live_worker unfolding inv_def by metis
  show ?thesis
  proof (cases "snd (rs_workers s ! i)")
    case Idle
    with i assms(2) show ?thesis by (blast intro: run_step.worker_exit)
  next
    case Working
    have "fst ` set (rs_workers s) \<subseteq> set (queues n) \<and> set first_shut \<subseteq> rs_shut s"
      using inv_reachable [OF assms(1)] p unfolding inv_def stage_defs
      by (auto simp: body_shape Cons_eq_append_conv map_eq_Cons_conv)
    then have "fst ` set (rs_workers s) \<subseteq> rs_shut s"
      using all_shut [of n] by blast
    with i(1) have "fst (rs_workers s ! i) \<in> rs_shut s"
      by (auto dest: nth_mem)
    with i Working show ?thesis by (blast intro: run_step.worker_quit)
  qed (use i in simp)
next
  case False
  with assms(2,3) show ?thesis
    by (cases "rs_main s"; cases "hd (rs_main s)") (auto intro: run_step.intros)
qed

text \<open>So \<^verbatim>\<open>Run\<close> returns at the latest after \<open>work_left\<close> further steps, however they are interleaved.\<close>

lemma reachable_step: "run_reachable b d s \<Longrightarrow> run_step d s s' \<Longrightarrow> run_reachable b d s'"
  unfolding run_reachable_def by simp

lemma done_stays: "run_step d s s' \<Longrightarrow> rs_done s \<Longrightarrow> rs_done s'"
  by (erule run_step.cases) auto

lemma terminates:
  assumes "run_reachable (body n) deferred s" and "rs_done s"
  shows "\<exists>s'. (run_step deferred)\<^sup>*\<^sup>* s s' \<and> rs_main s' = []"
  using assms
proof (induction "work_left s" arbitrary: s rule: less_induct)
  case less
  show ?case
  proof (cases "rs_main s = []")
    case False
    then obtain s1 where s1: "run_step deferred s s1"
      using progress less.prems by blast
    then have "work_left s1 < work_left s"
      using decreases less.prems by blast
    from less.hyps [OF this] obtain s' where "(run_step deferred)\<^sup>*\<^sup>* s1 s'" "rs_main s' = []"
      using reachable_step [OF less.prems(1) s1] done_stays [OF s1 less.prems(2)] by blast
    with s1 show ?thesis by (meson converse_rtranclp_into_rtranclp)
  qed blast
qed

end

section \<open>The two controllers\<close>

interpretation rr: controller_run route_Run route_Run_deferred
  "\<lambda>n. replicate n RouteQueue @ replicate n RouteToSecretQueue" "[RouteQueue, RouteToSecretQueue]" "[]"
  by unfold_locales (auto simp: route_Run_def route_Run_deferred_def)

interpretation ar: controller_run account_Run account_Run_deferred "\<lambda>n. replicate n AccountQueue" "[AccountQueue]" "[AccountQueue]"
  by unfold_locales (auto simp: account_Run_def account_Run_deferred_def)

text \<open>
  C12: the route controller shuts down cleanly. From any state its goroutines can be in when the context is done, \<^verbatim>\<open>Run\<close> is never
  stuck before it returns, whatever the number of workers, and every step (of any goroutine) brings the return
  nearer; when it has returned, both queues are shut down and every worker goroutine has ended. No worker is started
  before the caches are synced.
\<close>

theorem route_Run_shuts_down:
  assumes "run_reachable (route_Run n) route_Run_deferred s"
  shows "(rs_workers s \<noteq> [] \<longrightarrow> rs_synced s) \<and>
    (rs_done s \<longrightarrow> rs_main s \<noteq> [] \<longrightarrow> (\<exists>s'. run_step route_Run_deferred s s')) \<and>
    (rs_done s \<longrightarrow> (\<forall>s'. run_step route_Run_deferred s s' \<longrightarrow> work_left s' < work_left s)) \<and>
    (rs_main s = [] \<longrightarrow> rs_done s \<and> {RouteQueue, RouteToSecretQueue} \<subseteq> rs_shut s \<and>
      (\<forall>w \<in> set (rs_workers s). snd w = Exited))"
  using rr.workers_synced [OF assms] rr.progress [OF assms] rr.decreases [OF assms] rr.returned [OF assms] by simp

theorem route_Run_shuts_down_witness:
  "\<exists>s. rs_done s \<and> rs_workers s = [(RouteQueue, Working)] \<and> (\<exists>s'. run_step route_Run_deferred s s')"
proof -
  let ?s0 = "run_start (route_Run 1) route_Run_deferred"
  let ?s1 = "?s0\<lparr>rs_main := Go RouteQueue # Go RouteToSecretQueue # AwaitDone # route_Run_deferred, rs_synced := True\<rparr>"
  let ?s2 = "?s1\<lparr>rs_main := Go RouteToSecretQueue # AwaitDone # route_Run_deferred, rs_wg := 1, rs_workers := [(RouteQueue, Idle)]\<rparr>"
  let ?s3 = "?s2\<lparr>rs_workers := [(RouteQueue, Working)]\<rparr>"
  let ?s4 = "?s3\<lparr>rs_done := True\<rparr>"
  have "run_step route_Run_deferred ?s0 ?s1"
    using run_step.synced [of ?s0 "Go RouteQueue # Go RouteToSecretQueue # AwaitDone # route_Run_deferred" route_Run_deferred]
    by (simp add: run_start_def route_Run_def)
  moreover have "run_step route_Run_deferred ?s1 ?s2"
    using run_step.spawn [of ?s1 RouteQueue "Go RouteToSecretQueue # AwaitDone # route_Run_deferred" route_Run_deferred]
    by (simp add: run_start_def)
  moreover have "run_step route_Run_deferred ?s2 ?s3"
    using run_step.worker_start [of 0 ?s2 route_Run_deferred] by (simp add: run_start_def set_phase_def)
  moreover have "run_step route_Run_deferred ?s3 ?s4"
    using run_step.cancel [of ?s3 route_Run_deferred] by (simp add: run_start_def)
  ultimately have "run_reachable (route_Run 1) route_Run_deferred ?s4"
    unfolding run_reachable_def by (meson rtranclp.rtrancl_into_rtrancl rtranclp.rtrancl_refl)
  from route_Run_shuts_down [OF this] show ?thesis
    by (intro exI [of _ ?s4]) (simp add: run_start_def)
qed

text \<open>
  The account controller shuts down cleanly too: with the context done \<^verbatim>\<open>Run\<close> can always go on to its return, and when
  it has returned, its queue is shut down and every worker goroutine has ended.
\<close>

theorem account_Run_shuts_down:
  assumes "run_reachable (account_Run n) account_Run_deferred s"
  shows "(rs_done s \<longrightarrow> (\<exists>s'. (run_step account_Run_deferred)\<^sup>*\<^sup>* s s' \<and> rs_main s' = [])) \<and>
    (rs_main s = [] \<longrightarrow> rs_done s \<and> AccountQueue \<in> rs_shut s \<and> (\<forall>w \<in> set (rs_workers s). snd w = Exited))"
  using ar.terminates [OF assms] ar.returned [OF assms] by simp

theorem account_Run_shuts_down_witness:
  "\<exists>s'. (run_step account_Run_deferred)\<^sup>*\<^sup>* ((run_start (account_Run 2) account_Run_deferred)\<lparr>rs_done := True\<rparr>) s' \<and> rs_main s' = []"
proof -
  let ?s0 = "run_start (account_Run 2) account_Run_deferred"
  have "run_reachable (account_Run 2) account_Run_deferred (?s0\<lparr>rs_done := True\<rparr>)"
    unfolding run_reachable_def using run_step.cancel [of ?s0 account_Run_deferred] by (simp add: run_start_def r_into_rtranclp)
  from account_Run_shuts_down [OF this] show ?thesis
    by simp
qed

end
