(* ===== verification/Profile_Transport.thy ===== *)
theory Profile_Transport
  imports Fixture
begin

text \<open>
  The HTTP transport that adds a certificate profile to new ACME orders (\<^verbatim>\<open>acmeProfileRoundTripper\<close> and
  \<^verbatim>\<open>rewriteNewOrderJWSWithProfile\<close>, \<^verbatim>\<open>pkg/controller/route/route.go\<close>). Base64 is modelled byte for byte; JSON texts are
  decoded and encoded by the functions of \<open>jose\<close>, which also signs; the transport below is the function
  \<open>base\<close>, which may answer differently at every call.
\<close>

section \<open>Base64\<close>

text \<open>\<^verbatim>\<open>base64.RawURLEncoding\<close>: the URL alphabet without padding; the decoder skips line ends.\<close>

definition b64_char :: "nat \<Rightarrow> char" where
  "b64_char n =
     (if n < 26 then char_of (65 + n) else if n < 52 then char_of (97 + (n - 26))
      else if n < 62 then char_of (48 + (n - 52)) else if n = 62 then CHR ''-'' else CHR ''_'')"

definition b64_value :: "char \<Rightarrow> nat option" where
  "b64_value c =
     (let n = (of_char c :: nat) in
      if 65 \<le> n \<and> n \<le> 90 then Some (n - 65) else if 97 \<le> n \<and> n \<le> 122 then Some (n - 97 + 26)
      else if 48 \<le> n \<and> n \<le> 57 then Some (n - 48 + 52)
      else if c = CHR ''-'' then Some 62 else if c = CHR ''_'' then Some 63 else None)"

fun b64_encode :: "nat list \<Rightarrow> nat list" where
  "b64_encode [] = []"
| "b64_encode [a] = [a div 4, a mod 4 * 16]"
| "b64_encode [a, b] = [a div 4, a mod 4 * 16 + b div 16, b mod 16 * 4]"
| "b64_encode (a # b # c # xs) =
     [a div 4, a mod 4 * 16 + b div 16, b mod 16 * 4 + c div 64, c mod 64] @ b64_encode xs"

fun b64_decode :: "nat list \<Rightarrow> nat list option" where
  "b64_decode [] = Some []"
| "b64_decode [p] = None"
| "b64_decode [p, q] = Some [p * 4 + q div 16]"
| "b64_decode [p, q, r] = Some [p * 4 + q div 16, q mod 16 * 16 + r div 4]"
| "b64_decode (p # q # r # s # xs) =
     map_option (\<lambda>ys. [p * 4 + q div 16, q mod 16 * 16 + r div 4, r mod 4 * 64 + s] @ ys) (b64_decode xs)"

fun those_values :: "nat option list \<Rightarrow> nat list option" where
  "those_values [] = Some []"
| "those_values (None # xs) = None"
| "those_values (Some n # xs) = map_option ((#) n) (those_values xs)"

definition RawURL_EncodeToString :: "string \<Rightarrow> string" where
  "RawURL_EncodeToString s = map b64_char (b64_encode (map of_char s))"

definition RawURL_DecodeString :: "string \<Rightarrow> string option" where
  "RawURL_DecodeString s =
     (case those_values (map b64_value (filter (\<lambda>c. c \<noteq> CHR 0x0A \<and> c \<noteq> CHR 0x0D) s)) of
        None \<Rightarrow> None
      | Some vs \<Rightarrow> map_option (map char_of) (b64_decode vs))"

lemma b64_value_char: "n < 64 \<Longrightarrow> b64_value (b64_char n) = Some n"
  by (auto simp: b64_char_def b64_value_def Let_def)

lemma b64_char_no_line_end: "b64_char n \<noteq> CHR 0x0A" "b64_char n \<noteq> CHR 0x0D"
proof -
  have "of_char (b64_char n) \<noteq> (10 :: nat) \<and> of_char (b64_char n) \<noteq> (13 :: nat)"
    by (auto simp: b64_char_def)
  then show "b64_char n \<noteq> CHR 0x0A" "b64_char n \<noteq> CHR 0x0D"
    by auto
qed

lemma b64_encode_bound: "list_all (\<lambda>n. n < 256) xs \<Longrightarrow> list_all (\<lambda>n. n < 64) (b64_encode xs)"
  by (induction xs rule: b64_encode.induct) (auto simp: less_mult_imp_div_less)

lemma b64_decode_encode: "list_all (\<lambda>n. n < 256) xs \<Longrightarrow> b64_decode (b64_encode xs) = Some xs"
  by (induction xs rule: b64_encode.induct) auto

lemma those_values_chars: "list_all (\<lambda>n. n < 64) vs \<Longrightarrow> those_values (map (\<lambda>n. b64_value (b64_char n)) vs) = Some vs"
  by (induction vs) (auto simp: b64_value_char)

lemma RawURL_roundtrip: "RawURL_DecodeString (RawURL_EncodeToString s) = Some s"
proof -
  let ?xs = "map of_char s :: nat list"
  have xs: "list_all (\<lambda>n. n < 256) ?xs"
    by (auto simp: list_all_iff)
  have "filter (\<lambda>c. c \<noteq> CHR 0x0A \<and> c \<noteq> CHR 0x0D) (map b64_char (b64_encode ?xs)) = map b64_char (b64_encode ?xs)"
    by (auto simp: filter_id_conv b64_char_no_line_end)
  then show ?thesis
    using b64_decode_encode [OF xs] those_values_chars [OF b64_encode_bound [OF xs]]
    by (simp add: RawURL_DecodeString_def RawURL_EncodeToString_def o_def map_idI)
qed

section \<open>Definitions\<close>

datatype json = JNull | JBool bool | JNumber string | JString string | JArray "json list" | JObject "(string \<times> json) list"

type_synonym claims = "string \<rightharpoonup> json"

record JWS =
  jws_Protected :: string
  jws_Payload :: string
  jws_Signature :: string

record Directory =
  dir_NewOrder :: string
  dir_Profiles :: "(string \<times> string) list"

text \<open>
  \<^verbatim>\<open>json.Unmarshal\<close> and \<^verbatim>\<open>json.Marshal\<close> at the types in use, and \<^verbatim>\<open>crypto.Signer\<close>. Claims decode to
  \<open>Some None\<close> when the text is \<^verbatim>\<open>null\<close>, which leaves the map nil.
\<close>

record jose =
  j_UnmarshalDirectory :: "string \<Rightarrow> Directory option"
  j_UnmarshalJWS :: "string \<Rightarrow> JWS option"
  j_MarshalJWS :: "JWS \<Rightarrow> string option"
  j_UnmarshalClaims :: "string \<Rightarrow> claims option option"
  j_MarshalClaims :: "claims \<Rightarrow> string option"
  j_Sign :: "PrivateKey \<Rightarrow> 8 word list \<Rightarrow> string option"

text \<open>A body is what can be read of it and whether reading it ends in an error; \<open>None\<close> is a nil body.\<close>

type_synonym body = "(string \<times> bool) option"

record HttpRequest =
  rq_Method :: string
  rq_URL :: string
  rq_Body :: body
  rq_ContentLength :: int

record RtResponse =
  rsp_StatusCode :: int
  rsp_Body :: body

record acmeProfileRoundTripper =
  art_profile :: string
  art_key :: PrivateKey
  art_orderURL :: string

definition acmeHTTPClientWithProfile :: "string \<Rightarrow> PrivateKey \<Rightarrow> acmeProfileRoundTripper" where
  "acmeHTTPClientWithProfile profile key = \<lparr>art_profile = profile, art_key = key, art_orderURL = []\<rparr>"

definition rewriteNewOrderJWSWithProfile :: "lib \<Rightarrow> jose \<Rightarrow> string \<Rightarrow> string \<Rightarrow> PrivateKey \<Rightarrow> gerror + string" where
  "rewriteNewOrderJWSWithProfile L J jwsBytes profile key =
     (case j_UnmarshalJWS J jwsBytes of
        None \<Rightarrow> Inl (Wrapf ''acme: can't decode newOrder JWS'' (LibErr ''json.Unmarshal''))
      | Some jws \<Rightarrow>
          if jws_Payload jws = [] then Inr jwsBytes
          else case RawURL_DecodeString (jws_Payload jws) of
            None \<Rightarrow> Inl (Wrapf ''acme: can't decode newOrder JWS payload'' (LibErr ''base64''))
          | Some payloadJSON \<Rightarrow>
              (case j_UnmarshalClaims J payloadJSON of
                 None \<Rightarrow> Inl (Wrapf ''acme: can't unmarshal newOrder claims'' (LibErr ''json.Unmarshal''))
               | Some None \<Rightarrow> Inl (Panic ''assignment to entry in nil map'')
               | Some (Some claims) \<Rightarrow>
                   (case j_MarshalClaims J (claims(''profile'' \<mapsto> JString profile)) of
                      None \<Rightarrow> Inl (Wrapf ''acme: can't marshal newOrder claims with profile'' (LibErr ''json.Marshal''))
                    | Some newPayloadJSON \<Rightarrow>
                        (let payload = RawURL_EncodeToString newPayloadJSON;
                             signingInput = jws_Protected jws @ ''.'' @ payload
                         in case j_Sign J key (l_sha256 L signingInput) of
                              None \<Rightarrow> Inl (Wrapf ''acme: can't sign newOrder JWS with profile'' (LibErr ''Sign''))
                            | Some sig \<Rightarrow>
                                (case j_MarshalJWS J (jws\<lparr>jws_Payload := payload, jws_Signature := RawURL_EncodeToString sig\<rparr>) of
                                   None \<Rightarrow> Inl (LibErr ''json.Marshal'')
                                 | Some out \<Rightarrow> Inr out)))))"

text \<open>The answer to a GET: a directory must advertise the profile, and its order URL is remembered.\<close>

definition checkDirectory :: "jose \<Rightarrow> acmeProfileRoundTripper \<Rightarrow> string \<Rightarrow> gerror + acmeProfileRoundTripper" where
  "checkDirectory J rt bodyBytes =
     (case j_UnmarshalDirectory J bodyBytes of
        None \<Rightarrow> Inr rt
      | Some dir \<Rightarrow>
          if dir_NewOrder dir = [] then Inr rt
          else if dir_Profiles dir = []
          then Inl (Errorf ''acme: certificate authority does not advertise support for profiles'')
          else if map_of (dir_Profiles dir) (art_profile rt) = None
          then Inl (Errorf ''acme: certificate authority does not advertise profile'')
          else Inr (rt\<lparr>art_orderURL := dir_NewOrder dir\<rparr>))"

text \<open>\<open>RoundTrip\<close> yields the result, the transport afterwards and the requests it handed to \<open>base\<close>.\<close>

definition RoundTrip ::
  "lib \<Rightarrow> jose \<Rightarrow> (HttpRequest \<Rightarrow> gerror + RtResponse) \<Rightarrow> acmeProfileRoundTripper \<Rightarrow> HttpRequest \<Rightarrow>
    (gerror + RtResponse) \<times> acmeProfileRoundTripper \<times> HttpRequest list" where
  "RoundTrip L J base rt req =
     (if rq_Method req = ''GET''
      then (case base req of
              Inl err \<Rightarrow> (Inl err, rt, [req])
            | Inr resp \<Rightarrow>
                (case rsp_Body resp of
                   None \<Rightarrow> (Inr resp, rt, [req])
                 | Some (bodyBytes, readErr) \<Rightarrow>
                     if rsp_StatusCode resp \<noteq> 200 then (Inr resp, rt, [req])
                     else (let resp' = resp\<lparr>rsp_Body := Some (bodyBytes, False)\<rparr> in
                       if readErr then (Inr resp', rt, [req])
                       else case checkDirectory J rt bodyBytes of
                         Inl err \<Rightarrow> (Inl err, rt, [req])
                       | Inr rt' \<Rightarrow> (Inr resp', rt', [req]))))
      else if rq_Method req = ''POST'' \<and> art_orderURL rt \<noteq> [] \<and> rq_URL req = art_orderURL rt
      then (case rq_Body req of
              None \<Rightarrow> (base req, rt, [req])
            | Some (bodyBytes, readErr) \<Rightarrow>
                if readErr then (Inl (LibErr ''io.ReadAll''), rt, [])
                else case rewriteNewOrderJWSWithProfile L J bodyBytes (art_profile rt) (art_key rt) of
                  Inl err \<Rightarrow> (Inl err, rt, [])
                | Inr rewritten \<Rightarrow>
                    (let req' = req\<lparr>rq_Body := Some (rewritten, False), rq_ContentLength := int (length rewritten)\<rparr>
                     in (base req', rt, [req'])))
      else (base req, rt, [req]))"

text \<open>A client that sends a series of requests, with the answers of \<open>base\<close> at each of them.\<close>

fun session ::
  "lib \<Rightarrow> jose \<Rightarrow> acmeProfileRoundTripper \<Rightarrow> (HttpRequest \<times> (HttpRequest \<Rightarrow> gerror + RtResponse)) list \<Rightarrow>
    acmeProfileRoundTripper \<times> HttpRequest list" where
  "session L J rt [] = (rt, [])"
| "session L J rt ((req, base) # rest) =
     (case RoundTrip L J base rt req of
        (_, rt1, sent) \<Rightarrow> (case session L J rt1 rest of (rt2, later) \<Rightarrow> (rt2, sent @ later)))"

section \<open>Lemmas\<close>

text \<open>What JSON documents: a text that was encoded from a value decodes to it.\<close>

definition json_roundtrip :: "jose \<Rightarrow> bool" where
  "json_roundtrip J \<longleftrightarrow>
     (\<forall>jws s. j_MarshalJWS J jws = Some s \<longrightarrow> j_UnmarshalJWS J s = Some jws) \<and>
     (\<forall>cl s. j_MarshalClaims J cl = Some s \<longrightarrow> j_UnmarshalClaims J s = Some (Some cl))"

text \<open>The claims of a JWS.\<close>

definition jws_claims :: "jose \<Rightarrow> JWS \<Rightarrow> claims option" where
  "jws_claims J jws =
     (case RawURL_DecodeString (jws_Payload jws) of
        None \<Rightarrow> None
      | Some s \<Rightarrow> (case j_UnmarshalClaims J s of Some (Some cl) \<Rightarrow> Some cl | _ \<Rightarrow> None))"

text \<open>A request that was answered by a directory which advertises the profile and announces the order URL.\<close>

definition announces :: "jose \<Rightarrow> string \<Rightarrow> string \<Rightarrow> HttpRequest \<times> (HttpRequest \<Rightarrow> gerror + RtResponse) \<Rightarrow> bool" where
  "announces J profile url step \<longleftrightarrow>
     (\<exists>resp bs dir. rq_Method (fst step) = ''GET'' \<and> snd step (fst step) = Inr resp \<and> rsp_StatusCode resp = 200 \<and>
        rsp_Body resp = Some (bs, False) \<and> j_UnmarshalDirectory J bs = Some dir \<and> dir_NewOrder dir = url \<and>
        map_of (dir_Profiles dir) profile \<noteq> None)"

definition carries_profile :: "jose \<Rightarrow> string \<Rightarrow> HttpRequest \<Rightarrow> bool" where
  "carries_profile J profile r \<longleftrightarrow>
     (\<exists>b jws cl. rq_Body r = Some (b, False) \<and> j_UnmarshalJWS J b = Some jws \<and>
        jws_claims J jws = Some cl \<and> cl ''profile'' = Some (JString profile))"

lemma rewrite_cases:
  assumes "j_UnmarshalJWS J body = Some jws" and "jws_Payload jws \<noteq> []"
    and "rewriteNewOrderJWSWithProfile L J body profile key = Inr out"
  obtains claims newPayload sig where "jws_claims J jws = Some claims"
    "j_MarshalClaims J (claims(''profile'' \<mapsto> JString profile)) = Some newPayload"
    "j_Sign J key (l_sha256 L (jws_Protected jws @ ''.'' @ RawURL_EncodeToString newPayload)) = Some sig"
    "j_MarshalJWS J (jws\<lparr>jws_Payload := RawURL_EncodeToString newPayload, jws_Signature := RawURL_EncodeToString sig\<rparr>) = Some out"
proof -
  have "\<exists>claims newPayload sig. jws_claims J jws = Some claims \<and>
    j_MarshalClaims J (claims(''profile'' \<mapsto> JString profile)) = Some newPayload \<and>
    j_Sign J key (l_sha256 L (jws_Protected jws @ ''.'' @ RawURL_EncodeToString newPayload)) = Some sig \<and>
    j_MarshalJWS J (jws\<lparr>jws_Payload := RawURL_EncodeToString newPayload, jws_Signature := RawURL_EncodeToString sig\<rparr>) = Some out"
    using assms by (auto simp: rewriteNewOrderJWSWithProfile_def jws_claims_def Let_def split: option.splits)
  with that show thesis by blast
qed

lemma rewrite_result:
  assumes "json_roundtrip J" and "j_UnmarshalJWS J body = Some jws" and "jws_Payload jws \<noteq> []"
    and "rewriteNewOrderJWSWithProfile L J body profile key = Inr out"
  obtains jws' claims sig where "j_UnmarshalJWS J out = Some jws'" "jws_Protected jws' = jws_Protected jws"
    "jws_claims J jws = Some claims" "jws_claims J jws' = Some (claims(''profile'' \<mapsto> JString profile))"
    "j_Sign J key (l_sha256 L (jws_Protected jws' @ ''.'' @ jws_Payload jws')) = Some sig"
    "RawURL_DecodeString (jws_Signature jws') = Some sig"
  using assms(2-4)
proof (cases rule: rewrite_cases)
  case (1 claims newPayload sig)
  let ?jws = "jws\<lparr>jws_Payload := RawURL_EncodeToString newPayload, jws_Signature := RawURL_EncodeToString sig\<rparr>"
  have "j_UnmarshalJWS J out = Some ?jws" "j_UnmarshalClaims J newPayload = Some (Some (claims(''profile'' \<mapsto> JString profile)))"
    using 1 assms(1) by (simp_all add: json_roundtrip_def)
  with 1 show thesis
    by (intro that [of ?jws claims sig]) (simp_all add: jws_claims_def RawURL_roundtrip)
qed

text \<open>The transport only changes by learning an announced order URL.\<close>

lemma RoundTrip_state:
  assumes "RoundTrip L J base rt req = (res, rt', sent)"
  shows "rt' = rt \<or> (\<exists>url. announces J (art_profile rt) url (req, base) \<and> rt' = rt\<lparr>art_orderURL := url\<rparr>)"
  using assms
  by (auto simp: RoundTrip_def checkDirectory_def announces_def Let_def split: if_splits sum.splits option.splits)

lemma session_state:
  assumes "session L J rt steps = (rt', sent)"
  shows "art_profile rt' = art_profile rt \<and> art_key rt' = art_key rt \<and>
    (art_orderURL rt' = art_orderURL rt \<or> (\<exists>step \<in> set steps. announces J (art_profile rt) (art_orderURL rt') step))"
  using assms
proof (induction steps arbitrary: rt sent)
  case (Cons step steps)
  obtain req base where step: "step = (req, base)"
    by fastforce
  obtain res rt1 sent1 where r: "RoundTrip L J base rt req = (res, rt1, sent1)"
    by (metis prod_cases3)
  obtain sent2 where s: "session L J rt1 steps = (rt', sent2)"
    using Cons.prems step r by (auto split: prod.splits)
  from RoundTrip_state [OF r] Cons.IH [OF s] show ?case
    by (auto simp: step)
qed simp

lemma RoundTrip_new_order:
  assumes "json_roundtrip J" and "RoundTrip L J base rt req = (res, rt', sent)" and "r \<in> set sent"
    and "rq_Method r = ''POST''" and "art_orderURL rt \<noteq> []" and "rq_URL r = art_orderURL rt"
    and "rq_Body req = Some (b, e)" and "j_UnmarshalJWS J b = Some jws" and "jws_Payload jws \<noteq> []"
  shows "carries_profile J (art_profile rt) r"
proof -
  have "rq_Method req = ''POST''" and "rq_URL req = art_orderURL rt"
    using assms(2-6) by (auto simp: RoundTrip_def Let_def split: if_splits sum.splits option.splits prod.splits)
  then obtain out where out: "rewriteNewOrderJWSWithProfile L J b (art_profile rt) (art_key rt) = Inr out"
      "rq_Body r = Some (out, False)"
    using assms(2,3,5,7) by (auto simp: RoundTrip_def Let_def split: if_splits sum.splits)
  from assms(1,8,9) out(1) show ?thesis
  proof (cases rule: rewrite_result)
    case (1 jws' claims sig)
    with out(2) show ?thesis
      by (auto simp: carries_profile_def)
  qed
qed

text \<open>Concrete encodings for the witnesses: parts are preceded by their length, claims are a domain and a profile.\<close>

definition fx_unpack :: "string \<Rightarrow> string \<times> string" where
  "fx_unpack s = (let n = length (takeWhile (\<lambda>c. c = CHR ''1'') s) in (take n (drop (Suc n) s), drop n (drop (Suc n) s)))"

definition fx_pack :: "string \<Rightarrow> string \<Rightarrow> string" where
  "fx_pack a b = replicate (length a) CHR ''1'' @ ''0'' @ a @ b"

definition fx_claims :: "string \<Rightarrow> claims" where
  "fx_claims s =
     (case Cut CHR '':'' s of
        (d, p, found) \<Rightarrow> if found then [''identifiers'' \<mapsto> JString d, ''profile'' \<mapsto> JString p] else [''identifiers'' \<mapsto> JString s])"

definition fx_MarshalClaims :: "claims \<Rightarrow> string option" where
  "fx_MarshalClaims cl =
     (case (cl ''identifiers'', cl ''profile'') of
        (Some (JString d), Some (JString p)) \<Rightarrow> if fx_claims (d @ '':'' @ p) = cl then Some (d @ '':'' @ p) else None
      | _ \<Rightarrow> None)"

definition fx_jose :: jose where
  "fx_jose =
     \<lparr>j_UnmarshalDirectory = (\<lambda>s. Some \<lparr>dir_NewOrder = s, dir_Profiles = [(''classic'', []), (''shortlived'', [])]\<rparr>),
      j_UnmarshalJWS = (\<lambda>s. case fx_unpack s of (a, bc) \<Rightarrow> (case fx_unpack bc of (b, c) \<Rightarrow>
        Some \<lparr>jws_Protected = a, jws_Payload = b, jws_Signature = c\<rparr>)),
      j_MarshalJWS = (\<lambda>j. Some (fx_pack (jws_Protected j) (fx_pack (jws_Payload j) (jws_Signature j)))),
      j_UnmarshalClaims = (\<lambda>s. Some (Some (fx_claims s))),
      j_MarshalClaims = fx_MarshalClaims,
      j_Sign = (\<lambda>k d. Some k)\<rparr>"

lemma takeWhile_ones: "takeWhile (\<lambda>c. c = CHR ''1'') (replicate n CHR ''1'' @ CHR ''0'' # xs) = replicate n CHR ''1''"
  by (induction n) auto

lemma fx_unpack_pack: "fx_unpack (fx_pack a b) = (a, b)"
  by (simp add: fx_unpack_def fx_pack_def Let_def takeWhile_ones)

lemma fx_json_roundtrip: "json_roundtrip fx_jose"
  by (auto simp: json_roundtrip_def fx_jose_def fx_unpack_pack fx_MarshalClaims_def split: option.splits json.splits if_splits)

section \<open>Properties\<close>

text \<open>
  C32: rewriting a new order adds the profile and nothing else: the result is a JWS with the protected header of the
  original, whose claims are the original ones with \<^verbatim>\<open>profile\<close> set, and whose signature is the one of the account key over the
  SHA-256 digest of exactly the header and the payload it carries. It relies on JSON texts decoding to what was
  encoded; base64 is shown to.
\<close>

theorem rewriteNewOrder_adds_profile:
  assumes "json_roundtrip J" and "j_UnmarshalJWS J body = Some jws" and "jws_Payload jws \<noteq> []"
    and "rewriteNewOrderJWSWithProfile L J body profile key = Inr out"
  shows "\<exists>jws' claims sig. j_UnmarshalJWS J out = Some jws' \<and> jws_Protected jws' = jws_Protected jws \<and>
    jws_claims J jws = Some claims \<and> jws_claims J jws' = Some (claims(''profile'' \<mapsto> JString profile)) \<and>
    j_Sign J key (l_sha256 L (jws_Protected jws' @ ''.'' @ jws_Payload jws')) = Some sig \<and>
    RawURL_DecodeString (jws_Signature jws') = Some sig"
  using assms by (cases rule: rewrite_result) blast

text \<open>An order for the domain \<open>d\<close>, as a client without profiles writes it, and its rewriting.\<close>

definition fx_order :: JWS where
  "fx_order = \<lparr>jws_Protected = ''h'', jws_Payload = RawURL_EncodeToString ''d'', jws_Signature = ''s''\<rparr>"

definition fx_order_text :: string where
  "fx_order_text = fx_pack (jws_Protected fx_order) (fx_pack (jws_Payload fx_order) (jws_Signature fx_order))"

definition fx_profile_order :: JWS where
  "fx_profile_order = \<lparr>jws_Protected = ''h'', jws_Payload = RawURL_EncodeToString ''d:shortlived'', jws_Signature = RawURL_EncodeToString ''key''\<rparr>"

definition fx_profile_text :: string where
  "fx_profile_text = fx_pack (jws_Protected fx_profile_order) (fx_pack (jws_Payload fx_profile_order) (jws_Signature fx_profile_order))"

lemma fx_order_decodes: "j_UnmarshalJWS fx_jose fx_order_text = Some fx_order"
  by (simp add: fx_jose_def fx_order_text_def fx_unpack_pack)

lemma fx_order_payload: "jws_Payload fx_order \<noteq> []"
  by (simp add: fx_order_def RawURL_EncodeToString_def)

lemma fx_rewrite:
  "rewriteNewOrderJWSWithProfile fx_lib fx_jose fx_order_text ''shortlived'' ''key'' = Inr fx_profile_text"
proof -
  have cl: "fx_MarshalClaims ((fx_claims ''d'')(''profile'' \<mapsto> JString ''shortlived'')) = Some ''d:shortlived''"
    by (simp add: fx_MarshalClaims_def fx_claims_def Cut_def)
  have dec: "RawURL_DecodeString (jws_Payload fx_order) = Some ''d''"
    by (simp add: fx_order_def RawURL_roundtrip)
  show ?thesis
    unfolding rewriteNewOrderJWSWithProfile_def
    using fx_order_payload by (simp add: fx_order_decodes dec, simp add: fx_jose_def cl fx_profile_text_def fx_profile_order_def fx_order_def)
qed

theorem rewriteNewOrder_adds_profile_witness:
  "\<exists>jws' claims. j_UnmarshalJWS fx_jose fx_profile_text = Some jws' \<and> jws_Protected jws' = ''h'' \<and>
    jws_claims fx_jose fx_order = Some claims \<and> jws_claims fx_jose jws' = Some (claims(''profile'' \<mapsto> JString ''shortlived''))"
  using rewriteNewOrder_adds_profile [OF fx_json_roundtrip fx_order_decodes fx_order_payload fx_rewrite]
  by (auto simp: fx_order_def)

text \<open>
  C17: a client made for a profile never opens an order without it. Whatever it sends and whatever it is answered, the order URL
  it remembers was announced by a directory that advertises the profile; and once it remembers one, every request with
  signed claims that it lets through to that URL carries the profile.
\<close>

theorem session_orders_carry_profile:
  assumes "json_roundtrip J" and "session L J (acmeHTTPClientWithProfile profile key) steps = (rt, sent)" and "art_orderURL rt \<noteq> []"
  shows "(\<exists>step \<in> set steps. announces J profile (art_orderURL rt) step) \<and>
    (\<forall>req base res rt' sent' r b e jws. RoundTrip L J base rt req = (res, rt', sent') \<longrightarrow> r \<in> set sent' \<longrightarrow>
       rq_Method r = ''POST'' \<longrightarrow> rq_URL r = art_orderURL rt \<longrightarrow> rq_Body req = Some (b, e) \<longrightarrow>
       j_UnmarshalJWS J b = Some jws \<longrightarrow> jws_Payload jws \<noteq> [] \<longrightarrow> carries_profile J profile r)"
proof
  have p: "art_profile rt = profile" and u: "\<exists>step \<in> set steps. announces J profile (art_orderURL rt) step"
    using session_state [OF assms(2)] assms(3) by (auto simp: acmeHTTPClientWithProfile_def)
  from u show "\<exists>step \<in> set steps. announces J profile (art_orderURL rt) step" .
  show "\<forall>req base res rt' sent' r b e jws. RoundTrip L J base rt req = (res, rt', sent') \<longrightarrow> r \<in> set sent' \<longrightarrow>
       rq_Method r = ''POST'' \<longrightarrow> rq_URL r = art_orderURL rt \<longrightarrow> rq_Body req = Some (b, e) \<longrightarrow>
       j_UnmarshalJWS J b = Some jws \<longrightarrow> jws_Payload jws \<noteq> [] \<longrightarrow> carries_profile J profile r"
    using RoundTrip_new_order [OF assms(1) _ _ _ assms(3)] p by blast
qed

theorem session_orders_carry_profile_witness:
  "\<exists>rt. session fx_lib fx_jose (acmeHTTPClientWithProfile ''shortlived'' ''key'')
      [(\<lparr>rq_Method = ''GET'', rq_URL = ''dir'', rq_Body = None, rq_ContentLength = 0\<rparr>,
        (\<lambda>r. Inr \<lparr>rsp_StatusCode = 200, rsp_Body = Some (''order'', False)\<rparr>))] =
      (rt, [\<lparr>rq_Method = ''GET'', rq_URL = ''dir'', rq_Body = None, rq_ContentLength = 0\<rparr>]) \<and>
    art_orderURL rt = ''order'' \<and>
    (\<forall>base res rt' sent' r. RoundTrip fx_lib fx_jose base rt
        \<lparr>rq_Method = ''POST'', rq_URL = ''order'', rq_Body = Some (fx_order_text, False), rq_ContentLength = 5\<rparr> = (res, rt', sent') \<longrightarrow>
      r \<in> set sent' \<longrightarrow> rq_Method r = ''POST'' \<longrightarrow> rq_URL r = ''order'' \<longrightarrow> carries_profile fx_jose ''shortlived'' r)"
proof -
  let ?get = "\<lparr>rq_Method = ''GET'', rq_URL = ''dir'', rq_Body = None, rq_ContentLength = 0\<rparr>"
  let ?steps = "[(?get, \<lambda>r. Inr \<lparr>rsp_StatusCode = 200, rsp_Body = Some (''order'', False)\<rparr>)]"
  let ?rt = "\<lparr>art_profile = ''shortlived'', art_key = ''key'', art_orderURL = ''order''\<rparr>"
  have s: "session fx_lib fx_jose (acmeHTTPClientWithProfile ''shortlived'' ''key'') ?steps = (?rt, [?get])"
    by (simp add: RoundTrip_def checkDirectory_def fx_jose_def acmeHTTPClientWithProfile_def)
  have u: "art_orderURL ?rt \<noteq> []"
    by simp
  have "carries_profile fx_jose ''shortlived'' r"
    if "RoundTrip fx_lib fx_jose base ?rt
        \<lparr>rq_Method = ''POST'', rq_URL = ''order'', rq_Body = Some (fx_order_text, False), rq_ContentLength = 5\<rparr> = (res, rt', sent')"
      and "r \<in> set sent'" and "rq_Method r = ''POST''" and "rq_URL r = ''order''" for base res rt' sent' r
    using session_orders_carry_profile [OF fx_json_roundtrip s u, THEN conjunct2, rule_format, OF that(1,2,3), of fx_order_text False fx_order]
      that(4) fx_order_decodes fx_order_payload by simp
  with s show ?thesis
    by (intro exI [of _ ?rt]) (simp del: session.simps)
qed

text \<open>
  Everything else passes through as it is: a request that is no POST to the order URL is handed on unchanged, exactly once, and its
  answer is returned unchanged, except that a directory without the profile is refused with an error and leaves no order URL
  behind.
\<close>

theorem RoundTrip_transparent:
  assumes "rq_Method req \<noteq> ''POST'' \<or> art_orderURL rt = [] \<or> rq_URL req \<noteq> art_orderURL rt"
    and "\<forall>resp. base req = Inr resp \<longrightarrow> (\<forall>bs. rsp_Body resp \<noteq> Some (bs, True))"
  shows "snd (snd (RoundTrip L J base rt req)) = [req] \<and>
    (fst (RoundTrip L J base rt req) = base req \<or>
     (\<exists>resp bs dir err. rq_Method req = ''GET'' \<and> base req = Inr resp \<and> rsp_Body resp = Some (bs, False) \<and>
       j_UnmarshalDirectory J bs = Some dir \<and> dir_NewOrder dir \<noteq> [] \<and> map_of (dir_Profiles dir) (art_profile rt) = None \<and>
       RoundTrip L J base rt req = (Inl err, rt, [req])))"
  using assms
  by (auto simp: RoundTrip_def checkDirectory_def Let_def split: sum.splits option.splits)

theorem RoundTrip_transparent_witness:
  "\<exists>err. RoundTrip fx_lib fx_jose (\<lambda>r. Inr \<lparr>rsp_StatusCode = 200, rsp_Body = Some (''order'', False)\<rparr>)
      (acmeHTTPClientWithProfile ''tlsserver'' ''key'') \<lparr>rq_Method = ''GET'', rq_URL = ''dir'', rq_Body = None, rq_ContentLength = 0\<rparr> =
    (Inl err, acmeHTTPClientWithProfile ''tlsserver'' ''key'', [\<lparr>rq_Method = ''GET'', rq_URL = ''dir'', rq_Body = None, rq_ContentLength = 0\<rparr>])"
  using RoundTrip_transparent [of "\<lparr>rq_Method = ''GET'', rq_URL = ''dir'', rq_Body = None, rq_ContentLength = 0\<rparr>"
      "acmeHTTPClientWithProfile ''tlsserver'' ''key''" "\<lambda>r. Inr \<lparr>rsp_StatusCode = 200, rsp_Body = Some (''order'', False)\<rparr>" fx_lib fx_jose]
  by (auto simp: RoundTrip_def checkDirectory_def fx_jose_def acmeHTTPClientWithProfile_def)

end
