(* ===== verification/Cmd_Options.thy ===== *)
theory Cmd_Options
  imports Account "HOL-Library.List_Lexorder"
begin

text \<open>
  The command line of the controller: flags and their environment variables (\<^verbatim>\<open>pkg/cmd/util/helpers.go\<close>) and the options
  of \<^verbatim>\<open>pkg/cmd/openshift-acme-controller\<close> up to the construction of the two controllers. The \<^verbatim>\<open>Set\<close>
  method of a flag value (pflag), the validation of namespace names, the client configurations and the file
  system are parameters.
\<close>

section \<open>Flags\<close>

record 'v flag =
  fl_Name :: string
  fl_Value :: 'v
  fl_Changed :: bool

definition NormalizeNameForEnvVar :: "string \<Rightarrow> string" where
  "NormalizeNameForEnvVar name = ReplaceChar (ToUpper name) CHR ''-'' CHR ''_''"

definition flags_Lookup :: "'v flag list \<Rightarrow> string \<Rightarrow> 'v flag option" where
  "flags_Lookup flags name = find (\<lambda>f. fl_Name f = name) flags"

text \<open>A flag is a pointer: storing into it changes the flag of that name.\<close>

definition store_flag :: "'v flag \<Rightarrow> 'v flag list \<Rightarrow> 'v flag list" where
  "store_flag f flags = map (\<lambda>g. if fl_Name g = fl_Name f then f else g) flags"

text \<open>\<open>setValue n x v\<close> is \<^verbatim>\<open>f.Value.Set(v)\<close> of the flag \<open>n\<close> with value \<open>x\<close>: the value afterwards and whether there was no
  error. The body of the loop of \<^verbatim>\<open>ReadFlagsFromEnv\<close>:\<close>

definition read_entry ::
  "(string \<Rightarrow> 'v \<Rightarrow> string \<Rightarrow> 'v \<times> bool) \<Rightarrow> string \<Rightarrow> string \<Rightarrow> 'v flag list \<times> string list \<Rightarrow> 'v flag list \<times> string list" where
  "read_entry setValue envPrefix entry st =
     (case Cut CHR ''='' entry of
        (envVarName, v, ok) \<Rightarrow>
          if \<not> ok \<or> \<not> HasPrefix envVarName envPrefix then st
          else
            let rawName = ToLower (TrimPrefix envVarName envPrefix);
                found = (case flags_Lookup (fst st) (ReplaceChar rawName CHR ''_'' CHR ''-'') of
                           None \<Rightarrow> flags_Lookup (fst st) rawName | Some f \<Rightarrow> Some f)
            in case found of
                 None \<Rightarrow> st
               | Some f \<Rightarrow>
                   if NormalizeNameForEnvVar (envPrefix @ fl_Name f) \<noteq> envVarName then st
                   else if fl_Changed f then st
                   else (case setValue (fl_Name f) (fl_Value f) v of
                           (x, parsed) \<Rightarrow>
                             if \<not> parsed then (store_flag (f\<lparr>fl_Value := x\<rparr>) (fst st), snd st @ [envVarName])
                             else (store_flag (f\<lparr>fl_Value := x, fl_Changed := True\<rparr>) (fst st), snd st)))"

text \<open>The errors are aggregated; there is an error when the list is not empty.\<close>

definition ReadFlagsFromEnv ::
  "(string \<Rightarrow> 'v \<Rightarrow> string \<Rightarrow> 'v \<times> bool) \<Rightarrow> string \<Rightarrow> string list \<Rightarrow> 'v flag list \<Rightarrow> 'v flag list \<times> string list" where
  "ReadFlagsFromEnv setValue envPrefix environ flags = fold (read_entry setValue envPrefix) (sort environ) (flags, [])"

text \<open>\<open>goFlags\<close> are the flags of \<^verbatim>\<open>flag.CommandLine\<close>; the log level is the value of its flag \<^verbatim>\<open>v\<close>.\<close>

definition FlagLogLevelKey :: string where
  "FlagLogLevelKey = ''loglevel''"

definition InstallKlog :: "'v flag list \<Rightarrow> 'v flag list \<Rightarrow> gerror + 'v flag list" where
  "InstallKlog goFlags flags =
     (case flags_Lookup goFlags ''v'' of
        None \<Rightarrow> Inl (Panic ''nil flag'')
      | Some level \<Rightarrow>
          (let flags1 = flags @ [\<lparr>fl_Name = FlagLogLevelKey, fl_Value = fl_Value level, fl_Changed = False\<rparr>]
           in Inr (if flags_Lookup flags1 ''v'' = None
                   then flags1 @ [\<lparr>fl_Name = ''v'', fl_Value = fl_Value level, fl_Changed = False\<rparr>]
                   else flags1)))"

text \<open>\<open>show\<close> is \<^verbatim>\<open>String\<close> of a flag value; \<open>msg\<close> is the message, already formatted.\<close>

definition GetLoglevel :: "('v \<Rightarrow> string) \<Rightarrow> 'v flag list \<Rightarrow> string" where
  "GetLoglevel show goFlags = (case flags_Lookup goFlags ''v'' of Some f \<Rightarrow> show (fl_Value f) | None \<Rightarrow> [])"

definition UsageError :: "string \<Rightarrow> string \<Rightarrow> gerror" where
  "UsageError commandPath msg =
     Errorf (msg @ [CHR 0x0A] @ ''See '' @ [CHR 0x27] @ commandPath @ '' -h'' @ [CHR 0x27] @ '' for help and examples'')"

section \<open>Options\<close>

definition DefaultExposerImage :: string where
  "DefaultExposerImage = ''ghcr.io/gordon-code/openshift-acme-exposer:latest''"

record Options =
  o_Annotation :: string
  o_Workers :: int
  o_Kubeconfig :: string
  o_ControllerNamespace :: string
  o_LeaderelectionLeaseDuration :: duration
  o_LeaderelectionRenewDeadline :: duration
  o_LeaderelectionRetryPeriod :: duration
  o_CertOrderBackoffInitial :: duration
  o_CertOrderBackoffMax :: duration
  o_CertDefaultRSAKeyBitSize :: int
  o_CertDefaultProfile :: string
  o_Namespaces :: "string list"
  o_AcmeOrderTimeout :: duration
  o_ExposerImage :: string

definition NewOptions :: Options where
  "NewOptions =
     \<lparr>o_Annotation = DefaultTLSAcmeAnnotation, o_Workers = 50, o_Kubeconfig = [], o_ControllerNamespace = [],
      o_LeaderelectionLeaseDuration = 60 * 10 ^ 9, o_LeaderelectionRenewDeadline = 35 * 10 ^ 9,
      o_LeaderelectionRetryPeriod = 10 * 10 ^ 9, o_CertOrderBackoffInitial = 5 * 60 * 10 ^ 9,
      o_CertOrderBackoffMax = 24 * 3600 * 10 ^ 9, o_CertDefaultRSAKeyBitSize = 4096, o_CertDefaultProfile = [],
      o_Namespaces = [NamespaceAll], o_AcmeOrderTimeout = 15 * 60 * 10 ^ 9, o_ExposerImage = DefaultExposerImage\<rparr>"

text \<open>The values a flag of the controller can have, and its flags, in the order of the code.\<close>

datatype flag_value = FString string | FInt int | FDuration duration | FStrings "string list"

definition controller_flag :: "string \<Rightarrow> flag_value \<Rightarrow> flag_value flag" where
  "controller_flag name v = \<lparr>fl_Name = name, fl_Value = v, fl_Changed = False\<rparr>"

definition controller_flags :: "Options \<Rightarrow> flag_value flag list" where
  "controller_flags opts =
     [controller_flag ''annotation'' (FString (o_Annotation opts)),
      controller_flag ''workers'' (FInt (o_Workers opts)),
      controller_flag ''kubeconfig'' (FString (o_Kubeconfig opts)),
      controller_flag ''controller-namespace'' (FString (o_ControllerNamespace opts)),
      controller_flag ''namespace'' (FStrings (o_Namespaces opts)),
      controller_flag ''leaderelection-lease-duration'' (FDuration (o_LeaderelectionLeaseDuration opts)),
      controller_flag ''leaderelection-renew-deadline'' (FDuration (o_LeaderelectionRenewDeadline opts)),
      controller_flag ''leaderelection-retry-period'' (FDuration (o_LeaderelectionRetryPeriod opts)),
      controller_flag ''cert-order-backoff-initial'' (FDuration (o_CertOrderBackoffInitial opts)),
      controller_flag ''cert-order-backoff-max'' (FDuration (o_CertOrderBackoffMax opts)),
      controller_flag ''cert-default-rsa-key-bit-size'' (FInt (o_CertDefaultRSAKeyBitSize opts)),
      controller_flag ''cert-default-profile'' (FString (o_CertDefaultProfile opts)),
      controller_flag ''exposer-image'' (FString (o_ExposerImage opts))]"

text \<open>
  What runs before the command: the flags are read from the environment; the image of the exposer has an older
  variable. \<open>lookupEnv\<close> is \<^verbatim>\<open>os.LookupEnv\<close>.
\<close>

definition PersistentPreRunE ::
  "(string \<Rightarrow> 'v \<Rightarrow> string \<Rightarrow> 'v \<times> bool) \<Rightarrow> (string \<Rightarrow> string option) \<Rightarrow> string list \<Rightarrow> 'v flag list \<Rightarrow>
    'v flag list \<times> gerror option" where
  "PersistentPreRunE setValue lookupEnv environ flags =
     (case ReadFlagsFromEnv setValue ''OPENSHIFT_ACME_CONTROLLER_'' environ flags of
        (flags1, errs) \<Rightarrow>
          if errs \<noteq> [] then (flags1, Some (Errorf ''can't parse env var''))
          else case flags_Lookup flags1 ''exposer-image'' of
            None \<Rightarrow> (flags1, None)
          | Some f \<Rightarrow>
              if fl_Changed f then (flags1, None)
              else (case lookupEnv ''OPENSHIFT_ACME_EXPOSER_IMAGE'' of
                      None \<Rightarrow> (flags1, None)
                    | Some ei \<Rightarrow>
                        if length ei = 0 then (flags1, Some (Errorf ''OPENSHIFT_ACME_EXPOSER_IMAGE contains empty string''))
                        else (case setValue (fl_Name f) (fl_Value f) ei of
                                (x, parsed) \<Rightarrow>
                                  if \<not> parsed then (store_flag (f\<lparr>fl_Value := x\<rparr>) flags1, Some (LibErr ''Set''))
                                  else (store_flag (f\<lparr>fl_Value := x, fl_Changed := True\<rparr>) flags1, None))))"

text \<open>\<open>validName\<close> is \<^verbatim>\<open>kvalidation.ValidateNamespaceName\<close>: its complaints about a name.\<close>

definition Validate :: "(string \<Rightarrow> string list) \<Rightarrow> Options \<Rightarrow> gerror option" where
  "Validate validName opts =
     (let errs = concat (map (\<lambda>ns. if ns = NamespaceAll then []
            else if length (validName ns) > 0 then [''invalid namespace''] else []) (o_Namespaces opts))
      in if length errs > 0 then Some (Errorf ''invalid namespace'')
         else if length (o_ExposerImage opts) = 0 then Some (Errorf ''exposer image not specified'')
         else None)"

text \<open>The loop that drops repeated namespaces; \<open>seen\<close> is the set of the names met so far.\<close>

fun unique_namespaces :: "string list \<Rightarrow> string list \<Rightarrow> string list" where
  "unique_namespaces seen [] = []"
| "unique_namespaces seen (ns # nss) =
     (if ns \<in> set seen then unique_namespaces seen nss else ns # unique_namespaces (ns # seen) nss)"

text \<open>
  What \<^verbatim>\<open>Complete\<close> asks of its surroundings: the client configuration of a kubeconfig file or of the cluster, the namespace file
  of the service account, and whether the two clients can be built.
\<close>

record startup =
  su_ClientConfig :: "string \<Rightarrow> gerror + string"
  su_InClusterConfig :: "gerror + string"
  su_NamespaceFile :: "gerror + string"
  su_kubeClient :: "string \<Rightarrow> gerror option"
  su_routeClient :: "string \<Rightarrow> gerror option"

definition Complete :: "startup \<Rightarrow> Options \<Rightarrow> gerror + Options" where
  "Complete S opts =
     (case (if length (o_Kubeconfig opts) \<noteq> 0 then su_ClientConfig S (o_Kubeconfig opts) else su_InClusterConfig S) of
        Inl err \<Rightarrow> Inl (Wrapf ''can't create config'' err)
      | Inr restConfig \<Rightarrow>
          (case (if length (o_ControllerNamespace opts) = 0 then su_NamespaceFile S else Inr (o_ControllerNamespace opts)) of
             Inl err \<Rightarrow> Inl (Wrapf ''can't autodetect controller namespace'' err)
           | Inr controllerNamespace \<Rightarrow>
               (case su_kubeClient S restConfig of
                  Some err \<Rightarrow> Inl (Wrapf ''can't build kubernetes clientset'' err)
                | None \<Rightarrow>
                    (case su_routeClient S restConfig of
                       Some err \<Rightarrow> Inl (Wrapf ''can't build route clientset'' err)
                     | None \<Rightarrow>
                         Inr (opts\<lparr>o_ControllerNamespace := controllerNamespace,
                           o_Namespaces :=
                             (if length (o_Namespaces opts) = 0 then [NamespaceAll]
                              else unique_namespaces [] (o_Namespaces opts @ [controllerNamespace]))\<rparr>)))))"

text \<open>The part of \<^verbatim>\<open>Run\<close> that builds the controllers.\<close>

definition newControllers ::
  "(informer_kind \<Rightarrow> string \<Rightarrow> bool) \<Rightarrow> Options \<Rightarrow> gerror + AccountController \<times> RouteController" where
  "newControllers registered opts =
     (let kubeInformers = NewKubeInformersForNamespaces (o_Namespaces opts);
          routeInformers = NewRouteInformersForNamespaces (o_Namespaces opts)
      in case NewAccountController registered kubeInformers of
           Inl err \<Rightarrow> Inl err
         | Inr ac \<Rightarrow>
             (case NewRouteController registered (o_Annotation opts) (o_CertOrderBackoffInitial opts) (o_CertOrderBackoffMax opts)
                  (o_CertDefaultRSAKeyBitSize opts) (o_CertDefaultProfile opts) (o_ExposerImage opts)
                  (o_ControllerNamespace opts) kubeInformers routeInformers of
                Inl err \<Rightarrow> Inl err
              | Inr rc \<Rightarrow> Inr (ac, rc)))"

text \<open>The command: validate, complete, run. \<open>run\<close> is what \<^verbatim>\<open>Run\<close> makes of the completed options.\<close>

definition controller_RunE :: "(string \<Rightarrow> string list) \<Rightarrow> startup \<Rightarrow> (Options \<Rightarrow> gerror + 'a) \<Rightarrow> Options \<Rightarrow> gerror + 'a" where
  "controller_RunE validName S run opts =
     (case Validate validName opts of
        Some err \<Rightarrow> Inl err
      | None \<Rightarrow> (case Complete S opts of Inl err \<Rightarrow> Inl err | Inr opts' \<Rightarrow> run opts'))"

section \<open>Lemmas\<close>

definition env_name :: "string \<Rightarrow> string" where
  "env_name entry = fst (Cut CHR ''='' entry)"

definition sets_var :: "string \<Rightarrow> string \<Rightarrow> bool" where
  "sets_var name entry \<longleftrightarrow> CHR ''='' \<in> set entry \<and> env_name entry = name"

lemma flags_Lookup_name: "flags_Lookup flags n = Some f \<Longrightarrow> fl_Name f = n"
  by (auto simp: flags_Lookup_def find_Some_iff)

lemma flags_Lookup_store:
  "flags_Lookup (store_flag f flags) n =
     (if n = fl_Name f \<and> flags_Lookup flags n \<noteq> None then Some f else flags_Lookup flags n)"
  by (induction flags) (auto simp: flags_Lookup_def store_flag_def)

text \<open>The flag an entry is about: its normalised name is the name of the variable.\<close>

definition entry_flag :: "string \<Rightarrow> string \<Rightarrow> 'v flag list \<Rightarrow> 'v flag option" where
  "entry_flag envPrefix envVarName flags =
     (let rawName = ToLower (TrimPrefix envVarName envPrefix) in
      case flags_Lookup flags (ReplaceChar rawName CHR ''_'' CHR ''-'') of
        None \<Rightarrow> flags_Lookup flags rawName | Some f \<Rightarrow> Some f)"

lemma entry_flag_Lookup: "entry_flag p k flags = Some f \<Longrightarrow> flags_Lookup flags (fl_Name f) = Some f"
  by (auto simp: entry_flag_def Let_def split: option.splits) (frule flags_Lookup_name, simp)+

lemma read_entry_eq:
  "read_entry setValue p e st =
     (if CHR ''='' \<notin> set e \<or> \<not> HasPrefix (env_name e) p then st
      else case entry_flag p (env_name e) (fst st) of
        None \<Rightarrow> st
      | Some f \<Rightarrow>
          if NormalizeNameForEnvVar (p @ fl_Name f) \<noteq> env_name e \<or> fl_Changed f then st
          else (case setValue (fl_Name f) (fl_Value f) (fst (snd (Cut CHR ''='' e))) of
                  (x, parsed) \<Rightarrow>
                    if \<not> parsed then (store_flag (f\<lparr>fl_Value := x\<rparr>) (fst st), snd st @ [env_name e])
                    else (store_flag (f\<lparr>fl_Value := x, fl_Changed := True\<rparr>) (fst st), snd st)))"
  unfolding read_entry_def entry_flag_def env_name_def Cut_def Let_def by (auto split: option.splits prod.splits)

text \<open>An entry for another variable leaves a flag alone, and so does any entry when the flag was given on the command line.\<close>

lemma read_entry_other:
  assumes "\<not> sets_var (NormalizeNameForEnvVar (p @ n)) e"
  shows "flags_Lookup (fst (read_entry setValue p e st)) n = flags_Lookup (fst st) n"
  using assms
  by (auto simp: read_entry_eq sets_var_def flags_Lookup_store split: option.splits prod.splits)

lemma read_entry_changed:
  assumes "flags_Lookup (fst st) n = Some f" and "fl_Changed f"
  shows "flags_Lookup (fst (read_entry setValue p e st)) n = Some f"
  using assms
  by (auto simp: read_entry_eq flags_Lookup_store split: option.splits prod.splits dest!: entry_flag_Lookup)

lemma fold_read_other:
  "\<forall>e \<in> set es. \<not> sets_var (NormalizeNameForEnvVar (p @ n)) e \<Longrightarrow>
    flags_Lookup (fst (fold (read_entry setValue p) es st)) n = flags_Lookup (fst st) n"
  by (induction es arbitrary: st) (simp_all add: read_entry_other)

lemma fold_read_changed:
  "flags_Lookup (fst st) n = Some f \<Longrightarrow> fl_Changed f \<Longrightarrow>
    flags_Lookup (fst (fold (read_entry setValue p) es st)) n = Some f"
  by (induction es arbitrary: st) (simp_all add: read_entry_changed)

text \<open>Names of flags that can be recovered from their variable: lower case, without underscores.\<close>

definition env_settable :: "string \<Rightarrow> bool" where
  "env_settable n \<longleftrightarrow> ToLower n = n \<and> CHR ''_'' \<notin> set n \<and> CHR ''='' \<notin> set n"

lemma lower_upper: "lower_char c = c \<Longrightarrow> lower_char (upper_char c) = c"
proof -
  assume "lower_char c = c"
  show ?thesis
  proof (cases "CHR ''a'' \<le> c \<and> c \<le> CHR ''z''")
    case True
    then have b: "97 \<le> (of_char c :: nat)" "of_char c \<le> (122 :: nat)"
      by (simp_all add: less_eq_char_def)
    then have "of_char (upper_char c) = (of_char c - 32 :: nat)"
      using True by (simp add: upper_char_def)
    moreover have "CHR ''A'' \<le> upper_char c" "upper_char c \<le> CHR ''Z''"
      using b calculation by (simp_all add: less_eq_char_def)
    moreover have "(of_char c - 32 + 32 :: nat) = of_char c"
      using b by simp
    ultimately show ?thesis
      by (simp add: lower_char_def)
  next
    case False
    then have "upper_char c = c" by (auto simp: upper_char_def)
    with \<open>lower_char c = c\<close> show ?thesis by simp
  qed
qed

lemma upper_dash: "upper_char c = CHR ''-'' \<Longrightarrow> c = CHR ''-''"
proof (rule ccontr)
  assume d: "upper_char c = CHR ''-''" and "c \<noteq> CHR ''-''"
  then have a: "CHR ''a'' \<le> c \<and> c \<le> CHR ''z''"
    by (auto simp: upper_char_def split: if_splits)
  then have b: "97 \<le> (of_char c :: nat)" "of_char c \<le> (122 :: nat)"
    by (simp_all add: less_eq_char_def)
  with a have "of_char (upper_char c) = (of_char c - 32 :: nat)"
    by (simp add: upper_char_def)
  with b d show False by simp
qed

lemma Normalize_append: "NormalizeNameForEnvVar (p @ n) = NormalizeNameForEnvVar p @ NormalizeNameForEnvVar n"
  by (simp add: NormalizeNameForEnvVar_def ReplaceChar_def ToUpper_def)

lemma Normalize_inverse:
  assumes "env_settable n"
  shows "ReplaceChar (ToLower (NormalizeNameForEnvVar n)) CHR ''_'' CHR ''-'' = n"
proof -
  have "(let d = lower_char (if upper_char c = CHR ''-'' then CHR ''_'' else upper_char c) in
      if d = CHR ''_'' then CHR ''-'' else d) = c" if "c \<in> set n" for c
  proof -
    have c: "lower_char c = c" "c \<noteq> CHR ''_''"
      using assms that map_idI [of n lower_char] by (auto simp: env_settable_def ToLower_def dest: map_eq_imp_length_eq)
        (metis in_set_conv_nth length_map nth_map)
    show ?thesis
    proof (cases "upper_char c = CHR ''-''")
      case True
      then have "c = CHR ''-''" by (rule upper_dash)
      then show ?thesis by (simp add: lower_char_def upper_char_def)
    next
      case False
      with c lower_upper show ?thesis by simp
    qed
  qed
  then show ?thesis
    by (simp add: NormalizeNameForEnvVar_def ReplaceChar_def ToUpper_def ToLower_def Let_def o_def map_idI)
qed

lemma entry_flag_own:
  assumes "env_settable n" and "NormalizeNameForEnvVar p = p" and "flags_Lookup flags n = Some f"
  shows "entry_flag p (NormalizeNameForEnvVar (p @ n)) flags = Some f"
  using assms
  by (simp add: entry_flag_def Normalize_append TrimPrefix_def HasPrefix_def Normalize_inverse)

lemma read_entry_hit:
  assumes "env_settable n" and "NormalizeNameForEnvVar p = p"
    and "flags_Lookup (fst st) n = Some f" and "\<not> fl_Changed f"
    and "sets_var (NormalizeNameForEnvVar (p @ n)) e" and "setValue n (fl_Value f) (fst (snd (Cut CHR ''='' e))) = (x, True)"
  shows "read_entry setValue p e st = (store_flag (f\<lparr>fl_Value := x, fl_Changed := True\<rparr>) (fst st), snd st)"
  using assms entry_flag_own [OF assms(1-3)] flags_Lookup_name [OF assms(3)]
  by (simp add: read_entry_eq sets_var_def Normalize_append HasPrefix_def)

lemma fold_read_hit:
  assumes "env_settable n" and "NormalizeNameForEnvVar p = p"
    and "flags_Lookup (fst st) n = Some f" and "\<not> fl_Changed f"
    and "e \<in> set es" and "\<forall>e' \<in> set es. sets_var (NormalizeNameForEnvVar (p @ n)) e' \<longrightarrow> e' = e"
    and "sets_var (NormalizeNameForEnvVar (p @ n)) e" and "setValue n (fl_Value f) (fst (snd (Cut CHR ''='' e))) = (x, True)"
  shows "flags_Lookup (fst (fold (read_entry setValue p) es st)) n = Some (f\<lparr>fl_Value := x, fl_Changed := True\<rparr>)"
  using assms(3,5,6)
proof (induction es arbitrary: st)
  case (Cons e' es)
  show ?case
  proof (cases "e' = e")
    case True
    let ?f = "f\<lparr>fl_Value := x, fl_Changed := True\<rparr>"
    have "flags_Lookup (fst (read_entry setValue p e' st)) n = Some ?f"
      using read_entry_hit [of n p st f e setValue x] assms(1,2,4,7,8) True flags_Lookup_name [OF Cons.prems(1)] Cons.prems(1)
      by (simp add: flags_Lookup_store)
    then show ?thesis by (simp add: fold_read_changed)
  next
    case False
    then have "flags_Lookup (fst (read_entry setValue p e' st)) n = Some f"
      using read_entry_other Cons.prems by (metis list.set_intros(1))
    with Cons False show ?thesis by simp
  qed
qed simp

lemma unique_namespaces_props:
  "set (unique_namespaces seen nss) = set nss - set seen \<and> distinct (unique_namespaces seen nss)"
  by (induction nss arbitrary: seen) auto

lemma Complete_Namespaces:
  assumes "Complete S opts = Inr opts'"
  shows "distinct (o_Namespaces opts')"
    and "set (o_Namespaces opts') = (if o_Namespaces opts = [] then {NamespaceAll} else insert (o_ControllerNamespace opts') (set (o_Namespaces opts)))"
  using assms unique_namespaces_props [of "[]"]
  by (auto simp: Complete_def split: sum.splits option.splits if_splits)

lemma newControllers_ok:
  assumes "o_Namespaces opts \<noteq> []"
  shows "\<exists>ac rc. newControllers registered opts = Inr (ac, rc) \<and> rc_controllerNamespace rc = o_ControllerNamespace opts \<and>
    rc_kubeInformers rc = NewKubeInformersForNamespaces (o_Namespaces opts) \<and>
    ac_kubeInformers ac = NewKubeInformersForNamespaces (o_Namespaces opts) \<and>
    rc_routeInformers rc = NewRouteInformersForNamespaces (o_Namespaces opts)"
  using assms
  by (simp add: newControllers_def NewAccountController_def NewRouteController_def kube.Namespaces_New route.Namespaces_New Let_def)

section \<open>Properties\<close>

text \<open>
  The environment fills in the flags that the command line left open. A flag that was given on the command line keeps its value,
  whatever the environment holds; any other flag takes the value of the one variable that is its name in
  upper case with underscores, after the prefix, and is untouched when there is no such variable.
\<close>

theorem ReadFlagsFromEnv_flag:
  assumes "env_settable n" and "NormalizeNameForEnvVar envPrefix = envPrefix" and "flags_Lookup flags n = Some f"
  shows "(fl_Changed f \<longrightarrow> flags_Lookup (fst (ReadFlagsFromEnv setValue envPrefix environ flags)) n = Some f) \<and>
    ((\<forall>e \<in> set environ. \<not> sets_var (NormalizeNameForEnvVar (envPrefix @ n)) e) \<longrightarrow>
       flags_Lookup (fst (ReadFlagsFromEnv setValue envPrefix environ flags)) n = Some f) \<and>
    (\<forall>e x. \<not> fl_Changed f \<longrightarrow> e \<in> set environ \<longrightarrow> sets_var (NormalizeNameForEnvVar (envPrefix @ n)) e \<longrightarrow>
       (\<forall>e' \<in> set environ. sets_var (NormalizeNameForEnvVar (envPrefix @ n)) e' \<longrightarrow> e' = e) \<longrightarrow>
       setValue n (fl_Value f) (fst (snd (Cut CHR ''='' e))) = (x, True) \<longrightarrow>
       flags_Lookup (fst (ReadFlagsFromEnv setValue envPrefix environ flags)) n = Some (f\<lparr>fl_Value := x, fl_Changed := True\<rparr>))"
proof (intro conjI impI allI)
  show "flags_Lookup (fst (ReadFlagsFromEnv setValue envPrefix environ flags)) n = Some f" if "fl_Changed f"
    using assms(3) that unfolding ReadFlagsFromEnv_def by (simp add: fold_read_changed)
next
  assume "\<forall>e \<in> set environ. \<not> sets_var (NormalizeNameForEnvVar (envPrefix @ n)) e"
  with assms(3) show "flags_Lookup (fst (ReadFlagsFromEnv setValue envPrefix environ flags)) n = Some f"
    unfolding ReadFlagsFromEnv_def by (simp add: fold_read_other)
next
  fix e x
  assume e: "\<not> fl_Changed f" "e \<in> set environ" "sets_var (NormalizeNameForEnvVar (envPrefix @ n)) e"
    and unique: "\<forall>e' \<in> set environ. sets_var (NormalizeNameForEnvVar (envPrefix @ n)) e' \<longrightarrow> e' = e"
    and x: "setValue n (fl_Value f) (fst (snd (Cut CHR ''='' e))) = (x, True)"
  have "flags_Lookup (fst (flags, [] :: string list)) n = Some f" "e \<in> set (sort environ)"
    using assms(3) e(2) by simp_all
  from fold_read_hit [OF assms(1,2) this(1) e(1) this(2) _ e(3), where setValue = setValue, OF _ x] unique
  show "flags_Lookup (fst (ReadFlagsFromEnv setValue envPrefix environ flags)) n = Some (f\<lparr>fl_Value := x, fl_Changed := True\<rparr>)"
    unfolding ReadFlagsFromEnv_def set_sort by blast
qed

theorem ReadFlagsFromEnv_flag_witness:
  "flags_Lookup (fst (ReadFlagsFromEnv (\<lambda>n y v. (FString v, True)) ''OPENSHIFT_ACME_CONTROLLER_''
      [''HOME=/'', ''OPENSHIFT_ACME_CONTROLLER_EXPOSER_IMAGE=img''] (controller_flags NewOptions))) ''exposer-image'' =
    Some \<lparr>fl_Name = ''exposer-image'', fl_Value = FString ''img'', fl_Changed = True\<rparr>"
proof -
  let ?f = "controller_flag ''exposer-image'' (FString DefaultExposerImage)"
  have n: "env_settable ''exposer-image''"
    by code_simp
  have p: "NormalizeNameForEnvVar ''OPENSHIFT_ACME_CONTROLLER_'' = ''OPENSHIFT_ACME_CONTROLLER_''"
    by code_simp
  have f: "flags_Lookup (controller_flags NewOptions) ''exposer-image'' = Some ?f"
    by (simp add: flags_Lookup_def controller_flags_def controller_flag_def NewOptions_def)
  have v: "NormalizeNameForEnvVar (''OPENSHIFT_ACME_CONTROLLER_'' @ ''exposer-image'') = ''OPENSHIFT_ACME_CONTROLLER_EXPOSER_IMAGE''"
    by code_simp
  let ?environ = "[''HOME=/'', ''OPENSHIFT_ACME_CONTROLLER_EXPOSER_IMAGE=img'']"
  have "\<not> fl_Changed ?f"
    by (simp add: controller_flag_def)
  moreover have "''OPENSHIFT_ACME_CONTROLLER_EXPOSER_IMAGE=img'' \<in> set ?environ"
    by simp
  moreover have "sets_var ''OPENSHIFT_ACME_CONTROLLER_EXPOSER_IMAGE'' ''OPENSHIFT_ACME_CONTROLLER_EXPOSER_IMAGE=img''"
    "\<not> sets_var ''OPENSHIFT_ACME_CONTROLLER_EXPOSER_IMAGE'' ''HOME=/''"
    by (simp_all add: sets_var_def env_name_def Cut_def)
  moreover have "fst (snd (Cut CHR ''='' ''OPENSHIFT_ACME_CONTROLLER_EXPOSER_IMAGE=img'')) = ''img''"
    by (simp add: Cut_def)
  ultimately have "flags_Lookup (fst (ReadFlagsFromEnv (\<lambda>n y v. (FString v, True)) ''OPENSHIFT_ACME_CONTROLLER_'' ?environ
      (controller_flags NewOptions))) ''exposer-image'' = Some (?f\<lparr>fl_Value := FString ''img'', fl_Changed := True\<rparr>)"
    using ReadFlagsFromEnv_flag [OF n p f, of "\<lambda>n y v. (FString v, True)" ?environ, THEN conjunct2, THEN conjunct2] v
    by (metis empty_iff empty_set set_ConsD)
  then show ?thesis
    by (simp add: controller_flag_def)
qed

text \<open>
  C39: a controller that starts can see what it manages: when the options are valid and completed, the namespaces to watch have no repetition and
  are those that were configured together with the one of the controller (where the global issuers are), and the two
  controllers are built without a panic, with informers for each of these namespaces. So no pass over an object of them runs
  into a missing informer.
\<close>

theorem controllers_see_their_namespaces:
  assumes "Validate validName opts = None" and "Complete S opts = Inr opts'" and "ns \<in> set (o_Namespaces opts) \<or> ns = o_ControllerNamespace opts'"
  shows "distinct (o_Namespaces opts') \<and>
    (\<exists>ac rc fk fr. controller_RunE validName S (newControllers registered) opts = Inr (ac, rc) \<and> rc_controllerNamespace rc = o_ControllerNamespace opts' \<and>
      kube_InformersForOrGlobal (rc_kubeInformers rc) ns = Some fk \<and> kube_InformersForOrGlobal (ac_kubeInformers ac) ns = Some fk \<and>
      fac_Namespace fk \<in> {ns, NamespaceAll} \<and>
      route_InformersForOrGlobal (rc_routeInformers rc) ns = Some fr \<and> fac_Namespace fr \<in> {ns, NamespaceAll})"
proof -
  let ?nss = "o_Namespaces opts'"
  have nss: "ns \<in> set ?nss \<or> NamespaceAll \<in> set ?nss"
    using assms(3) by (cases "o_Namespaces opts = []") (auto simp: Complete_Namespaces(2) [OF assms(2)])
  then have "?nss \<noteq> []"
    by auto
  note nss = nss this
  obtain fk fr where
    "kube_InformersForOrGlobal (NewKubeInformersForNamespaces ?nss) ns = Some fk" "fac_Namespace fk \<in> {ns, NamespaceAll}"
    "route_InformersForOrGlobal (NewRouteInformersForNamespaces ?nss) ns = Some fr" "fac_Namespace fr \<in> {ns, NamespaceAll}"
    using kube.ForOrGlobal_not_nil [OF nss(1)] route.ForOrGlobal_not_nil [OF nss(1)] by auto
  then show ?thesis
    using newControllers_ok [OF nss(2), of registered] Complete_Namespaces(1) [OF assms(2)] assms(1,2)
    by (elim exE conjE) (simp add: controller_RunE_def)
qed

definition fx_startup :: startup where
  "fx_startup = \<lparr>su_ClientConfig = (\<lambda>p. Inr p), su_InClusterConfig = Inr ''cluster'', su_NamespaceFile = Inr ''acme'',
     su_kubeClient = (\<lambda>c. None), su_routeClient = (\<lambda>c. None)\<rparr>"

theorem controllers_see_their_namespaces_witness:
  "\<exists>ac rc fk. controller_RunE (\<lambda>ns. []) fx_startup (newControllers (\<lambda>k ns. True)) (NewOptions\<lparr>o_Namespaces := [''shop'', ''shop'']\<rparr>) = Inr (ac, rc) \<and>
    kube_InformersForOrGlobal (rc_kubeInformers rc) ''acme'' = Some fk \<and> fac_Namespace fk \<in> {''acme'', NamespaceAll}"
proof -
  have c: "Complete fx_startup (NewOptions\<lparr>o_Namespaces := [''shop'', ''shop'']\<rparr>) =
      Inr (NewOptions\<lparr>o_ControllerNamespace := ''acme'', o_Namespaces := [''shop'', ''acme'']\<rparr>)"
    by (simp add: Complete_def fx_startup_def NewOptions_def)
  have v: "Validate (\<lambda>ns. []) (NewOptions\<lparr>o_Namespaces := [''shop'', ''shop'']\<rparr>) = None"
    by (simp add: Validate_def NewOptions_def DefaultExposerImage_def)
  from controllers_see_their_namespaces [OF v c, of "''acme''" "\<lambda>k ns. True"] show ?thesis
    by auto
qed

end
