(* ===== verification/Leader_Run.thy ===== *)
theory Leader_Run
  imports Cmd_Options
begin

text \<open>
  \<^verbatim>\<open>Run\<close> of \<^verbatim>\<open>pkg/cmd/openshift-acme-controller\<close>: the process takes the lease of the leader election, starts the two controllers
  when it has it, and on a signal ends the controllers before it gives the lease up; when the lease is lost, the process is ended. The main
  goroutine, the goroutine that waits for the signal, the elector and the controllers are the processes of a step relation.
  The elector follows the documentation of client-go: \<^verbatim>\<open>OnStartedLeading\<close> is called in a goroutine of its own once the
  lease is acquired, and with \<^verbatim>\<open>ReleaseOnCancel\<close> the lease is released when leading ends, whether its context was cancelled or the lease
  could not be renewed; only after that, as the last thing the elector does, comes \<^verbatim>\<open>OnStoppedLeading\<close>. That a controller returns once its context is done is shown in
  \<open>Controller_Run\<close>.
\<close>

section \<open>Definitions\<close>

datatype leader_pc = Setup | AwaitLeader | StartRoutes | StartAccounts | ServeUntilDone | WaitControllers | WaitElection | Returned

text \<open>\<open>Stopping\<close>: the elector has no lease any more and is about to call \<^verbatim>\<open>OnStoppedLeading\<close>.\<close>

datatype elector = NotStarted | Trying | Leading | Stopping | Ended

text \<open>
  \<open>ls_callback\<close>: the goroutine of \<^verbatim>\<open>OnStartedLeading\<close> has been started; \<open>ls_leChan\<close>: it has closed the channel. \<open>ls_exited\<close>: the process
  has ended by \<^verbatim>\<open>klog.Fatalf\<close>.
\<close>

record leader_state =
  ls_pc :: leader_pc
  ls_stop :: bool
  ls_ctxDone :: bool
  ls_leCtxDone :: bool
  ls_elector :: elector
  ls_lease :: bool
  ls_callback :: bool
  ls_leChan :: bool
  ls_wg :: nat
  ls_exited :: bool

definition leader_start :: leader_state where
  "leader_start =
     \<lparr>ls_pc = Setup, ls_stop = False, ls_ctxDone = False, ls_leCtxDone = False, ls_elector = NotStarted, ls_lease = False,
      ls_callback = False, ls_leChan = False, ls_wg = 0, ls_exited = False\<rparr>"

text \<open>
  \<open>setup_fails\<close> is a \<^verbatim>\<open>return err\<close> before the elector is started: the host name, the lock or the elector could not be made. \<open>lost\<close> and
  \<open>release\<close> are the end of leading, \<open>gives_up\<close> the end without having led; the branches of \<^verbatim>\<open>OnStoppedLeading\<close> are the steps \<open>stopped\<close> and
  \<open>fatal\<close>, taken on what its context is at that moment, and \<open>fail_safe\<close> is the timer that its graceful branch leaves behind. \<open>controllers_ended\<close> and \<open>election_ended\<close> are the deferred function.
\<close>

inductive leader_step :: "leader_state \<Rightarrow> leader_state \<Rightarrow> bool" where
  signal: "\<not> ls_exited s \<Longrightarrow> \<not> ls_stop s \<Longrightarrow> leader_step s (s\<lparr>ls_stop := True\<rparr>)"
| cancel: "\<not> ls_exited s \<Longrightarrow> ls_stop s \<Longrightarrow> \<not> ls_ctxDone s \<Longrightarrow> leader_step s (s\<lparr>ls_ctxDone := True\<rparr>)"
| setup_fails: "\<not> ls_exited s \<Longrightarrow> ls_pc s = Setup \<Longrightarrow> leader_step s (s\<lparr>ls_pc := WaitControllers\<rparr>)"
| set_up: "\<not> ls_exited s \<Longrightarrow> ls_pc s = Setup \<Longrightarrow> leader_step s (s\<lparr>ls_pc := AwaitLeader, ls_elector := Trying\<rparr>)"
| acquire: "\<not> ls_exited s \<Longrightarrow> ls_elector s = Trying \<Longrightarrow>
    leader_step s (s\<lparr>ls_elector := Leading, ls_lease := True, ls_callback := True\<rparr>)"
| started_leading: "\<not> ls_exited s \<Longrightarrow> ls_callback s \<Longrightarrow> \<not> ls_leChan s \<Longrightarrow> leader_step s (s\<lparr>ls_leChan := True\<rparr>)"
| gives_up: "\<not> ls_exited s \<Longrightarrow> ls_elector s = Trying \<Longrightarrow> ls_leCtxDone s \<Longrightarrow> leader_step s (s\<lparr>ls_elector := Stopping\<rparr>)"
| release: "\<not> ls_exited s \<Longrightarrow> ls_elector s = Leading \<Longrightarrow> ls_leCtxDone s \<Longrightarrow>
    leader_step s (s\<lparr>ls_elector := Stopping, ls_lease := False\<rparr>)"
| lost: "\<not> ls_exited s \<Longrightarrow> ls_elector s = Leading \<Longrightarrow> \<not> ls_leCtxDone s \<Longrightarrow>
    leader_step s (s\<lparr>ls_elector := Stopping, ls_lease := False\<rparr>)"
| stopped: "\<not> ls_exited s \<Longrightarrow> ls_elector s = Stopping \<Longrightarrow> ls_leCtxDone s \<Longrightarrow> leader_step s (s\<lparr>ls_elector := Ended\<rparr>)"
| fatal: "\<not> ls_exited s \<Longrightarrow> ls_elector s = Stopping \<Longrightarrow> \<not> ls_leCtxDone s \<Longrightarrow> leader_step s (s\<lparr>ls_exited := True\<rparr>)"
| fail_safe: "\<not> ls_exited s \<Longrightarrow> ls_elector s = Ended \<Longrightarrow> ls_leCtxDone s \<Longrightarrow> leader_step s (s\<lparr>ls_exited := True\<rparr>)"
| acquired: "\<not> ls_exited s \<Longrightarrow> ls_pc s = AwaitLeader \<Longrightarrow> ls_leChan s \<Longrightarrow> leader_step s (s\<lparr>ls_pc := StartRoutes\<rparr>)"
| interrupted: "\<not> ls_exited s \<Longrightarrow> ls_pc s = AwaitLeader \<Longrightarrow> ls_stop s \<Longrightarrow> leader_step s (s\<lparr>ls_pc := WaitControllers\<rparr>)"
| start_routes: "\<not> ls_exited s \<Longrightarrow> ls_pc s = StartRoutes \<Longrightarrow> leader_step s (s\<lparr>ls_pc := StartAccounts, ls_wg := ls_wg s + 1\<rparr>)"
| start_accounts: "\<not> ls_exited s \<Longrightarrow> ls_pc s = StartAccounts \<Longrightarrow> leader_step s (s\<lparr>ls_pc := ServeUntilDone, ls_wg := ls_wg s + 1\<rparr>)"
| served: "\<not> ls_exited s \<Longrightarrow> ls_pc s = ServeUntilDone \<Longrightarrow> ls_ctxDone s \<Longrightarrow> leader_step s (s\<lparr>ls_pc := WaitControllers\<rparr>)"
| controller_ends: "\<not> ls_exited s \<Longrightarrow> 0 < ls_wg s \<Longrightarrow> ls_ctxDone s \<Longrightarrow> leader_step s (s\<lparr>ls_wg := ls_wg s - 1\<rparr>)"
| controllers_ended: "\<not> ls_exited s \<Longrightarrow> ls_pc s = WaitControllers \<Longrightarrow> ls_wg s = 0 \<Longrightarrow>
    leader_step s (s\<lparr>ls_pc := WaitElection, ls_leCtxDone := True, ls_ctxDone := True\<rparr>)"
| election_ended: "\<not> ls_exited s \<Longrightarrow> ls_pc s = WaitElection \<Longrightarrow> ls_elector s \<in> {NotStarted, Ended} \<Longrightarrow>
    leader_step s (s\<lparr>ls_pc := Returned\<rparr>)"

section \<open>Invariant\<close>

text \<open>Where the main goroutine is relies on the elector, and only its end cancels the elector.\<close>

definition leader_inv :: "leader_state \<Rightarrow> bool" where
  "leader_inv s \<longleftrightarrow>
     (ls_leCtxDone s \<longleftrightarrow> ls_pc s \<in> {WaitElection, Returned}) \<and>
     (ls_lease s \<longleftrightarrow> ls_elector s = Leading) \<and>
     (ls_elector s = Ended \<longrightarrow> ls_leCtxDone s) \<and>
     (ls_leChan s \<longrightarrow> ls_callback s) \<and>
     (ls_callback s \<longrightarrow> ls_elector s \<in> {Leading, Stopping, Ended}) \<and>
     (ls_pc s \<in> {StartRoutes, StartAccounts, ServeUntilDone} \<longrightarrow> ls_leChan s) \<and>
     (0 < ls_wg s \<longrightarrow> ls_leChan s \<and> ls_pc s \<in> {StartAccounts, ServeUntilDone, WaitControllers}) \<and>
     (ls_elector s = NotStarted \<longrightarrow> ls_wg s = 0 \<and> ls_pc s \<in> {Setup, WaitControllers, WaitElection, Returned}) \<and>
     (ls_pc s = Setup \<longrightarrow> ls_elector s = NotStarted) \<and>
     (ls_pc s = Returned \<longrightarrow> ls_elector s \<in> {NotStarted, Ended})"

lemma leader_inv_start: "leader_inv leader_start"
  by (simp add: leader_inv_def leader_start_def)

lemma leader_inv_step: "leader_step s s' \<Longrightarrow> leader_inv s \<Longrightarrow> leader_inv s'"
  by (erule leader_step.cases) (auto simp: leader_inv_def)

lemma leader_inv_reachable: "leader_step\<^sup>*\<^sup>* leader_start s \<Longrightarrow> leader_inv s"
  by (induction rule: rtranclp_induct) (auto intro: leader_inv_start leader_inv_step)

lemma leader_inv_running:
  "leader_inv s \<Longrightarrow> 0 < ls_wg s \<Longrightarrow> ls_leChan s \<and> \<not> ls_leCtxDone s \<and> (ls_lease s \<or> ls_elector s = Stopping)"
  by (cases "ls_elector s"; cases "ls_pc s"; simp add: leader_inv_def; blast)

lemma leader_inv_told: "leader_inv s \<Longrightarrow> ls_leCtxDone s \<Longrightarrow> ls_wg s = 0"
  by (cases "ls_pc s"; simp add: leader_inv_def; blast)

lemma leader_inv_returned: "leader_inv s \<Longrightarrow> ls_pc s = Returned \<Longrightarrow> ls_wg s = 0 \<and> \<not> ls_lease s"
  by (cases "ls_elector s"; simp add: leader_inv_def)

lemma lease_given_up:
  "leader_step s s' \<Longrightarrow> leader_inv s \<Longrightarrow> ls_elector s = Stopping \<Longrightarrow> ls_elector s' \<noteq> Stopping \<Longrightarrow> ls_leCtxDone s"
  by (erule leader_step.cases) (auto simp: leader_inv_def)

text \<open>No process goes round in circles: what is left to do shrinks with every step.\<close>

fun pc_weight :: "leader_pc \<Rightarrow> nat" where
  "pc_weight Setup = 10"
| "pc_weight AwaitLeader = 7"
| "pc_weight StartRoutes = 6"
| "pc_weight StartAccounts = 4"
| "pc_weight ServeUntilDone = 2"
| "pc_weight WaitControllers = 2"
| "pc_weight WaitElection = 1"
| "pc_weight Returned = 0"

fun elector_weight :: "elector \<Rightarrow> nat" where
  "elector_weight NotStarted = 4"
| "elector_weight Trying = 3"
| "elector_weight Leading = 2"
| "elector_weight Stopping = 1"
| "elector_weight Ended = 0"

definition leader_work :: "leader_state \<Rightarrow> nat" where
  "leader_work s =
     2 * pc_weight (ls_pc s) + elector_weight (ls_elector s) + ls_wg s + of_bool (\<not> ls_stop s) + of_bool (\<not> ls_exited s) + of_bool (\<not> ls_ctxDone s) +
     of_bool (\<not> ls_callback s) + of_bool (\<not> ls_leChan s) + of_bool (ls_pc s = ServeUntilDone)"

lemma leader_work_decreases: "leader_step s s' \<Longrightarrow> leader_work s' < leader_work s"
  by (erule leader_step.cases) (auto simp: leader_work_def)

lemma leader_progress:
  assumes "leader_inv s" and "ls_stop s" and "\<not> ls_exited s" and "ls_pc s \<noteq> Returned"
  shows "\<exists>s'. leader_step s s'"
proof (cases "ls_ctxDone s")
  case False
  with assms show ?thesis by (blast intro: leader_step.cancel)
next
  case True
  show ?thesis
  proof (cases "ls_pc s")
    case WaitControllers
    with True assms show ?thesis by (cases "ls_wg s = 0") (blast intro: leader_step.controllers_ended leader_step.controller_ends)+
  next
    case WaitElection
    with assms show ?thesis
      by (cases "ls_elector s") (auto simp: leader_inv_def intro: leader_step.gives_up leader_step.release leader_step.stopped leader_step.election_ended)
  qed (use True assms in \<open>blast intro: leader_step.intros\<close>)+
qed

section \<open>Properties\<close>

text \<open>
  C14: the controllers and the lease. In every reachable state, a controller only runs after the lease was acquired and before the elector is told to
  end, so the lease is never given up by the process itself while a controller runs. It can still be lost: then the elector has stopped and the controllers run on until
  \<^verbatim>\<open>OnStoppedLeading\<close> ends the process, which it can do at once and which is the only way it can go on while a controller runs.
  When \<^verbatim>\<open>Run\<close> has returned no controller is running and the lease is gone. After a signal the process can always go on until \<^verbatim>\<open>Run\<close> has returned
  or the process was ended, and it comes there after finitely many steps, since every step of any of its goroutines leaves less to do.
\<close>

theorem controllers_run_under_lease:
  assumes "leader_step\<^sup>*\<^sup>* leader_start s"
  shows "(0 < ls_wg s \<longrightarrow> ls_leChan s \<and> \<not> ls_leCtxDone s \<and> (ls_lease s \<or> ls_elector s = Stopping)) \<and>
    (\<not> ls_exited s \<and> 0 < ls_wg s \<and> \<not> ls_lease s \<longrightarrow> leader_step s (s\<lparr>ls_exited := True\<rparr>)) \<and>
    (\<forall>s'. leader_step s s' \<and> ls_elector s = Stopping \<and> ls_elector s' \<noteq> Stopping \<longrightarrow> ls_wg s = 0) \<and>
    (ls_pc s = Returned \<longrightarrow> ls_wg s = 0 \<and> \<not> ls_lease s) \<and>
    (ls_stop s \<and> \<not> ls_exited s \<and> ls_pc s \<noteq> Returned \<longrightarrow> (\<exists>s'. leader_step s s')) \<and>
    (\<forall>s'. leader_step s s' \<longrightarrow> leader_work s' < leader_work s)"
proof -
  have inv: "leader_inv s" by (rule leader_inv_reachable [OF assms])
  have "leader_step s (s\<lparr>ls_exited := True\<rparr>)" if "\<not> ls_exited s" "0 < ls_wg s" "\<not> ls_lease s"
    using leader_inv_running [OF inv that(2)] that by (intro leader_step.fatal) auto
  then show ?thesis
    using leader_inv_running [OF inv] leader_inv_told [OF inv] lease_given_up [OF _ inv] leader_inv_returned [OF inv]
      leader_progress [OF inv] leader_work_decreases [of s] by blast
qed

text \<open>A process that has become the leader and serves, then loses the lease.\<close>

definition fx_serving :: leader_state where
  "fx_serving =
     \<lparr>ls_pc = ServeUntilDone, ls_stop = False, ls_ctxDone = False, ls_leCtxDone = False, ls_elector = Stopping, ls_lease = False,
      ls_callback = True, ls_leChan = True, ls_wg = 2, ls_exited = False\<rparr>"

lemma fx_serving_reachable: "leader_step\<^sup>*\<^sup>* leader_start fx_serving"
proof -
  let ?s0 = leader_start
  let ?s1 = "?s0\<lparr>ls_pc := AwaitLeader, ls_elector := Trying\<rparr>"
  let ?s2 = "?s1\<lparr>ls_elector := Leading, ls_lease := True, ls_callback := True\<rparr>"
  let ?s3 = "?s2\<lparr>ls_leChan := True\<rparr>"
  let ?s4 = "?s3\<lparr>ls_pc := StartRoutes\<rparr>"
  let ?s5 = "?s4\<lparr>ls_pc := StartAccounts, ls_wg := ls_wg ?s4 + 1\<rparr>"
  let ?s6 = "?s5\<lparr>ls_pc := ServeUntilDone, ls_wg := ls_wg ?s5 + 1\<rparr>"
  let ?s7 = "?s6\<lparr>ls_elector := Stopping, ls_lease := False\<rparr>"
  have "leader_step ?s0 ?s1" by (rule leader_step.set_up) (simp_all add: leader_start_def)
  moreover have "leader_step ?s1 ?s2" by (rule leader_step.acquire) (simp_all add: leader_start_def)
  moreover have "leader_step ?s2 ?s3" by (rule leader_step.started_leading) (simp_all add: leader_start_def)
  moreover have "leader_step ?s3 ?s4" by (rule leader_step.acquired) (simp_all add: leader_start_def)
  moreover have "leader_step ?s4 ?s5" by (rule leader_step.start_routes) (simp_all add: leader_start_def)
  moreover have "leader_step ?s5 ?s6" by (rule leader_step.start_accounts) (simp_all add: leader_start_def)
  moreover have "leader_step ?s6 ?s7" by (rule leader_step.lost) (simp_all add: leader_start_def)
  ultimately have "leader_step\<^sup>*\<^sup>* ?s0 ?s7"
    by (meson rtranclp.rtrancl_into_rtrancl rtranclp.rtrancl_refl)
  then show ?thesis
    by (simp add: leader_start_def fx_serving_def eval_nat_numeral)
qed

theorem controllers_run_under_lease_witness:
  "0 < ls_wg fx_serving \<and> \<not> ls_lease fx_serving \<and> leader_step fx_serving (fx_serving\<lparr>ls_exited := True\<rparr>) \<and>
    leader_work (fx_serving\<lparr>ls_exited := True\<rparr>) < leader_work fx_serving"
  using controllers_run_under_lease [OF fx_serving_reachable] by (auto simp: fx_serving_def)

end
