(* ===== verification/Http_Server.thy ===== *)
theory Http_Server
  imports Fixture
begin

text \<open>
  The exposer: \<^verbatim>\<open>pkg/httpserver/http.go\<close> (the table of exposed responses, its parser and the
  request handler, its life cycle) and the options of \<^verbatim>\<open>pkg/cmd/openshift-acme-exposer\<close>. Listening and serving are
  parameters of \<open>Server_Run\<close>; a request is the text of its URL.
\<close>

section \<open>Definitions\<close>

record Server =
  srv_uriToResponse :: "string \<rightharpoonup> string"
  srv_Addr :: string
  srv_listeningAddr :: string

definition NewServer :: "string \<Rightarrow> (string \<rightharpoonup> string) option \<Rightarrow> Server" where
  "NewServer listenAddr uriToResponse =
     \<lparr>srv_uriToResponse = (case uriToResponse of None \<Rightarrow> Map.empty | Some m \<Rightarrow> m),
      srv_Addr = listenAddr, srv_listeningAddr = []\<rparr>"

record HttpReply =
  rep_ContentType :: string
  rep_StatusCode :: int
  rep_Body :: string

definition Server_handler :: "Server \<Rightarrow> string \<Rightarrow> HttpReply" where
  "Server_handler s uri =
     (case srv_uriToResponse s uri of
        Some response \<Rightarrow> \<lparr>rep_ContentType = ''text/plain'', rep_StatusCode = 200, rep_Body = response\<rparr>
      | None \<Rightarrow> \<lparr>rep_ContentType = ''text/plain'', rep_StatusCode = 404, rep_Body = []\<rparr>)"

text \<open>The loop of \<^verbatim>\<open>ParseData\<close>: an error ends it and keeps what was stored before.\<close>

fun parse_lines :: "(string \<rightharpoonup> string) \<Rightarrow> string list \<Rightarrow> (string \<rightharpoonup> string) \<times> gerror option" where
  "parse_lines m [] = (m, None)"
| "parse_lines m (l # ls) =
     (if length (TrimSpace l) = 0 then parse_lines m ls
      else case SplitN CHR '' '' 2 l of
             [uri, response] \<Rightarrow> parse_lines (m(uri \<mapsto> response)) ls
           | _ \<Rightarrow> (m, Some (Errorf ''can't parse line'')))"

definition Server_ParseData :: "Server \<Rightarrow> string \<Rightarrow> Server \<times> gerror option" where
  "Server_ParseData s data =
     (case parse_lines (srv_uriToResponse s) (Split CHR 0x0A data) of
        (m, err) \<Rightarrow> (s\<lparr>srv_uriToResponse := m\<rparr>, err))"

definition setListeningAddr :: "Server \<Rightarrow> string \<Rightarrow> Server" where
  "setListeningAddr s addr = s\<lparr>srv_listeningAddr := addr\<rparr>"

definition getListeningAddr :: "Server \<Rightarrow> string" where
  "getListeningAddr s = srv_listeningAddr s"

text \<open>\<open>listen\<close> is \<^verbatim>\<open>net.Listen\<close> (the address bound, or an error); \<open>serve\<close> is the error with which
  \<^verbatim>\<open>http.Server.Serve\<close> ends, \<open>None\<close> standing for \<^verbatim>\<open>http.ErrServerClosed\<close>.\<close>

definition Server_Run :: "(string \<Rightarrow> gerror + string) \<Rightarrow> gerror option \<Rightarrow> Server \<Rightarrow> Server \<times> gerror option" where
  "Server_Run listen serve s =
     (case listen (srv_Addr s) of
        Inl err \<Rightarrow> (s, Some err)
      | Inr addr \<Rightarrow>
          (setListeningAddr s addr,
           case serve of None \<Rightarrow> None | Some err \<Rightarrow> Some err))"

text \<open>\<open>httpShutdown\<close> is \<^verbatim>\<open>http.Server.Shutdown\<close> of the embedded server.\<close>

definition Server_Shutdown :: "(Server \<Rightarrow> gerror option) \<Rightarrow> Server \<Rightarrow> gerror option" where
  "Server_Shutdown httpShutdown s = httpShutdown s"

text \<open>
  \<open>poll\<close> is \<^verbatim>\<open>wait.PollUntilContextCancel\<close>, of the outcomes of a condition by attempt; \<open>dial i\<close> is \<^verbatim>\<open>net.DialTimeout\<close>
  in attempt \<open>i\<close>, when the server is \<open>s i\<close> (\<^verbatim>\<open>Run\<close> sets its address from another goroutine).
\<close>

definition Server_WaitForConnect ::
  "((nat \<Rightarrow> bool \<times> gerror option) \<Rightarrow> gerror option) \<Rightarrow> (nat \<Rightarrow> string \<Rightarrow> gerror option) \<Rightarrow> (nat \<Rightarrow> Server) \<Rightarrow> gerror option" where
  "Server_WaitForConnect poll dial s =
     poll (\<lambda>i. case dial i (getListeningAddr (s i)) of None \<Rightarrow> (True, None) | Some err \<Rightarrow> (False, None))"

subsection \<open>The exposer command\<close>

record ExposerOptions =
  eo_ResponseFile :: string
  eo_Port :: "16 word"
  eo_ListenIP :: string

definition NewExposerOptions :: ExposerOptions where
  "NewExposerOptions = \<lparr>eo_ResponseFile = [], eo_Port = 5000, eo_ListenIP = ''0.0.0.0''\<rparr>"

text \<open>\<open>portOk\<close> and \<open>ipOk\<close> are \<^verbatim>\<open>IsValidPortNum\<close> and \<^verbatim>\<open>IsValidIP\<close> of apimachinery, true when they
  report no error.\<close>

definition Exposer_Validate :: "(int \<Rightarrow> bool) \<Rightarrow> (string \<Rightarrow> bool) \<Rightarrow> ExposerOptions \<Rightarrow> gerror option" where
  "Exposer_Validate portOk ipOk o' =
     (if eo_ResponseFile o' = [] then Some (Errorf ''no response-file specified'')
      else if \<not> portOk (uint (eo_Port o')) then Some (Errorf ''invalid port'')
      else if \<not> ipOk (eo_ListenIP o') then Some (Errorf ''invalid listen IP'')
      else None)"

section \<open>Parsing\<close>

definition entry_line :: "string \<times> string \<Rightarrow> string" where
  "entry_line e = fst e @ '' '' @ snd e"

text \<open>An entry the line format can carry: the URI has no space or line break, the response no line
  break, and the URI is not blank.\<close>

definition entry_ok :: "string \<times> string \<Rightarrow> bool" where
  "entry_ok e \<longleftrightarrow> (\<exists>c \<in> set (fst e). \<not> is_space c) \<and> CHR '' '' \<notin> set (fst e) \<and>
     CHR 0x0A \<notin> set (fst e) \<and> CHR 0x0A \<notin> set (snd e)"

lemma TrimSpace_empty_iff: "TrimSpace s = [] \<longleftrightarrow> list_all is_space s"
proof -
  have "dropWhile is_space (rev (dropWhile is_space s)) = [] \<longleftrightarrow> (\<forall>c \<in> set (dropWhile is_space s). is_space c)"
    by (simp add: dropWhile_eq_Nil_conv)
  also have "\<dots> \<longleftrightarrow> (\<forall>c \<in> set s. is_space c)"
  proof
    assume a: "\<forall>c \<in> set (dropWhile is_space s). is_space c"
    have "dropWhile is_space s = []"
    proof (rule ccontr)
      assume "dropWhile is_space s \<noteq> []"
      with a hd_dropWhile [OF this] show False by (meson hd_in_set)
    qed
    then show "\<forall>c \<in> set s. is_space c" by (simp add: dropWhile_eq_Nil_conv)
  qed (auto dest: set_dropWhileD)
  finally show ?thesis by (simp add: TrimSpace_def list_all_iff)
qed

lemma parse_entry:
  assumes "entry_ok e"
  shows "parse_lines m (entry_line e # ls) = parse_lines (m(fst e \<mapsto> snd e)) ls"
proof -
  have "TrimSpace (entry_line e) \<noteq> []"
    using assms by (auto simp: TrimSpace_empty_iff entry_ok_def entry_line_def list_all_iff)
  moreover have "SplitN CHR '' '' 2 (entry_line e) = [fst e, snd e]"
    using assms SplitN_2_append [of "CHR '' ''" "fst e" "snd e"] by (simp add: entry_ok_def entry_line_def)
  ultimately show ?thesis by simp
qed

lemma Split_Join_lines:
  assumes "ls \<noteq> []" and "\<forall>l \<in> set ls. c \<notin> set l"
  shows "Split c (Join ls [c]) = ls"
  using assms
proof (induction ls)
  case (Cons l ls)
  then show ?case
    by (cases ls) (simp_all add: Split_no_sep Split_append_sep)
qed simp

lemma parse_entries:
  "list_all entry_ok es \<Longrightarrow> parse_lines m (map entry_line es) = (m ++ map_of (rev es), None)"
proof (induction es arbitrary: m)
  case (Cons e es)
  have "m ++ map_of (rev (e # es)) = m(fst e \<mapsto> snd e) ++ map_of (rev es)"
    by (cases e) (simp add: map_of_append map_add_assoc)
  with Cons show ?case
    by (simp add: parse_entry del: parse_lines.simps)
qed simp

definition bad_line :: "string \<Rightarrow> bool" where
  "bad_line l \<longleftrightarrow> \<not> list_all is_space l \<and> CHR '' '' \<notin> set l"

lemma parse_lines_error: "snd (parse_lines m ls) \<noteq> None \<longleftrightarrow> list_ex bad_line ls"
  by (induction ls arbitrary: m)
    (auto simp: TrimSpace_empty_iff bad_line_def SplitN_2 list_all_iff)

section \<open>Waiting for the server\<close>

text \<open>What the documentation says of polling with a context that is cancelled after \<open>n\<close> attempts, the first of them immediate.\<close>

fun poll_attempts :: "nat \<Rightarrow> nat \<Rightarrow> (nat \<Rightarrow> bool \<times> gerror option) \<Rightarrow> gerror option" where
  "poll_attempts i 0 cond = Some (LibErr ''context canceled'')"
| "poll_attempts i (Suc n) cond =
     (case cond i of
        (_, Some err) \<Rightarrow> Some err
      | (True, None) \<Rightarrow> None
      | (False, None) \<Rightarrow> poll_attempts (Suc i) n cond)"

lemma poll_attempts_done:
  assumes "\<forall>i. snd (cond i) = None"
  shows "poll_attempts i n cond = None \<longleftrightarrow> (\<exists>j < n. fst (cond (i + j)))"
proof (induction n arbitrary: i)
  case (Suc n)
  have "snd (cond i) = None" using assms by blast
  with Suc [of "Suc i"] show ?case
    by (cases "cond i"; cases "fst (cond i)") (auto simp: less_Suc_eq_0_disj)
qed simp

text \<open>\<^verbatim>\<open>WaitForConnect\<close> succeeds exactly when a connection is made before its context is cancelled; no failed dial ends it.\<close>

lemma WaitForConnect_iff:
  "Server_WaitForConnect (poll_attempts 0 n) dial s = None \<longleftrightarrow> (\<exists>i < n. dial i (srv_listeningAddr (s i)) = None)"
  unfolding Server_WaitForConnect_def by (subst poll_attempts_done) (auto simp: getListeningAddr_def split: option.splits)

section \<open>Properties\<close>

text \<open>C31: parsing the file of exposed responses inverts its writing: lines of the form URI, space, response, in any number,
  leave the server answering each URI with its response (the last one written, where a URI repeats)
  with status 200, and every other URI as it was answered before.\<close>

theorem ParseData_roundtrip:
  assumes "es \<noteq> []" and "list_all entry_ok es"
    and "Server_ParseData s (Join (map entry_line es) [CHR 0x0A]) = (s', err)"
  shows "err = None \<and>
    (\<forall>uri. Server_handler s' uri =
       (case map_of (rev es) uri of
          Some r \<Rightarrow> \<lparr>rep_ContentType = ''text/plain'', rep_StatusCode = 200, rep_Body = r\<rparr>
        | None \<Rightarrow> Server_handler s uri))"
proof -
  have "\<forall>l \<in> set (map entry_line es). CHR 0x0A \<notin> set l"
    using assms(2) by (auto simp: list_all_iff entry_ok_def entry_line_def)
  then have "Split CHR 0x0A (Join (map entry_line es) [CHR 0x0A]) = map entry_line es"
    using assms(1) by (intro Split_Join_lines) simp_all
  with assms(2,3) show ?thesis
    by (auto simp: Server_ParseData_def parse_entries Server_handler_def map_add_def split: option.splits)
qed

text \<open>Parsing fails exactly when some line that is not blank holds no space.\<close>

theorem ParseData_error_iff:
  "snd (Server_ParseData s data) \<noteq> None \<longleftrightarrow>
     (\<exists>l \<in> set (Split CHR 0x0A data). \<not> list_all is_space l \<and> CHR '' '' \<notin> set l)"
proof -
  have "snd (Server_ParseData s data) = snd (parse_lines (srv_uriToResponse s) (Split CHR 0x0A data))"
    by (simp add: Server_ParseData_def split: prod.splits)
  then show ?thesis
    using parse_lines_error [of "srv_uriToResponse s" "Split CHR 0x0A data"]
    by (simp add: list_ex_iff bad_line_def)
qed

definition fx_entries :: "(string \<times> string) list" where
  "fx_entries = [(''/a'', ''one''), (''/b'', ''two words''), (''/a'', ''three'')]"

theorem ParseData_roundtrip_witness:
  "list_all entry_ok fx_entries \<and>
   rep_Body (Server_handler (fst (Server_ParseData (NewServer ''0.0.0.0:5000'' None)
      (Join (map entry_line fx_entries) [CHR 0x0A]))) ''/a'') = ''three''"
proof -
  have ok: "list_all entry_ok fx_entries" "fx_entries \<noteq> []"
    by (simp_all add: fx_entries_def entry_ok_def is_space_def)
  obtain s' err where p: "Server_ParseData (NewServer ''0.0.0.0:5000'' None)
      (Join (map entry_line fx_entries) [CHR 0x0A]) = (s', err)"
    by (meson surj_pair)
  from ParseData_roundtrip [OF ok(2,1) p] ok p show ?thesis
    by (simp add: fx_entries_def)
qed

end
