(* ===== verification/Exposer_Cmd.thy ===== *)
theory Exposer_Cmd
  imports Http_Server
begin

text \<open>
  \<^verbatim>\<open>Run\<close> and the command of \<^verbatim>\<open>pkg/cmd/openshift-acme-exposer\<close>: the response file is read and parsed, the server runs in one
  goroutine and a second one waits for a signal and shuts it down; the command returns when both have ended.
\<close>

section \<open>Definitions\<close>

text \<open>
  \<open>readFile\<close> and \<open>listen\<close> are the file system and the network; \<open>serve\<close> and \<open>shutdown\<close> are how \<^verbatim>\<open>http.Server.Serve\<close> and
  \<^verbatim>\<open>http.Server.Shutdown\<close> end; \<open>stop\<close> says whether a signal ever comes. \<open>None\<close>: the command never returns. \<open>exposer_Run\<close> is what comes out when the two
  goroutines are run to their ends; their steps and every interleaving of them are in \<open>Exposer_Goroutines\<close>, where it is shown that \<^verbatim>\<open>Run\<close> returns
  these errors, in one order or the other, and only after a signal.
\<close>

definition exposer_server :: "ExposerOptions \<Rightarrow> Server" where
  "exposer_server opts = NewServer (eo_ListenIP opts @ '':'' @ decimal (unat (eo_Port opts))) None"

text \<open>The part of \<^verbatim>\<open>Run\<close> up to the server with its table of responses:\<close>

definition exposer_load :: "(string \<Rightarrow> gerror + string) \<Rightarrow> ExposerOptions \<Rightarrow> gerror + Server" where
  "exposer_load readFile opts =
     (case readFile (eo_ResponseFile opts) of
        Inl err \<Rightarrow> Inl err
      | Inr bytes \<Rightarrow>
          (case Server_ParseData (exposer_server opts) bytes of
             (server, Some err) \<Rightarrow> Inl err
           | (server, None) \<Rightarrow> Inr server))"

definition exposer_Run ::
  "(string \<Rightarrow> gerror + string) \<Rightarrow> (string \<Rightarrow> gerror + string) \<Rightarrow> gerror option \<Rightarrow> gerror option \<Rightarrow> bool \<Rightarrow>
    ExposerOptions \<Rightarrow> gerror list option" where
  "exposer_Run readFile listen serve shutdown stop opts =
     (case exposer_load readFile opts of
        Inl err \<Rightarrow> Some [err]
      | Inr server \<Rightarrow>
          if \<not> stop then None
          else Some (List.map_filter (\<lambda>e. e) [snd (Server_Run listen serve server), Server_Shutdown (\<lambda>_. shutdown) server]))"

definition exposer_RunE ::
  "(int \<Rightarrow> bool) \<Rightarrow> (string \<Rightarrow> bool) \<Rightarrow> (string \<Rightarrow> gerror + string) \<Rightarrow> (string \<Rightarrow> gerror + string) \<Rightarrow> gerror option \<Rightarrow>
    gerror option \<Rightarrow> bool \<Rightarrow> ExposerOptions \<Rightarrow> gerror list option" where
  "exposer_RunE portOk ipOk readFile listen serve shutdown stop opts =
     (case Exposer_Validate portOk ipOk opts of
        Some err \<Rightarrow> Some [err]
      | None \<Rightarrow> exposer_Run readFile listen serve shutdown stop opts)"

lemma parse_lines_only_error: "snd (parse_lines m ls) = Some err \<Longrightarrow> err = Errorf ''can't parse line''"
  by (induction ls arbitrary: m) (auto split: if_splits list.splits)

lemma parse_lines_err:
  "snd (parse_lines m ls) = (if list_ex bad_line ls then Some (Errorf ''can't parse line'') else None)"
  using parse_lines_error [of m ls] parse_lines_only_error [of m ls] by (cases "snd (parse_lines m ls)") auto

section \<open>The command\<close>

text \<open>
  The value of \<open>exposer_RunE\<close>. A bad option, an unreadable file or a line without a separator ends it at once
  with an error. Otherwise a server that could not listen is reported only after a signal.
\<close>

lemma exposer_RunE_returns:
  "exposer_RunE portOk ipOk readFile listen serve shutdown stop opts =
     (case Exposer_Validate portOk ipOk opts of
        Some err \<Rightarrow> Some [err]
      | None \<Rightarrow>
          (case readFile (eo_ResponseFile opts) of
             Inl err \<Rightarrow> Some [err]
           | Inr bytes \<Rightarrow>
               if list_ex bad_line (Split CHR 0x0A bytes) then Some [Errorf ''can't parse line'']
               else if \<not> stop then None
               else Some ((case listen (eo_ListenIP opts @ '':'' @ decimal (unat (eo_Port opts))) of
                             Inl err \<Rightarrow> [err] | Inr addr \<Rightarrow> (case serve of None \<Rightarrow> [] | Some err \<Rightarrow> [err])) @
                          (case shutdown of None \<Rightarrow> [] | Some err \<Rightarrow> [err]))))"
proof (cases "readFile (eo_ResponseFile opts)")
  case (Inl err)
  then show ?thesis
    by (simp add: exposer_RunE_def exposer_Run_def exposer_load_def split: option.splits)
next
  case (Inr bytes)
  let ?p = "parse_lines Map.empty (Split CHR 0x0A bytes)"
  have data: "Server_ParseData (exposer_server opts) bytes = ((exposer_server opts)\<lparr>srv_uriToResponse := fst ?p\<rparr>, snd ?p)"
    by (simp add: Server_ParseData_def exposer_server_def NewServer_def split: prod.splits)
  have addr: "srv_Addr ((exposer_server opts)\<lparr>srv_uriToResponse := m\<rparr>) = eo_ListenIP opts @ '':'' @ decimal (unat (eo_Port opts))" for m
    by (simp add: exposer_server_def NewServer_def)
  show ?thesis
    using Inr by (simp add: exposer_RunE_def exposer_Run_def exposer_load_def Server_Shutdown_def data parse_lines_err addr Server_Run_def map_filter_simps
        split: option.splits sum.splits)
qed

end
