(* ===== verification/Exposer_Goroutines.thy ===== *)
theory Exposer_Goroutines
  imports Exposer_Cmd "HOL-Library.Multiset"
begin

text \<open>
  The goroutines of \<^verbatim>\<open>Run\<close> in \<^verbatim>\<open>pkg/cmd/openshift-acme-exposer\<close>: one runs the server, one waits for the context and shuts the server
  down, and both report on a channel that \<^verbatim>\<open>Run\<close> drains when they have ended. \<open>exposer_step\<close> interleaves them; what comes out of
  it is what \<open>exposer_Run\<close> computes in one go. A second signal, which ends the process at once, is in \<open>Signals\<close>.
\<close>

section \<open>Definitions\<close>

datatype serve_pc = ToListen | Serving | ServeEnded

datatype shutdown_pc = AwaitDone | ShuttingDown | ShutdownEnded

text \<open>
  \<open>es_inShutdown\<close>: \<^verbatim>\<open>Shutdown\<close> of the server was called; \<open>es_active\<close>: requests in progress; \<open>es_result\<close>: what \<^verbatim>\<open>Run\<close> returned, as the
  list it builds the aggregate from.
\<close>

record exposer_state =
  es_serve :: serve_pc
  es_shutdown :: shutdown_pc
  es_wg :: nat
  es_errCh :: "gerror list"
  es_stop :: bool
  es_ctxDone :: bool
  es_inShutdown :: bool
  es_active :: nat
  es_server :: Server
  es_result :: "gerror list option"

definition exposer_start :: "Server \<Rightarrow> exposer_state" where
  "exposer_start server =
     \<lparr>es_serve = ToListen, es_shutdown = AwaitDone, es_wg = 2, es_errCh = [], es_stop = False, es_ctxDone = False,
      es_inShutdown = False, es_active = 0, es_server = server, es_result = None\<rparr>"

text \<open>The channel has two places; a send waits for a free one.\<close>

definition can_send :: "exposer_state \<Rightarrow> bool" where
  "can_send s \<longleftrightarrow> length (es_errCh s) < 2"

definition opt_list :: "'a option \<Rightarrow> 'a list" where
  "opt_list x = (case x of None \<Rightarrow> [] | Some a \<Rightarrow> [a])"

text \<open>
  \<open>listen\<close> is \<^verbatim>\<open>net.Listen\<close>; \<open>fails\<close> says with which errors \<^verbatim>\<open>Serve\<close> may end of itself. As \<^verbatim>\<open>net/http\<close> documents, \<^verbatim>\<open>Serve\<close> ends with
  \<^verbatim>\<open>ErrServerClosed\<close> once \<^verbatim>\<open>Shutdown\<close> was called, which \<^verbatim>\<open>server.Run\<close> turns into no error, no request is taken after that, and \<^verbatim>\<open>Shutdown\<close>
  waits for the requests in progress and ends with \<open>closeErr\<close>.
\<close>

inductive exposer_step ::
  "(string \<Rightarrow> gerror + string) \<Rightarrow> (gerror \<Rightarrow> bool) \<Rightarrow> gerror option \<Rightarrow> exposer_state \<Rightarrow> exposer_state \<Rightarrow> bool"
  for listen fails closeErr where
  signal: "es_result s = None \<Longrightarrow> \<not> es_stop s \<Longrightarrow> exposer_step listen fails closeErr s (s\<lparr>es_stop := True\<rparr>)"
| cancel: "es_stop s \<Longrightarrow> \<not> es_ctxDone s \<Longrightarrow> exposer_step listen fails closeErr s (s\<lparr>es_ctxDone := True\<rparr>)"
| listen_fails: "es_serve s = ToListen \<Longrightarrow> listen (srv_Addr (es_server s)) = Inl err \<Longrightarrow> can_send s \<Longrightarrow>
    exposer_step listen fails closeErr s (s\<lparr>es_serve := ServeEnded, es_errCh := es_errCh s @ [err], es_wg := es_wg s - 1\<rparr>)"
| listens: "es_serve s = ToListen \<Longrightarrow> listen (srv_Addr (es_server s)) = Inr addr \<Longrightarrow>
    exposer_step listen fails closeErr s (s\<lparr>es_serve := Serving, es_server := setListeningAddr (es_server s) addr\<rparr>)"
| request: "es_serve s = Serving \<Longrightarrow> \<not> es_inShutdown s \<Longrightarrow> exposer_step listen fails closeErr s (s\<lparr>es_active := Suc (es_active s)\<rparr>)"
| reply: "0 < es_active s \<Longrightarrow> exposer_step listen fails closeErr s (s\<lparr>es_active := es_active s - 1\<rparr>)"
| serve_fails: "es_serve s = Serving \<Longrightarrow> \<not> es_inShutdown s \<Longrightarrow> fails err \<Longrightarrow> can_send s \<Longrightarrow>
    exposer_step listen fails closeErr s (s\<lparr>es_serve := ServeEnded, es_errCh := es_errCh s @ [err], es_wg := es_wg s - 1\<rparr>)"
| serve_closed: "es_serve s = Serving \<Longrightarrow> es_inShutdown s \<Longrightarrow>
    exposer_step listen fails closeErr s (s\<lparr>es_serve := ServeEnded, es_wg := es_wg s - 1\<rparr>)"
| shutdown_begins: "es_shutdown s = AwaitDone \<Longrightarrow> es_ctxDone s \<Longrightarrow>
    exposer_step listen fails closeErr s (s\<lparr>es_shutdown := ShuttingDown, es_inShutdown := True\<rparr>)"
| shutdown_ends: "es_shutdown s = ShuttingDown \<Longrightarrow> es_active s = 0 \<Longrightarrow> can_send s \<Longrightarrow>
    exposer_step listen fails closeErr s
      (s\<lparr>es_shutdown := ShutdownEnded, es_errCh := es_errCh s @ opt_list closeErr, es_wg := es_wg s - 1\<rparr>)"
| returns: "es_wg s = 0 \<Longrightarrow> es_result s = None \<Longrightarrow> exposer_step listen fails closeErr s (s\<lparr>es_result := Some (es_errCh s)\<rparr>)"

section \<open>Invariant\<close>

text \<open>How the server can end.\<close>

definition serve_outcome :: "(string \<Rightarrow> gerror + string) \<Rightarrow> (gerror \<Rightarrow> bool) \<Rightarrow> Server \<Rightarrow> gerror option \<Rightarrow> bool" where
  "serve_outcome listen fails server x \<longleftrightarrow>
     (case listen (srv_Addr server) of Inl err \<Rightarrow> x = Some err | Inr addr \<Rightarrow> (case x of None \<Rightarrow> True | Some err \<Rightarrow> fails err))"

text \<open>What is on the channel comes from the goroutines that have ended.\<close>

definition exposer_inv ::
  "(string \<Rightarrow> gerror + string) \<Rightarrow> (gerror \<Rightarrow> bool) \<Rightarrow> gerror option \<Rightarrow> Server \<Rightarrow> exposer_state \<Rightarrow> bool" where
  "exposer_inv listen fails closeErr server s \<longleftrightarrow>
     srv_Addr (es_server s) = srv_Addr server \<and>
     es_wg s = of_bool (es_serve s \<noteq> ServeEnded) + of_bool (es_shutdown s \<noteq> ShutdownEnded) \<and>
     (es_inShutdown s \<longleftrightarrow> es_shutdown s \<noteq> AwaitDone) \<and> (es_inShutdown s \<longrightarrow> es_ctxDone s) \<and> (es_ctxDone s \<longrightarrow> es_stop s) \<and>
     (es_serve s = Serving \<longrightarrow> \<not> isl (listen (srv_Addr server))) \<and>
     (\<exists>x. (if es_serve s = ServeEnded then serve_outcome listen fails server x else x = None) \<and>
        mset (es_errCh s) = mset (opt_list x) + mset (opt_list (if es_shutdown s = ShutdownEnded then closeErr else None))) \<and>
     (\<forall>errs. es_result s = Some errs \<longrightarrow> errs = es_errCh s \<and> es_wg s = 0)"

lemma opt_list_simps [simp]: "opt_list None = []" "opt_list (Some x) = [x]"
  by (simp_all add: opt_list_def)

lemma exposer_inv_start: "exposer_inv listen fails closeErr server (exposer_start server)"
  by (simp add: exposer_inv_def exposer_start_def)

lemma exposer_inv_step:
  assumes "exposer_step listen fails closeErr s s'" and "exposer_inv listen fails closeErr server s"
  shows "exposer_inv listen fails closeErr server s'"
  using assms
proof (cases rule: exposer_step.cases)
  case (listen_fails err)
  with assms(2) show ?thesis
    by (auto simp: exposer_inv_def serve_outcome_def intro!: exI [of _ "Some err"])
next
  case (serve_fails err)
  with assms(2) show ?thesis
    by (auto simp: exposer_inv_def serve_outcome_def isl_def split: sum.splits intro!: exI [of _ "Some err"])
next
  case serve_closed
  with assms(2) show ?thesis
    by (auto simp: exposer_inv_def serve_outcome_def split: sum.splits intro!: exI [of _ None])
qed (auto simp: exposer_inv_def setListeningAddr_def)

lemma exposer_inv_reachable:
  "(exposer_step listen fails closeErr)\<^sup>*\<^sup>* (exposer_start server) s \<Longrightarrow> exposer_inv listen fails closeErr server s"
  by (induction rule: rtranclp_induct) (auto intro: exposer_inv_start exposer_inv_step)

text \<open>A goroutine that has not ended never waits for the channel.\<close>

lemma exposer_inv_can_send:
  assumes "exposer_inv listen fails closeErr server s" and "0 < es_wg s"
  shows "can_send s"
proof -
  obtain x where x: "if es_serve s = ServeEnded then serve_outcome listen fails server x else x = None"
    "mset (es_errCh s) = mset (opt_list x) + mset (opt_list (if es_shutdown s = ShutdownEnded then closeErr else None))"
    using assms(1) by (auto simp: exposer_inv_def)
  have "length (es_errCh s) = length (opt_list x) + length (opt_list (if es_shutdown s = ShutdownEnded then closeErr else None))"
    using arg_cong [OF x(2), of size] by simp
  with x(1) assms show ?thesis
    by (cases x; cases closeErr; auto simp: can_send_def exposer_inv_def split: if_splits)
qed

lemma exposer_inv_result:
  assumes "exposer_inv listen fails closeErr server s" and "es_result s = Some errs"
  shows "es_stop s" and "\<exists>x. serve_outcome listen fails server x \<and> mset errs = mset (opt_list x) + mset (opt_list closeErr)"
proof -
  have errs: "errs = es_errCh s" "es_wg s = 0"
    using assms unfolding exposer_inv_def by blast+
  have "es_wg s = of_bool (es_serve s \<noteq> ServeEnded) + of_bool (es_shutdown s \<noteq> ShutdownEnded)"
    using assms(1) unfolding exposer_inv_def by blast
  with errs(2) have ended: "es_serve s = ServeEnded \<and> es_shutdown s = ShutdownEnded"
    by (simp add: add_is_0)
  with assms(1) show "es_stop s" by (simp add: exposer_inv_def)
  obtain x where "if es_serve s = ServeEnded then serve_outcome listen fails server x else x = None"
    "mset (es_errCh s) = mset (opt_list x) + mset (opt_list (if es_shutdown s = ShutdownEnded then closeErr else None))"
    using assms(1) unfolding exposer_inv_def by blast
  with errs(1) ended show "\<exists>x. serve_outcome listen fails server x \<and> mset errs = mset (opt_list x) + mset (opt_list closeErr)"
    by auto
qed

section \<open>Progress\<close>

fun serve_weight :: "serve_pc \<Rightarrow> nat" where
  "serve_weight ToListen = 2"
| "serve_weight Serving = 1"
| "serve_weight ServeEnded = 0"

fun shutdown_weight :: "shutdown_pc \<Rightarrow> nat" where
  "shutdown_weight AwaitDone = 2"
| "shutdown_weight ShuttingDown = 1"
| "shutdown_weight ShutdownEnded = 0"

definition exposer_work :: "exposer_state \<Rightarrow> nat" where
  "exposer_work s = serve_weight (es_serve s) + shutdown_weight (es_shutdown s) + es_active s +
     of_bool (\<not> es_stop s) + of_bool (\<not> es_ctxDone s) + of_bool (es_result s = None)"

lemma exposer_work_decreases:
  "exposer_step listen fails closeErr s s' \<Longrightarrow> es_inShutdown s \<Longrightarrow> exposer_work s' < exposer_work s"
  by (erule exposer_step.cases) (auto simp: exposer_work_def)

text \<open>After a signal there is always a step that leaves less to do.\<close>

lemma exposer_progress:
  assumes "exposer_inv listen fails closeErr server s" and "es_stop s" and "es_result s = None"
  obtains s' where "exposer_step listen fails closeErr s s'" and "exposer_work s' < exposer_work s" and "es_stop s'"
proof -
  note send = exposer_inv_can_send [OF assms(1)]
  consider "\<not> es_ctxDone s" | "es_ctxDone s" "es_shutdown s = AwaitDone" | "0 < es_active s"
    | "es_shutdown s = ShuttingDown" "es_active s = 0" | "es_shutdown s = ShutdownEnded" "es_serve s = ToListen"
    | "es_shutdown s = ShutdownEnded" "es_serve s = Serving" | "es_shutdown s = ShutdownEnded" "es_serve s = ServeEnded"
    by (cases "es_shutdown s"; cases "es_serve s") auto
  then show thesis
  proof cases
    case 1
    with assms that [OF exposer_step.cancel] show thesis by (simp add: exposer_work_def)
  next
    case 2
    with assms that [OF exposer_step.shutdown_begins] show thesis by (simp add: exposer_work_def)
  next
    case 3
    with assms that [OF exposer_step.reply] show thesis by (simp add: exposer_work_def)
  next
    case 4
    with assms send that [OF exposer_step.shutdown_ends] show thesis by (simp add: exposer_work_def exposer_inv_def)
  next
    case 5
    show thesis
    proof (cases "listen (srv_Addr (es_server s))")
      case (Inl err)
      with 5 assms send that [OF exposer_step.listen_fails] show thesis by (simp add: exposer_work_def exposer_inv_def)
    next
      case (Inr addr)
      with 5 assms that [OF exposer_step.listens] show thesis by (simp add: exposer_work_def)
    qed
  next
    case 6
    with assms that [OF exposer_step.serve_closed] show thesis by (simp add: exposer_work_def exposer_inv_def)
  next
    case 7
    with assms that [OF exposer_step.returns] show thesis by (simp add: exposer_work_def exposer_inv_def)
  qed
qed

lemma exposer_can_return:
  assumes "exposer_inv listen fails closeErr server s" and "es_stop s"
  shows "\<exists>s' errs. (exposer_step listen fails closeErr)\<^sup>*\<^sup>* s s' \<and> es_result s' = Some errs"
  using assms
proof (induction "exposer_work s" arbitrary: s rule: less_induct)
  case less
  show ?case
  proof (cases "es_result s")
    case None
    obtain s1 where s1: "exposer_step listen fails closeErr s s1" "exposer_work s1 < exposer_work s" "es_stop s1"
      using exposer_progress [OF less.prems None] by blast
    from less.hyps [OF s1(2) exposer_inv_step [OF s1(1) less.prems(1)] s1(3)] s1(1) show ?thesis
      by (meson converse_rtranclp_into_rtranclp)
  next
    case (Some errs)
    then show ?thesis by blast
  qed
qed

section \<open>Properties\<close>

lemma exposer_Run_outcome:
  assumes "exposer_load readFile opts = Inr server" and "serve_outcome listen fails server x"
  shows "\<exists>serve errs. (serve = None \<or> (\<exists>err. serve = Some err \<and> fails err)) \<and>
    exposer_Run readFile listen serve closeErr True opts = Some errs \<and> errs = opt_list x @ opt_list closeErr"
proof (cases "listen (srv_Addr server)")
  case (Inl err)
  with assms show ?thesis
    by (intro exI [of _ None])
      (simp add: exposer_Run_def Server_Run_def Server_Shutdown_def serve_outcome_def map_filter_simps opt_list_def split: option.splits)
next
  case (Inr addr)
  with assms show ?thesis
    by (intro exI [of _ x])
      (cases x; simp add: exposer_Run_def Server_Run_def Server_Shutdown_def serve_outcome_def map_filter_simps opt_list_def split: option.splits)
qed

text \<open>
  C40: when the exposer returns, under every interleaving of its goroutines. Before a signal it never returns, whatever became of the
  server: one that could not listen, or failed, leaves its error on the channel and the process waits. After a signal it can always
  go on until it returns, and once the shutdown of the server has begun, every step brings that nearer, if the requests in progress
  end. What it returns is then the error of the server, if it had one, and that of the shutdown, in some order and nothing else, and so what
  \<open>exposer_Run\<close> computes for some way the server can end.
\<close>

theorem exposer_returns_after_signal:
  assumes "exposer_load readFile opts = Inr server"
    and "(exposer_step listen fails closeErr)\<^sup>*\<^sup>* (exposer_start server) s"
  shows "(\<not> es_stop s \<longrightarrow> es_result s = None) \<and>
    (es_stop s \<longrightarrow> (\<exists>s' errs. (exposer_step listen fails closeErr)\<^sup>*\<^sup>* s s' \<and> es_result s' = Some errs)) \<and>
    (es_inShutdown s \<longrightarrow> (es_result s = None \<longrightarrow> (\<exists>s'. exposer_step listen fails closeErr s s')) \<and>
       (\<forall>s'. exposer_step listen fails closeErr s s' \<longrightarrow> exposer_work s' < exposer_work s)) \<and>
    (\<forall>errs. es_result s = Some errs \<longrightarrow> (\<exists>x serve errs'. serve_outcome listen fails server x \<and>
       mset errs = mset (opt_list x) + mset (opt_list closeErr) \<and>
       (serve = None \<or> (\<exists>err. serve = Some err \<and> fails err)) \<and>
       exposer_Run readFile listen serve closeErr True opts = Some errs' \<and> mset errs' = mset errs))"
proof -
  note inv = exposer_inv_reachable [OF assms(2)]
  have "\<exists>x serve errs'. serve_outcome listen fails server x \<and> mset errs = mset (opt_list x) + mset (opt_list closeErr) \<and>
       (serve = None \<or> (\<exists>err. serve = Some err \<and> fails err)) \<and>
       exposer_Run readFile listen serve closeErr True opts = Some errs' \<and> mset errs' = mset errs"
    if result: "es_result s = Some errs" for errs
  proof -
    obtain x where x: "serve_outcome listen fails server x" "mset errs = mset (opt_list x) + mset (opt_list closeErr)"
      using exposer_inv_result(2) [OF inv result] by blast
    obtain serve errs' where "serve = None \<or> (\<exists>err. serve = Some err \<and> fails err)"
      "exposer_Run readFile listen serve closeErr True opts = Some errs'" "errs' = opt_list x @ opt_list closeErr"
      using exposer_Run_outcome [OF assms(1) x(1)] by blast
    with x show ?thesis
      by (intro exI [of _ x] exI [of _ serve] exI [of _ errs']) simp
  qed
  moreover have "es_result s = None" if "\<not> es_stop s"
    using exposer_inv_result(1) [OF inv] that by (cases "es_result s") auto
  moreover have "es_stop s" if "es_inShutdown s"
    using inv that by (simp add: exposer_inv_def)
  moreover have "\<exists>s'. exposer_step listen fails closeErr s s'" if "es_stop s" and "es_result s = None"
    using exposer_progress [OF inv that] by blast
  ultimately show ?thesis
    using exposer_can_return [OF inv] exposer_work_decreases by blast
qed

text \<open>An exposer whose port is taken: its server has ended with the error, and it waits for a signal, after which it returns the error.\<close>

definition fx_port_taken :: exposer_state where
  "fx_port_taken = (exposer_start (exposer_server NewExposerOptions))
     \<lparr>es_serve := ServeEnded, es_errCh := [LibErr ''listen''], es_wg := 1\<rparr>"

abbreviation fx_exposer_step :: "exposer_state \<Rightarrow> exposer_state \<Rightarrow> bool" where
  "fx_exposer_step \<equiv> exposer_step (\<lambda>a. Inl (LibErr ''listen'')) (\<lambda>e. False) None"

theorem exposer_returns_after_signal_witness:
  "fx_exposer_step\<^sup>*\<^sup>* (exposer_start (exposer_server NewExposerOptions)) fx_port_taken \<and> \<not> es_stop fx_port_taken \<and>
   es_result fx_port_taken = None \<and>
   (\<exists>s errs. fx_exposer_step\<^sup>*\<^sup>* (fx_port_taken\<lparr>es_stop := True\<rparr>) s \<and> es_result s = Some errs \<and> mset errs = {#LibErr ''listen''#})"
proof -
  have load: "exposer_load (\<lambda>f. Inr []) NewExposerOptions = Inr (exposer_server NewExposerOptions)"
    by (simp add: exposer_load_def Server_ParseData_def exposer_server_def NewServer_def TrimSpace_def)
  have "fx_exposer_step (exposer_start (exposer_server NewExposerOptions)) fx_port_taken"
    unfolding fx_port_taken_def
    using exposer_step.listen_fails [of "exposer_start (exposer_server NewExposerOptions)" "\<lambda>a. Inl (LibErr ''listen'')" "LibErr ''listen''" "\<lambda>e. False" None]
    by (simp add: exposer_start_def can_send_def)
  then have taken: "fx_exposer_step\<^sup>*\<^sup>* (exposer_start (exposer_server NewExposerOptions)) fx_port_taken"
    by blast
  have "fx_exposer_step fx_port_taken (fx_port_taken\<lparr>es_stop := True\<rparr>)"
    by (rule exposer_step.signal) (simp_all add: fx_port_taken_def exposer_start_def)
  with taken have signalled: "fx_exposer_step\<^sup>*\<^sup>* (exposer_start (exposer_server NewExposerOptions)) (fx_port_taken\<lparr>es_stop := True\<rparr>)"
    by (rule rtranclp.rtrancl_into_rtrancl)
  then obtain s errs where s: "fx_exposer_step\<^sup>*\<^sup>* (fx_port_taken\<lparr>es_stop := True\<rparr>) s" "es_result s = Some errs"
    using exposer_returns_after_signal [OF load signalled] by auto
  with signalled have reach: "fx_exposer_step\<^sup>*\<^sup>* (exposer_start (exposer_server NewExposerOptions)) s"
    by (meson rtranclp_trans)
  have "mset errs = {#LibErr ''listen''#}"
    using exposer_returns_after_signal [OF load reach] s(2) by (auto simp: serve_outcome_def)
  with exposer_returns_after_signal [OF load taken] taken s show ?thesis
    by (auto simp: fx_port_taken_def exposer_start_def)
qed

end
