(* ===== verification/Signals.thy ===== *)
theory Signals
  imports Go_Prelude
begin

text \<open>
  \<^verbatim>\<open>pkg/signals/signal.go\<close>: the channel that a first signal closes and a second one turns into an exit. \<^verbatim>\<open>os/signal\<close>
  sends to a channel of two places and drops what does not fit; a signal nobody asked for ends the process. The
  callers of \<^verbatim>\<open>StopChannel\<close>, the signals and the goroutines of the handlers are the processes of a step relation.
\<close>

section \<open>Definitions\<close>

datatype os_signal = SIGINT | SIGABRT | SIGTERM | SIGHUP

definition shutdownSignals :: "os_signal list" where
  "shutdownSignals = [SIGINT, SIGABRT, SIGTERM]"

text \<open>Where the goroutine of \<^verbatim>\<open>setupStopChannel\<close> is, with its channel \<^verbatim>\<open>c\<close>.\<close>

datatype await = AwaitFirst | AwaitSecond | ExitCalled

record handler =
  hd_c :: "os_signal list"
  hd_pc :: await

text \<open>
  \<open>sg_once\<close>: \<^verbatim>\<open>once\<close> is done; \<open>sg_closed\<close>: how often \<^verbatim>\<open>close(stopChannel)\<close> was called (the second time would be a panic);
  \<open>sg_exit\<close>: the code of \<^verbatim>\<open>os.Exit\<close>; \<open>sg_killed\<close>: ended by a signal without a handler. \<open>sg_sent\<close> counts the shutdown
  signals since there is a handler.
\<close>

record signals_state =
  sg_once :: bool
  sg_handlers :: "handler list"
  sg_closed :: nat
  sg_exit :: "nat option"
  sg_killed :: bool
  sg_sent :: nat

definition signals_start :: signals_state where
  "signals_start =
     \<lparr>sg_once = False, sg_handlers = [], sg_closed = 0, sg_exit = None, sg_killed = False, sg_sent = 0\<rparr>"

definition setupStopChannel :: "signals_state \<Rightarrow> signals_state" where
  "setupStopChannel st = st\<lparr>sg_handlers := sg_handlers st @ [\<lparr>hd_c = [], hd_pc = AwaitFirst\<rparr>]\<rparr>"

definition StopChannel :: "signals_state \<Rightarrow> signals_state" where
  "StopChannel st = (if sg_once st then st else setupStopChannel (st\<lparr>sg_once := True\<rparr>))"

text \<open>The signal goes to every channel with a free place.\<close>

definition notify :: "os_signal \<Rightarrow> handler \<Rightarrow> handler" where
  "notify s h = (if length (hd_c h) < 2 then h\<lparr>hd_c := hd_c h @ [s]\<rparr> else h)"

definition deliver :: "os_signal \<Rightarrow> signals_state \<Rightarrow> signals_state" where
  "deliver s st =
     (if s \<notin> set shutdownSignals \<or> sg_handlers st = [] then st\<lparr>sg_killed := True\<rparr>
      else st\<lparr>sg_handlers := map (notify s) (sg_handlers st), sg_sent := Suc (sg_sent st)\<rparr>)"

text \<open>The next step of the goroutine of the \<open>i\<close>-th handler: a receive and what follows it.\<close>

definition handler_runs :: "nat \<Rightarrow> signals_state \<Rightarrow> signals_state option" where
  "handler_runs i st =
     (if length (sg_handlers st) \<le> i then None
      else let h = sg_handlers st ! i in
           case hd_c h of
             [] \<Rightarrow> None
           | s # c \<Rightarrow>
               (case hd_pc h of
                  AwaitFirst \<Rightarrow>
                    Some (st\<lparr>sg_handlers := (sg_handlers st)[i := \<lparr>hd_c = c, hd_pc = AwaitSecond\<rparr>], sg_closed := Suc (sg_closed st)\<rparr>)
                | AwaitSecond \<Rightarrow>
                    Some (st\<lparr>sg_handlers := (sg_handlers st)[i := \<lparr>hd_c = c, hd_pc = ExitCalled\<rparr>], sg_exit := Some 1\<rparr>)
                | ExitCalled \<Rightarrow> None))"

definition ended :: "signals_state \<Rightarrow> bool" where
  "ended st \<longleftrightarrow> sg_exit st \<noteq> None \<or> sg_killed st"

inductive signals_step :: "signals_state \<Rightarrow> signals_state \<Rightarrow> bool" where
  caller: "\<not> ended st \<Longrightarrow> signals_step st (StopChannel st)"
| signal: "\<not> ended st \<Longrightarrow> signals_step st (deliver s st)"
| handler: "\<not> ended st \<Longrightarrow> handler_runs i st = Some st' \<Longrightarrow> signals_step st st'"

section \<open>Invariant\<close>

fun received :: "await \<Rightarrow> nat" where
  "received AwaitFirst = 0"
| "received AwaitSecond = 1"
| "received ExitCalled = 2"

text \<open>Of one handler: what it has received and what waits for it are all signals that were sent, up to two.\<close>

definition handler_inv :: "nat \<Rightarrow> handler \<Rightarrow> bool" where
  "handler_inv sent h \<longleftrightarrow>
     min 2 sent \<le> received (hd_pc h) + length (hd_c h) \<and> received (hd_pc h) + length (hd_c h) \<le> sent"

definition signals_inv :: "signals_state \<Rightarrow> bool" where
  "signals_inv st \<longleftrightarrow>
     (case sg_handlers st of
        [] \<Rightarrow> \<not> sg_once st \<and> sg_closed st = 0 \<and> sg_exit st = None \<and> sg_sent st = 0
      | [h] \<Rightarrow> sg_once st \<and> handler_inv (sg_sent st) h \<and> sg_closed st = of_bool (hd_pc h \<noteq> AwaitFirst) \<and>
          sg_exit st = (if hd_pc h = ExitCalled then Some 1 else None)
      | _ \<Rightarrow> False)"

lemma signals_inv_cases:
  assumes "signals_inv st"
  obtains (unset) "sg_handlers st = []" "\<not> sg_once st" "sg_closed st = 0" "sg_exit st = None" "sg_sent st = 0"
    | (set_up) h where "sg_handlers st = [h]" "sg_once st" "handler_inv (sg_sent st) h" "sg_closed st = of_bool (hd_pc h \<noteq> AwaitFirst)"
        "sg_exit st = (if hd_pc h = ExitCalled then Some 1 else None)"
  using assms by (auto simp: signals_inv_def split: list.splits)

lemma notify_pc [simp]: "hd_pc (notify s h) = hd_pc h"
  by (simp add: notify_def)

lemma notify_inv: "handler_inv n h \<Longrightarrow> handler_inv (Suc n) (notify s h)"
  by (auto simp: handler_inv_def notify_def)

lemma signals_inv_start: "signals_inv signals_start"
  by (simp add: signals_inv_def signals_start_def)

lemma signals_inv_caller: "signals_inv st \<Longrightarrow> signals_inv (StopChannel st)"
  by (erule signals_inv_cases) (simp_all add: signals_inv_def StopChannel_def setupStopChannel_def handler_inv_def)

lemma signals_inv_signal: "signals_inv st \<Longrightarrow> signals_inv (deliver s st)"
  by (erule signals_inv_cases) (simp_all add: signals_inv_def deliver_def notify_inv)

lemma signals_inv_handler:
  assumes "signals_inv st" and "handler_runs i st = Some st'"
  shows "signals_inv st'"
  using assms(1)
proof (cases rule: signals_inv_cases)
  case (set_up h)
  with assms(2) have "i = 0" by (simp add: handler_runs_def split: if_splits)
  with set_up assms(2) show ?thesis
    by (cases "hd_pc h"; cases "hd_c h") (auto simp: signals_inv_def handler_runs_def handler_inv_def)
qed (use assms(2) in \<open>simp add: handler_runs_def\<close>)

lemma signals_inv_step: "signals_step st st' \<Longrightarrow> signals_inv st \<Longrightarrow> signals_inv st'"
  by (induction rule: signals_step.induct) (auto intro: signals_inv_caller signals_inv_signal signals_inv_handler)

lemma signals_inv_reachable: "signals_step\<^sup>*\<^sup>* signals_start st \<Longrightarrow> signals_inv st"
  by (induction rule: rtranclp_induct) (auto intro: signals_inv_start signals_inv_step)

text \<open>The only handler goes on while there is a signal for it.\<close>

lemma handler_goes_on:
  assumes "sg_handlers st = [h]" and "handler_inv (sg_sent st) h" and "received (hd_pc h) < min 2 (sg_sent st)" and "\<not> ended st"
  shows "\<exists>st'. signals_step st st' \<and> (hd_pc h = AwaitFirst \<longrightarrow> sg_closed st' = Suc (sg_closed st)) \<and>
    (hd_pc h = AwaitSecond \<longrightarrow> sg_exit st' = Some 1)"
proof -
  obtain s c where "hd_c h = s # c"
    using assms(2,3) by (cases "hd_c h") (auto simp: handler_inv_def)
  with assms show ?thesis
    by (cases "hd_pc h") (auto intro!: exI signals_step.handler [where i = 0] simp: handler_runs_def)
qed

section \<open>Properties\<close>

text \<open>
  C15: a signal stops the program once, and a second one ends it. However often and from wherever \<^verbatim>\<open>StopChannel\<close> is called, the channel is
  never closed twice (a panic), it is only closed after a signal that asks for a shutdown, and the process is only ended by its handler
  after a second one. No such signal is lost: once one came, the handler can close the channel, and once
  two came, it can go on to the exit, whatever was sent in between.
\<close>

theorem stop_channel_closed_once:
  assumes "signals_step\<^sup>*\<^sup>* signals_start st"
  shows "sg_closed st \<le> 1 \<and> (sg_closed st = 1 \<longrightarrow> 1 \<le> sg_sent st) \<and>
    (sg_exit st \<noteq> None \<longrightarrow> sg_exit st = Some 1 \<and> sg_closed st = 1 \<and> 2 \<le> sg_sent st) \<and>
    (\<not> ended st \<and> 1 \<le> sg_sent st \<and> sg_closed st = 0 \<longrightarrow> (\<exists>st'. signals_step st st' \<and> sg_closed st' = 1)) \<and>
    (\<not> ended st \<and> 2 \<le> sg_sent st \<and> sg_closed st = 1 \<longrightarrow> (\<exists>st'. signals_step st st' \<and> sg_exit st' = Some 1))"
  using signals_inv_reachable [OF assms]
proof (cases rule: signals_inv_cases)
  case (set_up h)
  have "\<exists>st'. signals_step st st' \<and> sg_closed st' = 1" if "\<not> ended st" "1 \<le> sg_sent st" "sg_closed st = 0"
    using handler_goes_on [OF set_up(1,3) _ that(1)] set_up that(2,3) by fastforce
  moreover have "\<exists>st'. signals_step st st' \<and> sg_exit st' = Some 1" if "\<not> ended st" "2 \<le> sg_sent st" "sg_closed st = 1"
    using handler_goes_on [OF set_up(1,3) _ that(1)] set_up that by (cases "hd_pc h") (auto simp: ended_def)
  ultimately show ?thesis
    using set_up by (cases "hd_pc h") (auto simp: handler_inv_def)
qed simp

text \<open>Two callers, then two signals, of which the first has been handled.\<close>

definition fx_signalled :: signals_state where
  "fx_signalled =
     \<lparr>sg_once = True, sg_handlers = [\<lparr>hd_c = [SIGINT], hd_pc = AwaitSecond\<rparr>], sg_closed = 1, sg_exit = None, sg_killed = False,
      sg_sent = 2\<rparr>"

lemma fx_signalled_reachable: "signals_step\<^sup>*\<^sup>* signals_start fx_signalled"
proof -
  let ?s1 = "StopChannel signals_start"
  let ?s2 = "StopChannel ?s1"
  let ?s3 = "deliver SIGTERM ?s2"
  let ?s4 = "deliver SIGINT ?s3"
  note defs = signals_start_def StopChannel_def setupStopChannel_def deliver_def notify_def shutdownSignals_def ended_def
  have "signals_step signals_start ?s1" "signals_step ?s1 ?s2" by (rule signals_step.caller, simp add: defs)+
  moreover have "signals_step ?s2 ?s3" "signals_step ?s3 ?s4" by (rule signals_step.signal, simp add: defs)+
  moreover have "signals_step ?s4 fx_signalled"
    by (rule signals_step.handler [where i = 0]) (simp_all add: defs handler_runs_def fx_signalled_def)
  ultimately show ?thesis
    by (meson rtranclp.rtrancl_into_rtrancl rtranclp.rtrancl_refl)
qed

theorem stop_channel_closed_once_witness:
  "\<exists>st'. signals_step fx_signalled st' \<and> sg_exit st' = Some 1"
  using stop_channel_closed_once [OF fx_signalled_reachable] by (simp add: fx_signalled_def ended_def)

end
