(* ===== verification/Process.thy ===== *)
theory Process
  imports Leader_Run Exposer_Goroutines Signals
begin

text \<open>
  The two programs: \<^verbatim>\<open>cmd/openshift-acme-controller\<close> and \<^verbatim>\<open>cmd/openshift-acme-exposer\<close> with their commands, flags and exit codes,
  the standard streams and the build version. The command line parser (cobra, pflag), the scheme and the metrics registry
  are parameters; log lines on standard error are left out.
\<close>

section \<open>Streams and version\<close>

record 's IOStreams =
  ios_In :: 's
  ios_Out :: 's
  ios_ErrOut :: 's

datatype std_stream = Stdin | Stdout | Stderr

definition os_streams :: "std_stream IOStreams" where
  "os_streams = \<lparr>ios_In = Stdin, ios_Out = Stdout, ios_ErrOut = Stderr\<rparr>"

text \<open>The variables of \<^verbatim>\<open>pkg/version\<close>, which the linker may set, and what they are when it does not.\<close>

record build_vars =
  commitFromGit :: string
  versionFromGit :: string
  majorFromGit :: string
  minorFromGit :: string
  buildDate :: string
  gitTreeState :: string

definition unset_build :: build_vars where
  "unset_build =
     \<lparr>commitFromGit = [], versionFromGit = ''unknown'', majorFromGit = [], minorFromGit = [], buildDate = [], gitTreeState = []\<rparr>"

record go_runtime =
  rt_Version :: string
  rt_Compiler :: string
  rt_GOOS :: string
  rt_GOARCH :: string

record version_Info =
  vi_Major :: string
  vi_Minor :: string
  vi_GitCommit :: string
  vi_GitVersion :: string
  vi_GitTreeState :: string
  vi_BuildDate :: string
  vi_GoVersion :: string
  vi_Compiler :: string
  vi_Platform :: string

definition version_Get :: "build_vars \<Rightarrow> go_runtime \<Rightarrow> version_Info" where
  "version_Get B R =
     \<lparr>vi_Major = majorFromGit B, vi_Minor = minorFromGit B, vi_GitCommit = commitFromGit B, vi_GitVersion = versionFromGit B,
      vi_GitTreeState = gitTreeState B, vi_BuildDate = buildDate B, vi_GoVersion = rt_Version R, vi_Compiler = rt_Compiler R,
      vi_Platform = rt_GOOS R @ ''/'' @ rt_GOARCH R\<rparr>"

text \<open>A vector of gauges: the label names, and the value of each list of label values.\<close>

record gauge_vec =
  gv_Name :: string
  gv_Help :: string
  gv_Labels :: "string list"
  gv_Values :: "string list \<rightharpoonup> int"

definition gauge_Set :: "gauge_vec \<Rightarrow> string list \<Rightarrow> int \<Rightarrow> gerror + gauge_vec" where
  "gauge_Set g lvs v =
     (if length lvs \<noteq> length (gv_Labels g) then Inl (Panic ''inconsistent label cardinality'')
      else Inr (g\<lparr>gv_Values := (gv_Values g)(lvs \<mapsto> v)\<rparr>))"

text \<open>\<open>register\<close> is \<^verbatim>\<open>prometheus.Register\<close>.\<close>

definition version_init :: "(gauge_vec \<Rightarrow> gerror option) \<Rightarrow> build_vars \<Rightarrow> gerror + gauge_vec" where
  "version_init register B =
     (let buildInfo =
        \<lparr>gv_Name = ''openshift_acme_build_info'',
         gv_Help = ''A metric with a constant '' @ [CHR 0x27] @ ''1'' @ [CHR 0x27] @
           '' value labeled by major, minor, git commit & git version from which openshift-acme was built.'',
         gv_Labels = [''major'', ''minor'', ''gitCommit'', ''gitVersion''], gv_Values = Map.empty\<rparr>
      in case gauge_Set buildInfo [majorFromGit B, minorFromGit B, commitFromGit B, versionFromGit B] 1 of
           Inl err \<Rightarrow> Inl err
         | Inr buildInfo \<Rightarrow>
             (case register buildInfo of Some err \<Rightarrow> Inl (Panic ''MustRegister'') | None \<Rightarrow> Inr buildInfo))"

section \<open>Commands\<close>

text \<open>
  A cobra command: its flags, what runs before it and what it runs, on the flags as the command line left them. \<open>None\<close>: it never
  returns; \<open>Some None\<close>: it returns without an error.
\<close>

record 'v command =
  cmd_Use :: string
  cmd_Flags :: "'v flag list"
  cmd_PersistentPreRunE :: "'v flag list \<Rightarrow> 'v flag list \<times> gerror option"
  cmd_RunE :: "'v flag list \<Rightarrow> gerror option option"
  cmd_SilenceErrors :: bool
  cmd_SilenceUsage :: bool

text \<open>\<open>show\<close> is the format \<^verbatim>\<open>%v\<close> of the version; the command prints to \<open>out\<close>, here it is the text printed.\<close>

definition NewVersionCommand :: "(version_Info \<Rightarrow> string) \<Rightarrow> string \<Rightarrow> version_Info \<Rightarrow> string \<times> string" where
  "NewVersionCommand show fullName versionInfo = (''version'', fullName @ '' '' @ show versionInfo @ [CHR 0x0A])"

text \<open>
  \<^verbatim>\<open>AddGoFlagSet\<close> skips a flag that is there already and wraps any other, not changed yet; the \<^verbatim>\<open>Var\<close> methods panic on one. The variable behind a
  flag is the value of the flag, so the options are read off the flags.
\<close>

definition AddGoFlagSet :: "'v flag list \<Rightarrow> 'v flag list \<Rightarrow> 'v flag list" where
  "AddGoFlagSet goFlags flags =
     flags @ map (\<lambda>f. f\<lparr>fl_Changed := False\<rparr>) (filter (\<lambda>f. flags_Lookup flags (fl_Name f) = None) goFlags)"

definition var_flags :: "'v flag list \<Rightarrow> 'v flag list \<Rightarrow> gerror + 'v flag list" where
  "var_flags new flags =
     (if list_ex (\<lambda>f. flags_Lookup flags (fl_Name f) \<noteq> None) new then Inl (Panic ''flag redefined'') else Inr (flags @ new))"

definition string_flag :: "flag_value flag list \<Rightarrow> string \<Rightarrow> string \<Rightarrow> string" where
  "string_flag flags n x =
     (case flags_Lookup flags n of Some f \<Rightarrow> (case fl_Value f of FString v \<Rightarrow> v | _ \<Rightarrow> x) | None \<Rightarrow> x)"

definition int_flag :: "flag_value flag list \<Rightarrow> string \<Rightarrow> int \<Rightarrow> int" where
  "int_flag flags n x =
     (case flags_Lookup flags n of Some f \<Rightarrow> (case fl_Value f of FInt v \<Rightarrow> v | _ \<Rightarrow> x) | None \<Rightarrow> x)"

definition duration_flag :: "flag_value flag list \<Rightarrow> string \<Rightarrow> duration \<Rightarrow> duration" where
  "duration_flag flags n x =
     (case flags_Lookup flags n of Some f \<Rightarrow> (case fl_Value f of FDuration v \<Rightarrow> v | _ \<Rightarrow> x) | None \<Rightarrow> x)"

definition strings_flag :: "flag_value flag list \<Rightarrow> string \<Rightarrow> string list \<Rightarrow> string list" where
  "strings_flag flags n x =
     (case flags_Lookup flags n of Some f \<Rightarrow> (case fl_Value f of FStrings v \<Rightarrow> v | _ \<Rightarrow> x) | None \<Rightarrow> x)"

lemmas flag_readers = string_flag_def int_flag_def duration_flag_def strings_flag_def

subsection \<open>The controller\<close>

definition controller_bound :: "flag_value flag list \<Rightarrow> Options \<Rightarrow> Options" where
  "controller_bound flags opts =
     opts\<lparr>o_Annotation := string_flag flags ''annotation'' (o_Annotation opts),
       o_Workers := int_flag flags ''workers'' (o_Workers opts),
       o_Kubeconfig := string_flag flags ''kubeconfig'' (o_Kubeconfig opts),
       o_ControllerNamespace := string_flag flags ''controller-namespace'' (o_ControllerNamespace opts),
       o_Namespaces := strings_flag flags ''namespace'' (o_Namespaces opts),
       o_LeaderelectionLeaseDuration := duration_flag flags ''leaderelection-lease-duration'' (o_LeaderelectionLeaseDuration opts),
       o_LeaderelectionRenewDeadline := duration_flag flags ''leaderelection-renew-deadline'' (o_LeaderelectionRenewDeadline opts),
       o_LeaderelectionRetryPeriod := duration_flag flags ''leaderelection-retry-period'' (o_LeaderelectionRetryPeriod opts),
       o_CertOrderBackoffInitial := duration_flag flags ''cert-order-backoff-initial'' (o_CertOrderBackoffInitial opts),
       o_CertOrderBackoffMax := duration_flag flags ''cert-order-backoff-max'' (o_CertOrderBackoffMax opts),
       o_CertDefaultRSAKeyBitSize := int_flag flags ''cert-default-rsa-key-bit-size'' (o_CertDefaultRSAKeyBitSize opts),
       o_CertDefaultProfile := string_flag flags ''cert-default-profile'' (o_CertDefaultProfile opts),
       o_ExposerImage := string_flag flags ''exposer-image'' (o_ExposerImage opts)\<rparr>"

definition NewOpenshiftAcmeControllerCommand ::
  "(string \<Rightarrow> flag_value \<Rightarrow> string \<Rightarrow> flag_value \<times> bool) \<Rightarrow> (string \<Rightarrow> string option) \<Rightarrow> string list \<Rightarrow> (string \<Rightarrow> string list) \<Rightarrow>
    startup \<Rightarrow> (Options \<Rightarrow> gerror option option) \<Rightarrow> flag_value flag list \<Rightarrow> gerror + flag_value command" where
  "NewOpenshiftAcmeControllerCommand setValue lookupEnv environ validName S run goFlags =
     (case var_flags (controller_flags NewOptions) (AddGoFlagSet goFlags []) of
        Inl err \<Rightarrow> Inl err
      | Inr flags \<Rightarrow>
          (case InstallKlog goFlags flags of
             Inl err \<Rightarrow> Inl err
           | Inr flags \<Rightarrow>
               Inr \<lparr>cmd_Use = ''openshift-acme-controller'', cmd_Flags = flags,
                 cmd_PersistentPreRunE = PersistentPreRunE setValue lookupEnv environ,
                 cmd_RunE = (\<lambda>flags. case controller_RunE validName S (\<lambda>opts. Inr (run opts)) (controller_bound flags NewOptions) of
                    Inl err \<Rightarrow> Some (Some err) | Inr r \<Rightarrow> r),
                 cmd_SilenceErrors = True, cmd_SilenceUsage = True\<rparr>))"

subsection \<open>The exposer\<close>

definition exposer_flags :: "ExposerOptions \<Rightarrow> flag_value flag list" where
  "exposer_flags opts =
     [controller_flag ''response-file'' (FString (eo_ResponseFile opts)),
      controller_flag ''port'' (FInt (uint (eo_Port opts))),
      controller_flag ''listen-ip'' (FString (eo_ListenIP opts))]"

definition exposer_bound :: "flag_value flag list \<Rightarrow> ExposerOptions \<Rightarrow> ExposerOptions" where
  "exposer_bound flags opts =
     opts\<lparr>eo_ResponseFile := string_flag flags ''response-file'' (eo_ResponseFile opts),
       eo_Port := of_int (int_flag flags ''port'' (uint (eo_Port opts))),
       eo_ListenIP := string_flag flags ''listen-ip'' (eo_ListenIP opts)\<rparr>"

definition exposer_PersistentPreRunE ::
  "(string \<Rightarrow> 'v \<Rightarrow> string \<Rightarrow> 'v \<times> bool) \<Rightarrow> string list \<Rightarrow> 'v flag list \<Rightarrow> 'v flag list \<times> gerror option" where
  "exposer_PersistentPreRunE setValue environ flags =
     (case ReadFlagsFromEnv setValue ''OPENSHIFT_ACME_EXPOSER_'' environ flags of
        (flags', errs) \<Rightarrow> (flags', if errs \<noteq> [] then Some (Errorf ''can't parse env var'') else None))"

text \<open>An aggregate of one error prints like that error.\<close>

fun exposer_result :: "gerror list \<Rightarrow> gerror option" where
  "exposer_result [] = None"
| "exposer_result [err] = Some err"
| "exposer_result errs = Some (Aggregate errs)"

definition NewOpenShiftAcmeExposerCommand ::
  "(string \<Rightarrow> flag_value \<Rightarrow> string \<Rightarrow> flag_value \<times> bool) \<Rightarrow> string list \<Rightarrow> (ExposerOptions \<Rightarrow> gerror list option) \<Rightarrow>
    flag_value flag list \<Rightarrow> gerror + flag_value command" where
  "NewOpenShiftAcmeExposerCommand setValue environ runE goFlags =
     (case var_flags (exposer_flags NewExposerOptions) (AddGoFlagSet goFlags []) of
        Inl err \<Rightarrow> Inl err
      | Inr flags \<Rightarrow>
          (case InstallKlog goFlags flags of
             Inl err \<Rightarrow> Inl err
           | Inr flags \<Rightarrow>
               Inr \<lparr>cmd_Use = ''openshift-acme-exposer'', cmd_Flags = flags,
                 cmd_PersistentPreRunE = exposer_PersistentPreRunE setValue environ,
                 cmd_RunE = (\<lambda>flags. map_option exposer_result (runE (exposer_bound flags NewExposerOptions))),
                 cmd_SilenceErrors = True, cmd_SilenceUsage = True\<rparr>))"

section \<open>Programs\<close>

text \<open>How a process ends; \<open>None\<close> in \<open>pr_End\<close> means that it does not.\<close>

datatype ending = Exit int | Crash gerror

record process =
  pr_GOMAXPROCS :: "int option"
  pr_Stderr :: "string list"
  pr_End :: "ending option"

text \<open>\<^verbatim>\<open>flag.Set\<close> of the standard library.\<close>

definition go_flag_Set ::
  "(string \<Rightarrow> 'v \<Rightarrow> string \<Rightarrow> 'v \<times> bool) \<Rightarrow> string \<Rightarrow> string \<Rightarrow> 'v flag list \<Rightarrow> gerror + 'v flag list" where
  "go_flag_Set setValue n v goFlags =
     (case flags_Lookup goFlags n of
        None \<Rightarrow> Inl (Errorf ''no such flag'')
      | Some f \<Rightarrow>
          (case setValue n (fl_Value f) v of
             (x, parsed) \<Rightarrow>
               if \<not> parsed then Inl (LibErr ''Set'') else Inr (store_flag (f\<lparr>fl_Value := x, fl_Changed := True\<rparr>) goFlags)))"

text \<open>\<open>klogFlags\<close> are the flags that \<^verbatim>\<open>klog.InitFlags\<close> defines.\<close>

definition main_init :: "(string \<Rightarrow> 'v \<Rightarrow> string \<Rightarrow> 'v \<times> bool) \<Rightarrow> 'v flag list \<Rightarrow> gerror + 'v flag list" where
  "main_init setValue klogFlags =
     (case go_flag_Set setValue ''logtostderr'' ''true'' klogFlags of
        Inl err \<Rightarrow> Inl (Panic ''flag.Set'')
      | Inr goFlags \<Rightarrow> Inr goFlags)"

text \<open>
  \<open>install\<close> registers the API of Routes with the scheme; \<open>execute\<close> is cobra's \<^verbatim>\<open>Execute\<close> for the command line of the process; \<open>errText\<close> is the
  text of an error.
\<close>

definition program_main ::
  "string \<Rightarrow> int \<Rightarrow> gerror option \<Rightarrow> ('v flag list \<Rightarrow> gerror + 'v command) \<Rightarrow> ('v command \<Rightarrow> gerror option option) \<Rightarrow>
    (gerror \<Rightarrow> string) \<Rightarrow> 'v flag list \<Rightarrow> process" where
  "program_main envGOMAXPROCS numCPU install newCommand execute errText goFlags =
     (let p = \<lparr>pr_GOMAXPROCS = (if length envGOMAXPROCS = 0 then Some numCPU else None), pr_Stderr = [], pr_End = None\<rparr> in
      case install of
        Some err \<Rightarrow> p\<lparr>pr_End := Some (Crash err)\<rparr>
      | None \<Rightarrow>
          (case newCommand goFlags of
             Inl err \<Rightarrow> p\<lparr>pr_End := Some (Crash err)\<rparr>
           | Inr command \<Rightarrow>
               (case execute command of
                  None \<Rightarrow> p
                | Some (Some err) \<Rightarrow> p\<lparr>pr_Stderr := [''Error: '' @ errText err @ [CHR 0x0A]], pr_End := Some (Exit 1)\<rparr>
                | Some None \<Rightarrow> p\<lparr>pr_End := Some (Exit 0)\<rparr>)))"

definition controller_main ::
  "string \<Rightarrow> int \<Rightarrow> gerror option \<Rightarrow> (flag_value command \<Rightarrow> gerror option option) \<Rightarrow> (gerror \<Rightarrow> string) \<Rightarrow>
    (string \<Rightarrow> flag_value \<Rightarrow> string \<Rightarrow> flag_value \<times> bool) \<Rightarrow> (string \<Rightarrow> string option) \<Rightarrow> string list \<Rightarrow> (string \<Rightarrow> string list) \<Rightarrow>
    startup \<Rightarrow> (Options \<Rightarrow> gerror option option) \<Rightarrow> flag_value flag list \<Rightarrow> process" where
  "controller_main envGOMAXPROCS numCPU install execute errText setValue lookupEnv environ validName S run =
     program_main envGOMAXPROCS numCPU install
       (NewOpenshiftAcmeControllerCommand setValue lookupEnv environ validName S run) execute errText"

definition exposer_main ::
  "string \<Rightarrow> int \<Rightarrow> gerror option \<Rightarrow> (flag_value command \<Rightarrow> gerror option option) \<Rightarrow> (gerror \<Rightarrow> string) \<Rightarrow>
    (string \<Rightarrow> flag_value \<Rightarrow> string \<Rightarrow> flag_value \<times> bool) \<Rightarrow> string list \<Rightarrow> (ExposerOptions \<Rightarrow> gerror list option) \<Rightarrow>
    flag_value flag list \<Rightarrow> process" where
  "exposer_main envGOMAXPROCS numCPU install execute errText setValue environ runE =
     program_main envGOMAXPROCS numCPU install (NewOpenShiftAcmeExposerCommand setValue environ runE) execute errText"

text \<open>
  The documentation of cobra, for a command line that asks for no help: the flags are parsed, then the command runs after what is to run before
  it, and the first error ends this.
\<close>

definition cobra_runs ::
  "('v flag list \<Rightarrow> gerror + 'v flag list) \<Rightarrow> ('v command \<Rightarrow> gerror option option) \<Rightarrow> bool" where
  "cobra_runs parse execute \<longleftrightarrow>
     (\<forall>command. execute command =
        (case parse (cmd_Flags command) of
           Inl err \<Rightarrow> Some (Some err)
         | Inr flags \<Rightarrow>
             (case cmd_PersistentPreRunE command flags of
                (_, Some err) \<Rightarrow> Some (Some err)
              | (flags', None) \<Rightarrow> cmd_RunE command flags')))"

section \<open>Lemmas\<close>

text \<open>The metric of the build shows what \<^verbatim>\<open>Get\<close> reports.\<close>

lemma build_info_shows_version:
  assumes "version_init register B = Inr g"
  shows "dom (gv_Values g) = {[vi_Major (version_Get B R), vi_Minor (version_Get B R), vi_GitCommit (version_Get B R), vi_GitVersion (version_Get B R)]}"
  using assms by (auto simp: version_init_def version_Get_def gauge_Set_def split: option.splits if_splits)

text \<open>What a program makes of the end of its command.\<close>

lemma program_main_runs:
  assumes "newCommand goFlags = Inr command"
  shows "pr_End (program_main g n None newCommand execute errText goFlags) =
      map_option (\<lambda>err. Exit (if err = None then 0 else 1)) (execute command)"
    and "pr_Stderr (program_main g n None newCommand execute errText goFlags) =
      (case execute command of Some (Some err) \<Rightarrow> [''Error: '' @ errText err @ [CHR 0x0A]] | _ \<Rightarrow> [])"
  using assms by (auto simp: program_main_def Let_def split: option.splits)

text \<open>The flags of the controller carry its options, all but the order timeout, which has no flag.\<close>

lemma controller_bound_flags:
  "controller_bound (controller_flags opts) opts' = opts\<lparr>o_AcmeOrderTimeout := o_AcmeOrderTimeout opts'\<rparr>"
  by (simp add: controller_bound_def controller_flags_def controller_flag_def flag_readers flags_Lookup_def)

lemma exposer_bound_flags: "exposer_bound (exposer_flags opts) opts' = opts"
  by (simp add: exposer_bound_def exposer_flags_def controller_flag_def flag_readers flags_Lookup_def)










section \<open>A command that starts\<close>

text \<open>What \<^verbatim>\<open>klog.InitFlags\<close> leaves: the flag of the log level, and none of the exposer's names.\<close>

definition klog_flags :: "flag_value flag list \<Rightarrow> bool" where
  "klog_flags goFlags \<longleftrightarrow> flags_Lookup goFlags ''v'' \<noteq> None \<and>
     (\<forall>f \<in> set (exposer_flags NewExposerOptions). flags_Lookup goFlags (fl_Name f) = None)"

text \<open>What pflag makes of the argument \<^verbatim>\<open>--name=value\<close>.\<close>

definition pflag_parses ::
  "(string \<Rightarrow> 'v \<Rightarrow> string \<Rightarrow> 'v \<times> bool) \<Rightarrow> string list \<Rightarrow> ('v flag list \<Rightarrow> gerror + 'v flag list) \<Rightarrow> bool" where
  "pflag_parses setValue args parse \<longleftrightarrow>
     (\<forall>flags n v f x. args = [''--'' @ n @ ''='' @ v] \<longrightarrow> CHR ''='' \<notin> set n \<longrightarrow> flags_Lookup flags n = Some f \<longrightarrow>
        setValue n (fl_Value f) v = (x, True) \<longrightarrow> parse flags = Inr (store_flag (f\<lparr>fl_Value := x, fl_Changed := True\<rparr>) flags))"

lemma flags_Lookup_append:
  "flags_Lookup (fs @ gs) n = (case flags_Lookup fs n of None \<Rightarrow> flags_Lookup gs n | Some f \<Rightarrow> Some f)"
  by (induction fs) (simp_all add: flags_Lookup_def)

lemma flags_Lookup_wrapped:
  "flags_Lookup (map (\<lambda>f. f\<lparr>fl_Changed := False\<rparr>) fs) n = map_option (\<lambda>f. f\<lparr>fl_Changed := False\<rparr>) (flags_Lookup fs n)"
  by (induction fs) (simp_all add: flags_Lookup_def)

lemma ReadFlagsFromEnv_none:
  assumes "\<forall>e \<in> set environ. \<not> HasPrefix (env_name e) p"
  shows "ReadFlagsFromEnv setValue p environ flags = (flags, [])"
proof -
  have "\<forall>e \<in> set es. \<not> HasPrefix (env_name e) p \<Longrightarrow> fold (read_entry setValue p) es st = st" for es st
    by (induction es arbitrary: st) (simp_all add: read_entry_eq)
  with assms show ?thesis by (simp add: ReadFlagsFromEnv_def)
qed

lemma exposer_result_None: "exposer_result errs = None \<longleftrightarrow> errs = []"
  by (cases errs rule: exposer_result.cases) simp_all

lemma exposer_command:
  assumes "klog_flags goFlags"
  obtains flags where
    "NewOpenShiftAcmeExposerCommand setValue environ runE goFlags =
       Inr \<lparr>cmd_Use = ''openshift-acme-exposer'', cmd_Flags = flags,
         cmd_PersistentPreRunE = exposer_PersistentPreRunE setValue environ,
         cmd_RunE = (\<lambda>flags. map_option exposer_result (runE (exposer_bound flags NewExposerOptions))),
         cmd_SilenceErrors = True, cmd_SilenceUsage = True\<rparr>"
    and "\<forall>f \<in> set (exposer_flags NewExposerOptions). flags_Lookup flags (fl_Name f) = Some f"
proof -
  let ?gs = "AddGoFlagSet goFlags []" and ?fs = "exposer_flags NewExposerOptions"
  have gs: "flags_Lookup ?gs n = map_option (\<lambda>f. f\<lparr>fl_Changed := False\<rparr>) (flags_Lookup goFlags n)" for n
    by (simp add: AddGoFlagSet_def flags_Lookup_wrapped) (simp add: flags_Lookup_def)
  obtain level where "flags_Lookup goFlags ''v'' = Some level"
    using assms by (auto simp: klog_flags_def)
  then have "\<exists>rest. InstallKlog goFlags (?gs @ ?fs) = Inr (?gs @ ?fs @ rest)"
    by (simp add: InstallKlog_def Let_def)
  then obtain rest where klog: "InstallKlog goFlags (?gs @ ?fs) = Inr (?gs @ ?fs @ rest)" by blast
  have own: "flags_Lookup (?gs @ ?fs @ rest) (fl_Name f) = Some f" if "f \<in> set ?fs" for f
    using that assms by (auto simp: gs klog_flags_def flags_Lookup_append exposer_flags_def controller_flag_def) (simp_all add: flags_Lookup_def)
  have "var_flags ?fs ?gs = Inr (?gs @ ?fs)"
    using assms by (auto simp: var_flags_def gs klog_flags_def list_ex_iff)
  with klog own that show thesis
    by (simp add: NewOpenShiftAcmeExposerCommand_def)
qed

text \<open>An exposer that is started with the name of its file and nothing else.\<close>

lemma exposer_main_with_file:
  assumes "klog_flags goFlags" and "cobra_runs parse execute" and "pflag_parses setValue [''--response-file='' @ file] parse"
    and "\<forall>x v. setValue ''response-file'' x v = (FString v, True)"
    and "\<forall>e \<in> set environ. \<not> HasPrefix (env_name e) ''OPENSHIFT_ACME_EXPOSER_''"
  shows "pr_End (exposer_main g n None execute errText setValue environ runE goFlags) =
      map_option (\<lambda>errs. Exit (if errs = [] then 0 else 1)) (runE (NewExposerOptions\<lparr>eo_ResponseFile := file\<rparr>))"
proof -
  obtain flags where command: "NewOpenShiftAcmeExposerCommand setValue environ runE goFlags =
       Inr \<lparr>cmd_Use = ''openshift-acme-exposer'', cmd_Flags = flags,
         cmd_PersistentPreRunE = exposer_PersistentPreRunE setValue environ,
         cmd_RunE = (\<lambda>flags. map_option exposer_result (runE (exposer_bound flags NewExposerOptions))),
         cmd_SilenceErrors = True, cmd_SilenceUsage = True\<rparr>" (is "_ = Inr ?command")
    and own: "\<forall>f \<in> set (exposer_flags NewExposerOptions). flags_Lookup flags (fl_Name f) = Some f"
    using exposer_command [OF assms(1)] by blast
  let ?f = "controller_flag ''response-file'' (FString [])"
  let ?flags = "store_flag (?f\<lparr>fl_Value := FString file, fl_Changed := True\<rparr>) flags"
  have f: "flags_Lookup flags ''response-file'' = Some ?f"
    using own by (simp add: exposer_flags_def controller_flag_def NewExposerOptions_def)
  have args: "[''--response-file='' @ file] = [''--'' @ ''response-file'' @ ''='' @ file]" by simp
  have "parse flags = Inr ?flags"
    using assms(3) [unfolded pflag_parses_def, rule_format, OF args _ f] assms(4) by simp
  moreover have "exposer_PersistentPreRunE setValue environ ?flags = (?flags, None)"
    unfolding exposer_PersistentPreRunE_def ReadFlagsFromEnv_none [OF assms(5)] by simp
  moreover have "exposer_bound ?flags NewExposerOptions = NewExposerOptions\<lparr>eo_ResponseFile := file\<rparr>"
    using own f by (simp add: exposer_bound_def flag_readers flags_Lookup_store exposer_flags_def controller_flag_def NewExposerOptions_def)
  ultimately have "execute ?command = map_option exposer_result (runE (NewExposerOptions\<lparr>eo_ResponseFile := file\<rparr>))"
    using assms(2) by (simp add: cobra_runs_def)
  then show ?thesis
    unfolding exposer_main_def using program_main_runs(1) [of "NewOpenShiftAcmeExposerCommand setValue environ runE", OF command]
    by (simp add: option.map_comp o_def exposer_result_None)
qed

section \<open>Properties\<close>



end
