(* ===== verification/Spec2Isabelle.thy ===== *)
theory Spec2Isabelle
  imports Status_Form Controller_Run Profile_Transport Process
begin

text \<open>
  A verification library for openshift-acme: a controller that watches OpenShift Routes, orders a certificate for those that
  ask for one from an ACME server, proves control of the host through an exposer it deploys next to the Route, and stores the
  certificate in the Route (and in a Secret, if the Route names one). This text says which theory models which part of the
  program, what the lemmas show and what is left out. Source paths are relative to \<^verbatim>\<open>src/\<close>.

  \<^bold>\<open>The program.\<close> \<^verbatim>\<open>pkg/cmd/openshift-acme-controller\<close> reads flags and environment, takes a leader lease
  and runs two controllers. The account controller (\<^verbatim>\<open>pkg/controller/issuer/acme/acme.go\<close>) watches the issuer
  ConfigMaps and keeps an ACME account for each, its key in a Secret. The route controller (\<^verbatim>\<open>pkg/controller/route/route.go\<close>)
  watches Routes and exposer objects; its pass \<^verbatim>\<open>sync\<close> picks an issuer (\<^verbatim>\<open>pkg/controllerutils\<close>), opens or
  continues an order, builds the exposer Route, Secret, ReplicaSet and Service of a challenge, checks the exposed token
  itself, accepts the challenge and installs the certificate. All it remembers between passes is the status annotation of the Route.
  Inside the exposer pods \<^verbatim>\<open>pkg/cmd/openshift-acme-exposer\<close> serves the file of that Secret with \<^verbatim>\<open>pkg/httpserver\<close>. Informer
  handlers put keys on work queues, workers take them off and run the passes.

  \<^bold>\<open>Conventions.\<close> Definitions have the names of the source; a function that is too long for one definition is cut where its
  statements allow it, and the pieces are named after it. Structs are records with a prefix per type, a nil pointer is
  \<open>None\<close>, a nil map \<open>None\<close> and any other map \<open>Some\<close> of a partial function, errors are values of \<open>gerror\<close>, among them \<open>Panic\<close>.
  Effects are in \<open>'a io\<close> (theory \<open>Effects\<close>): a handler extends the history of the interaction and ends in an error or a
  result, so every read and write of the outside is an event of a trace, in order. What the outside answers is a function of the whole
  history (\<open>env\<close>), so other writers, stale caches, failures and the clock are all some \<open>env\<close>. Pure functions of packages outside the
  repository (apimachinery, client-go, x/crypto/acme, YAML, PEM, x509, hashes, regular expressions) are the fields of \<open>lib\<close>;
  the few laws about them that a property needs are named predicates in its hypotheses (\<open>pem_roundtrip\<close>, \<open>retry_contract\<close>,
  \<open>status_readable\<close>, \<open>gets_named\<close>, \<open>routes_watched\<close> and others next to the property), and the witnesses use concrete instances of them.

  \<^bold>\<open>Theories.\<close>
  \<^item> \<open>Go_Prelude\<close>: 64 bit integers with wrap-around and saturation, strings and the functions of \<^verbatim>\<open>strings\<close> in use, maps, and the
    collections \<open>go_simps\<close>, \<open>io_simps\<close>, \<open>io_intro\<close>. \<open>Api_Types\<close>: \<^verbatim>\<open>pkg/api\<close> and the cluster and ACME objects. \<open>Effects\<close>:
    \<open>lib\<close>, events, \<open>env\<close>, the monad and the rules about traces. \<open>Fixture\<close>: executable surroundings for witnesses.
  \<^item> \<open>Pkg_Util\<close>: \<^verbatim>\<open>pkg/util\<close>, \<^verbatim>\<open>pkg/route\<close>, \<^verbatim>\<open>pkg/cert\<close>, \<^verbatim>\<open>pkg/helpers\<close>.
  \<^item> \<open>Informers\<close>: \<^verbatim>\<open>pkg/machinery/informers\<close>; both maps are instances of the locale \<open>informer_map\<close>. \<open>Api_Calls\<close>: one
    definition per client method.
  \<^item> \<open>Issuer_Selection\<close>: \<^verbatim>\<open>pkg/controllerutils/controllerutils.go\<close>. The first ConfigMap is a best one for consistent
    issuers, none is lost; the self check succeeds exactly on the expected answer.
  \<^item> \<open>Renewal\<close>: \<^verbatim>\<open>needsCertKey\<close>, \<^verbatim>\<open>proactiveRenewalThreshold\<close>, the backoff. The decision on every branch, its exact delay, the
    bounds of the renewal point. \<open>Temporary_Name\<close>: \<^verbatim>\<open>getTemporaryName\<close> with its base 32 encoding. \<open>Resources\<close>:
    \<^verbatim>\<open>adjustContainerResourceRequirements\<close>, with \<^verbatim>\<open>quoMilliRoundHalfDown\<close> equal to the exact quotient rounded half down.
  \<^item> \<open>Route_Controller\<close>: the record of the controller and \<^verbatim>\<open>NewRouteController\<close>. \<open>Exposer_Objects\<close>: the four exposer objects, each
    got or created and then checked, as instances of the locale \<open>exposer_object\<close>. \<open>Route_Status\<close>: \<^verbatim>\<open>getStatus\<close>,
    \<^verbatim>\<open>setStatus\<close>, \<^verbatim>\<open>updateStatus\<close>, \<^verbatim>\<open>CleanupExposerObjects\<close>. \<open>Challenge\<close>: a pending order and its authorizations.
    \<open>Route_Sync\<close>: the rest of \<^verbatim>\<open>sync\<close>, cut at the points where the code returns.
  \<^item> \<open>Sync_Safety\<close>, \<open>Provisioning\<close>, \<open>Order_Life\<close>: what a pass never does, what it achieves, and that it refines the abstract
    machine \<open>order_step\<close> over the phase of an order. \<open>Order_Passes\<close>: any number of passes over one Route, with one order at a time.
    \<open>Sync_Scenario\<close>: a concrete cluster with an order in a chosen state. \<open>Wake_Up\<close>: what brings a Route back to the queue after a
    pass, and the one order that nothing brings back. \<open>Status_Form\<close>: the type of the status annotation, kept by every pass.
  \<^item> \<open>Route_Events\<close>: the informer handlers of the route controller. \<open>Route_Secret\<close>: \<^verbatim>\<open>syncRouteToSecret\<close>. \<open>Account\<close>: the account
    controller, its handlers and its pass \<open>account_sync\<close>.
  \<^item> \<open>Work_Queue\<close>: the item handlers and worker loops, instances of the locale \<open>worker\<close> for the three queues. \<open>Controller_Run\<close>:
    \<^verbatim>\<open>Run\<close> of both controllers with their goroutines as the step relation \<open>run_step\<close>, instances of the locale \<open>controller_run\<close>.
  \<^item> \<open>Profile_Transport\<close>: the HTTP transport that adds a certificate profile to new orders.
  \<^item> \<open>Cmd_Options\<close>: \<^verbatim>\<open>pkg/cmd/util/helpers.go\<close> and the options of the controller command. \<open>Leader_Run\<close>: its \<^verbatim>\<open>Run\<close>, the step
    relation \<open>leader_step\<close>; no controller runs without having had the lease, and when the lease is lost all that is left to the elector is to end the process.
    \<open>Http_Server\<close> and \<open>Exposer_Cmd\<close>: the exposer; \<open>Exposer_Goroutines\<close>: its goroutines, the step relation \<open>exposer_step\<close>. \<open>Signals\<close>: \<^verbatim>\<open>pkg/signals\<close>, the stop channel as the step relation
    \<open>signals_step\<close>. \<open>Process\<close>: \<^verbatim>\<open>main\<close> of both programs, their commands with the flags behind the options and the exit codes,
    \<^verbatim>\<open>pkg/version\<close>, \<^verbatim>\<open>pkg/cmd/version\<close> and \<^verbatim>\<open>genericclioptions\<close>; where the value of a flag comes from.
  \<^item> This theory: properties across components. The certificate that a pass installs is recognised by the next one, the exposer
    answers what the controller checks, and the pod that the controller describes starts the exposer so that it does.

  \<^bold>\<open>Bounds and termination.\<close> Integers are \<open>int\<close> with \<open>wrap64\<close> and \<open>sat64\<close> where the code can leave the range of \<^verbatim>\<open>int64\<close>. The
  loops of a pass run over lists and need no fuel. \<^verbatim>\<open>retry.RetryOnConflict\<close> is a parameter that may repeat its function any
  number of times (\<open>retry_contract\<close>: for every call there is an \<open>n\<close> for which it is \<open>run_conflicts n\<close>). A worker loop may run for ever, so it is a
  \<open>partial_function (option)\<close>; that it returns is proved from the hypothesis \<open>shut_down_by n\<close> on the queue, for every \<open>n\<close>. The step relations
  \<open>run_step\<close>, \<open>leader_step\<close> and \<open>exposer_step\<close> have the measures \<open>work_left\<close>, \<open>leader_work\<close> and \<open>exposer_work\<close>: after the stop signal there is always
  a next step, and the measure falls with every step (in the exposer once its server shuts down and takes no more requests). So the shutdowns end under every
  interleaving, that of the controller process in a return or, if the elector or its timer calls \<^verbatim>\<open>klog.Fatalf\<close>, in its exit.

  \<^bold>\<open>Not modelled.\<close> Seeding the random numbers, flushing logs, the help texts and the hiding of flags have no effect on what is stated here.
  cobra and pflag are parameters with the contracts \<open>cobra_runs\<close> and \<open>pflag_parses\<close>; the stop channel reaches \<open>leader_step\<close>,
  \<open>exposer_step\<close> and \<open>exposer_Run\<close> as the fact that a signal came. Log lines and the texts of errors beyond their format strings are left out. The informers, the
  work queues, the elector and the event recorder are client-go's and follow its documentation.
\<close>

section \<open>Lemmas across components\<close>

lemma pemEncode_nonempty:
  assumes "pem_roundtrip L"
  shows "l_pemEncode L t b \<noteq> []"
proof
  assume "l_pemEncode L t b = []"
  then have "l_pemDecode L r = Some b" for r
    using assms unfolding pem_roundtrip_def by (metis append_Nil)
  moreover have "l_pemDecode L (l_pemEncode L t (CHR ''x'' # b) @ []) = Some (CHR ''x'' # b)"
    using assms unfolding pem_roundtrip_def by blast
  ultimately show False by simp
qed

lemma installed_route_certificate:
  assumes "pem_roundtrip L" and "NewCertificateFromDER L (leaf # chain) key = Inr data" and "l_ParseCertificate L leaf = Some c"
  shows "route_certificate L (install_certificate data route) c"
proof -
  have "CertPemData_Certificate L data = Inr c"
    using NewCertificateFromDER_Certificate [OF assms(1,2)] assms(3) by auto
  moreover have "pem_Key data \<noteq> []" "pem_Crt data \<noteq> []"
    using assms(2) pemEncode_nonempty [OF assms(1)]
    by (auto simp: NewCertificateFromDER_def split: sum.splits option.splits dest!: encode_chain_Inr)
  ultimately show ?thesis
    by (cases data) (simp add: route_certificate_def install_certificate_def Let_def)
qed

section \<open>Properties across components\<close>

text \<open>
  C8: the certificate that a pass installs ends the need for one. Of a Route that carries a certificate encoded from the chain
  the ACME server sent, the next pass asks for nothing and schedules a later look exactly while the leaf of that chain matches the host,
  is valid and has not come to its renewal point.
\<close>

theorem installed_certificate_is_recognised:
  assumes "pem_roundtrip L" and "NewCertificateFromDER L (leaf # chain) key = Inr data" and "l_ParseCertificate L leaf = Some c"
  shows "(\<exists>d > 0. needsCertKey L t (install_certificate data route) = Inr ([], d)) \<longleftrightarrow> healthy_at L route c t"
proof -
  let ?r = "install_certificate data route"
  have rc: "route_certificate L ?r c"
    using assms by (rule installed_route_certificate)
  have host: "healthy_at L ?r c t \<longleftrightarrow> healthy_at L route c t"
    by (simp add: healthy_at_def install_certificate_def Let_def)
  show ?thesis
  proof (cases "healthy_at L ?r c t")
    case True
    with needsCertKey_healthy [OF rc True] host show ?thesis
      by (auto simp: healthy_at_def)
  next
    case False
    with needsCertKey_unhealthy [OF rc False] host show ?thesis by auto
  qed
qed

theorem installed_certificate_is_recognised_witness:
  "\<exists>d > 0. needsCertKey fx_lib 20 (install_certificate sc_pem fx_route) = Inr ([], d)"
proof -
  have "NewCertificateFromDER fx_lib [''crt''] ''key'' = Inr sc_pem"
    by (simp add: NewCertificateFromDER_def sc_pem_def fx_pemEncode_def)
  moreover have "l_ParseCertificate fx_lib ''crt'' = Some fx_certificate"
    by (simp add: fx_certificate_def)
  ultimately show ?thesis
    using installed_certificate_is_recognised [OF fx_pem_roundtrip, of "''crt''" "[]" "''key''" sc_pem fx_certificate 20 fx_route] fx_healthy
    by simp
qed

text \<open>
  C9: the exposer answers what the controller checks. The file in the Secret the controller creates for a challenge is accepted by the
  parser of the exposer, and the server that parsed it answers the path of the challenge with status 200 and the expected response; so
  once requests for the challenge URL reach that server, the controller's own check succeeds.
\<close>

theorem exposer_serves_challenge:
  assumes "entry_ok (path, response)" and "length response \<le> 2048"
    and "mget (sec_StringData (desiredExposerSecret L key route xid tmpName exposerRoute path response)) ExposerFileKey = Some file"
    and "Server_ParseData (exposer_server opts) file = (server, err)"
    and "e_httpGet E h url = Inr \<lparr>hr_StatusCode = rep_StatusCode (Server_handler server path),
      hr_FirstRead = rep_Body (Server_handler server path), hr_ReadError = False\<rparr>"
  shows "err = None \<and> fst (ValidateExposedToken E url response h) = Inr ()"
proof -
  have content: "file = entry_line (path, response)"
    using assms(3) by (simp add: desiredExposerSecret_def entry_line_def)
  have "CHR 0x0A \<notin> set file"
    using assms(1) by (auto simp: content entry_ok_def entry_line_def)
  then have "Split CHR 0x0A file = [entry_line (path, response)]"
    by (simp add: Split_no_sep content)
  then have "server = (exposer_server opts)\<lparr>srv_uriToResponse := [path \<mapsto> response]\<rparr> \<and> err = None"
    using assms(4) parse_entry [OF assms(1), of Map.empty "[]"]
    by (auto simp: Server_ParseData_def exposer_server_def NewServer_def)
  with assms(2,5) show ?thesis
    by (simp add: Server_handler_def ValidateExposedToken_def io_defs)
qed

theorem exposer_serves_challenge_witness:
  "fst (ValidateExposedToken (fx_env\<lparr>e_httpGet := \<lambda>h u. Inr \<lparr>hr_StatusCode = 200, hr_FirstRead = ''token.key'', hr_ReadError = False\<rparr>\<rparr>)
     ''http://example.com/.well-known/acme-challenge/token'' ''token.key'' []) = Inr ()"
proof -
  let ?path = "''/.well-known/acme-challenge/token''"
  let ?server = "(exposer_server NewExposerOptions)\<lparr>srv_uriToResponse := [?path \<mapsto> ''token.key'']\<rparr>"
  let ?E = "fx_env\<lparr>e_httpGet := \<lambda>h u. Inr \<lparr>hr_StatusCode = 200, hr_FirstRead = ''token.key'', hr_ReadError = False\<rparr>\<rparr>"
  have ok: "entry_ok (?path, ''token.key'')"
    by (simp add: entry_ok_def is_space_def)
  have content: "mget (sec_StringData (desiredExposerSecret fx_lib ''ns/web'' fx_route ''id'' ''tmp'' fx_route ?path ''token.key'')) ExposerFileKey =
      Some (entry_line (?path, ''token.key''))"
    by (simp add: desiredExposerSecret_def entry_line_def)
  have line: "Split CHR 0x0A (entry_line (?path, ''token.key'')) = [entry_line (?path, ''token.key'')]"
    by (rule Split_no_sep) (simp add: entry_line_def)
  have parse: "Server_ParseData (exposer_server NewExposerOptions) (entry_line (?path, ''token.key'')) = (?server, None)"
    using parse_entry [OF ok, of Map.empty "[]"] by (simp add: Server_ParseData_def line exposer_server_def NewServer_def)
  show ?thesis
    using exposer_serves_challenge [OF ok _ content parse, of ?E "[]" "''http://example.com'' @ ?path"]
    by (simp add: Server_handler_def)
qed

text \<open>
  What Kubernetes documents of a Secret as a volume: in a container that mounts it there is a file for each of its keys.
\<close>

definition mounts_secret :: "PodSpec \<Rightarrow> Container \<Rightarrow> Secret \<Rightarrow> (string \<Rightarrow> gerror + string) \<Rightarrow> bool" where
  "mounts_secret spec ctr secret readFile \<longleftrightarrow>
     (\<forall>vm \<in> set (ctr_VolumeMounts ctr). \<forall>vol \<in> set (pod_Volumes spec).
        vol_Name vol = vm_Name vm \<longrightarrow> vol_SecretName vol = om_Name (sec_Meta secret) \<longrightarrow>
        (\<forall>k v. mget (sec_StringData secret) k = Some v \<longrightarrow> readFile (vm_MountPath vm @ ''/'' @ k) = Inr v))"

text \<open>
  C10: the exposer pod that the controller describes works. A container of the ReplicaSet runs the exposer with the arguments given there, on the volume
  mounted there; then the program comes up with options under which it loads the file the controller put into the Secret, listens on the port
  that the container and the Service name, answers the path of the challenge with the expected response, and goes on
  until a signal, on which it exits with code 0. The environment must not hold variables with the prefix of the exposer.
\<close>

theorem deployed_exposer_serves:
  assumes "entry_ok (path, response)"
    and "secret = desiredExposerSecret L key route xid tmpName exposerRoute path response"
    and "spec = rps_TemplateSpec (desiredExposerRS L rc key route xid tmpName exposerRoute secret resources)"
    and "ctr \<in> set (pod_Containers spec)" and "mounts_secret spec ctr secret readFile"
    and "cobra_runs parse execute" and "pflag_parses setValue (ctr_Args ctr) parse" and "\<forall>x v. setValue ''response-file'' x v = (FString v, True)"
    and "\<forall>e \<in> set environ. \<not> HasPrefix (env_name e) ''OPENSHIFT_ACME_EXPOSER_''" and "klog_flags goFlags"
    and "portOk 5000" and "ipOk ''0.0.0.0''" and "listen ''0.0.0.0:5000'' = Inr addr"
  shows "\<exists>opts server.
    (\<forall>runE. pr_End (exposer_main g n None execute errText setValue environ runE goFlags) =
       map_option (\<lambda>errs. Exit (if errs = [] then 0 else 1)) (runE opts)) \<and>
    exposer_load readFile opts = Inr server \<and>
    Server_handler server path = \<lparr>rep_ContentType = ''text/plain'', rep_StatusCode = 200, rep_Body = response\<rparr> \<and>
    map cp_ContainerPort (ctr_Ports ctr) = [uint (eo_Port opts)] \<and>
    map sp_TargetPort (svc_Ports (desiredExposerService L key route xid tmpName exposerRoute)) = [uint (eo_Port opts)] \<and>
    srv_Addr server = ''0.0.0.0:5000'' \<and>
    exposer_RunE portOk ipOk readFile listen None None stop opts = (if stop then Some [] else None)"
proof -
  let ?file = "''/etc/openshift-acme-exposer/'' @ ExposerFileKey"
  let ?opts = "NewExposerOptions\<lparr>eo_ResponseFile := ?file\<rparr>"
  let ?server = "(exposer_server ?opts)\<lparr>srv_uriToResponse := [path \<mapsto> response]\<rparr>"
  have ctr: "ctr_Args ctr = [''--response-file='' @ ?file]" "map cp_ContainerPort (ctr_Ports ctr) = [5000]"
    using assms(3,4) by (auto simp: desiredExposerRS_def)
  have "readFile ?file = Inr (entry_line (path, response))"
    using assms(2-5) by (auto simp: mounts_secret_def desiredExposerRS_def desiredExposerSecret_def entry_line_def)
  moreover have "Split CHR 0x0A (entry_line (path, response)) = [entry_line (path, response)]"
    using assms(1) by (intro Split_no_sep) (auto simp: entry_ok_def entry_line_def)
  ultimately have load: "exposer_load readFile ?opts = Inr ?server"
    using parse_entry [OF assms(1), of Map.empty "[]"]
    by (simp add: exposer_load_def Server_ParseData_def exposer_server_def NewServer_def)
  have "decimal 5000 = ''5000''"
    by (simp add: decimal.simps) code_simp
  then have addr: "srv_Addr ?server = ''0.0.0.0:5000''" and port: "uint (eo_Port ?opts) = 5000"
    by (simp_all add: exposer_server_def NewServer_def NewExposerOptions_def)
  have "Exposer_Validate portOk ipOk ?opts = None"
    using assms(11,12) by (simp add: Exposer_Validate_def NewExposerOptions_def)
  then have run: "exposer_RunE portOk ipOk readFile listen None None stop ?opts = (if stop then Some [] else None)"
    using load addr assms(13) by (simp add: exposer_RunE_def exposer_Run_def Server_Run_def Server_Shutdown_def map_filter_simps)
  have start: "pr_End (exposer_main g n None execute errText setValue environ runE goFlags) =
      map_option (\<lambda>errs. Exit (if errs = [] then 0 else 1)) (runE ?opts)" for runE
    by (rule exposer_main_with_file [OF assms(10,6) assms(7) [unfolded ctr(1)] assms(8,9)])
  have handler: "Server_handler ?server path = \<lparr>rep_ContentType = ''text/plain'', rep_StatusCode = 200, rep_Body = response\<rparr>"
    by (simp add: Server_handler_def)
  have target: "map sp_TargetPort (svc_Ports (desiredExposerService L key route xid tmpName exposerRoute)) = [5000]"
    by (simp add: desiredExposerService_def)
  show ?thesis
    by (intro exI [of _ ?opts] exI [of _ ?server] conjI allI start load handler addr run) (simp_all only: ctr(2) target port)
qed

text \<open>A command line of one flag, read as pflag documents it.\<close>

definition fx_setValue :: "string \<Rightarrow> flag_value \<Rightarrow> string \<Rightarrow> flag_value \<times> bool" where
  "fx_setValue n x v = (FString v, True)"

definition fx_parse :: "string list \<Rightarrow> flag_value flag list \<Rightarrow> gerror + flag_value flag list" where
  "fx_parse args flags =
     (case Cut CHR ''='' (drop 2 (hd args)) of
        (n, v, _) \<Rightarrow>
          (case flags_Lookup flags n of
             None \<Rightarrow> Inl (Errorf ''unknown flag'')
           | Some f \<Rightarrow> Inr (store_flag (f\<lparr>fl_Value := FString v, fl_Changed := True\<rparr>) flags)))"

lemma fx_parse: "pflag_parses fx_setValue args (fx_parse args)"
proof -
  have "Cut CHR ''='' (n @ ''='' @ v) = (n, v, True)" if "CHR ''='' \<notin> set n" for n v
    using that by (induction n) (auto simp: Cut_def)
  then show ?thesis by (auto simp: pflag_parses_def fx_parse_def fx_setValue_def)
qed

theorem deployed_exposer_serves_witness:
  "\<exists>opts. pr_End (exposer_main [] 4 None
       (\<lambda>command. case fx_parse [''--response-file=/etc/openshift-acme-exposer/'' @ ExposerFileKey] (cmd_Flags command) of
          Inl err \<Rightarrow> Some (Some err)
        | Inr flags \<Rightarrow>
            (case cmd_PersistentPreRunE command flags of (_, Some err) \<Rightarrow> Some (Some err) | (flags', None) \<Rightarrow> cmd_RunE command flags'))
       (\<lambda>err. []) fx_setValue [''HOME=/'']
       (exposer_RunE (\<lambda>p. True) (\<lambda>a. True) (\<lambda>f. Inr ''/path token.key'') (\<lambda>a. Inr a) None None True)
       [controller_flag ''v'' (FInt 0)]) = Some (Exit 0)"
proof -
  let ?args = "[''--response-file=/etc/openshift-acme-exposer/'' @ ExposerFileKey]"
  let ?execute = "\<lambda>command :: flag_value command. case fx_parse ?args (cmd_Flags command) of
      Inl err \<Rightarrow> Some (Some err)
    | Inr flags \<Rightarrow>
        (case cmd_PersistentPreRunE command flags of (_, Some err) \<Rightarrow> Some (Some err) | (flags', None) \<Rightarrow> cmd_RunE command flags')"
  let ?secret = "desiredExposerSecret fx_lib ''ns/web'' fx_route ''id'' ''tmp'' fx_route ''/path'' ''token.key''"
  let ?spec = "rps_TemplateSpec (desiredExposerRS fx_lib fx_rc ''ns/web'' fx_route ''id'' ''tmp'' fx_route ?secret (exposerRequirements fx_lib))"
  let ?ctr = "hd (pod_Containers ?spec)"
  let ?run = "exposer_RunE (\<lambda>p. True) (\<lambda>a. True) (\<lambda>f. Inr ''/path token.key'') (\<lambda>a. Inr a) None None True"
  have ctr: "?ctr \<in> set (pod_Containers ?spec)" "ctr_Args ?ctr = ?args"
    by (simp_all add: desiredExposerRS_def)
  have ok: "entry_ok (''/path'', ''token.key'')"
    by (simp add: entry_ok_def is_space_def)
  have mounts: "mounts_secret ?spec ?ctr ?secret (\<lambda>f. Inr ''/path token.key'')"
    by (auto simp: mounts_secret_def desiredExposerSecret_def split: if_splits)
  have flags: "klog_flags [controller_flag ''v'' (FInt 0)]"
    by (simp add: klog_flags_def exposer_flags_def controller_flag_def flags_Lookup_def)
  have runs: "cobra_runs (fx_parse ?args) ?execute"
    by (simp add: cobra_runs_def)
  have env: "\<forall>e \<in> set [''HOME=/'']. \<not> HasPrefix (env_name e) ''OPENSHIFT_ACME_EXPOSER_''"
    by (simp add: env_name_def Cut_def HasPrefix_def)
  have parses: "pflag_parses fx_setValue (ctr_Args ?ctr) (fx_parse ?args)"
    unfolding ctr(2) by (rule fx_parse)
  have set: "\<forall>x v. fx_setValue ''response-file'' x v = (FString v, True)"
    by (simp add: fx_setValue_def)
  obtain opts where "\<forall>runE. pr_End (exposer_main [] 4 None ?execute (\<lambda>err. []) fx_setValue [''HOME=/''] runE
        [controller_flag ''v'' (FInt 0)]) = map_option (\<lambda>errs. Exit (if errs = [] then 0 else 1)) (runE opts)"
    and "?run opts = Some []"
    using deployed_exposer_serves [where stop = True and portOk = "\<lambda>p. True" and ipOk = "\<lambda>a. True" and listen = "\<lambda>a. Inr a",
        OF ok refl refl ctr(1) mounts runs parses set env flags] by fastforce
  then show ?thesis by simp
qed

end
